theory Spec2Isabelle
  imports Complex_Main "HOL-Library.Sublist"
begin

section \<open>Zendesk to MySQL incremental backup: a model of backup.py\<close>

text \<open>
  The development follows \<^verbatim>\<open>src/backup.py\<close>. Python values that come from the
  remote API are JSON values; Python's \<^verbatim>\<open>None\<close> is \<open>JNull\<close>. JSON numbers
  are integers (the remote ids, counters and epochs); floating point payload numbers are
  not modelled. A Python \<^verbatim>\<open>dict\<close> is an association list whose first binding of
  a key is the value of the key.
\<close>

subsection \<open>Python values\<close>

datatype json =
    JNull
  | JBool bool
  | JInt int
  | JStr string
  | JArr "json list"
  | JObj "(string \<times> json) list"

type_synonym pydict = "(string \<times> json) list"

text \<open>The exceptions the code can raise or let through.\<close>

datatype error =
    GetFailed string int json
  | GetExhausted string
  | ConnectionError
  | JSONDecodeError
  | KeyError string
  | TypeError
  | ValueError
  | AttributeError
  | StoreError
  | InvalidURL
  | OSError

text \<open>Truthiness, as \<^verbatim>\<open>if x\<close>, \<^verbatim>\<open>x or y\<close> and \<^verbatim>\<open>not x\<close> read it.\<close>

fun truthy :: "json \<Rightarrow> bool" where
  "truthy JNull = False"
| "truthy (JBool b) = b"
| "truthy (JInt n) = (n \<noteq> 0)"
| "truthy (JStr s) = (s \<noteq> [])"
| "truthy (JArr xs) = (xs \<noteq> [])"
| "truthy (JObj kvs) = (kvs \<noteq> [])"

definition py_or :: "json \<Rightarrow> json \<Rightarrow> json" where
  "py_or a b = (if truthy a then a else b)"

text \<open>\<^verbatim>\<open>d.get(k)\<close> and \<^verbatim>\<open>d[k]\<close> on a dict.\<close>

definition dget :: "pydict \<Rightarrow> string \<Rightarrow> json" where
  "dget d k = (case map_of d k of None \<Rightarrow> JNull | Some v \<Rightarrow> v)"

definition dindex :: "pydict \<Rightarrow> string \<Rightarrow> error + json" where
  "dindex d k = (case map_of d k of None \<Rightarrow> Inl (KeyError k) | Some v \<Rightarrow> Inr v)"

subsection \<open>HTTP\<close>

text \<open>
  A response as the fetcher reads it: the status, the \<^verbatim>\<open>Retry-After\<close> header
  (\<^verbatim>\<open>resp.headers.get\<close>), the result of \<^verbatim>\<open>resp.json()\<close> (\<open>None\<close> where it
  raises), \<^verbatim>\<open>resp.text\<close>, and the chunks \<^verbatim>\<open>resp.iter_content\<close> yields
  (\<open>Broken\<close> where the stream, or the write of the chunk, raises). A call of \<^verbatim>\<open>SESSION.get\<close> either
  gives a response or raises. A request is the URL, the query parameters (\<^verbatim>\<open>None\<close>
  and \<^verbatim>\<open>{}\<close> are both \<open>[]\<close>) and the stream flag.
\<close>

datatype chunk = Chunk string | Broken

record http_response =
  status_code :: int
  retry_after :: "string option"
  json_body :: "json option"
  body_text :: string
  content :: "chunk list"

datatype reply = Reply http_response | NetError

type_synonym request = "string \<times> pydict \<times> bool"

datatype fetched = Resp http_response | Body json

subsection \<open>Configuration and environment\<close>

text \<open>
  The module reads its configuration once from the process environment; the record holds
  the values the functions below use. With them it holds what the run takes from outside
  the repository: the clock (\<open>now\<close> is \<^verbatim>\<open>int(time.time())\<close>), the Python
  builtins \<^verbatim>\<open>float\<close>, \<^verbatim>\<open>int\<close> (on a string), \<^verbatim>\<open>str\<close> and
  \<^verbatim>\<open>datetime.fromisoformat\<close> followed by \<^verbatim>\<open>strftime\<close> (each \<open>None\<close> where
  the builtin raises), \<^verbatim>\<open>Path.resolve\<close>, the file system, and the remote server:
  \<open>server E k r\<close> is what the \<open>k\<close>-th HTTP call of the run gets when it sends the
  request \<open>r\<close>. The file system decides for a path whether \<^verbatim>\<open>Path.mkdir\<close>
  (\<open>mkdir_fails\<close>), the test \<^verbatim>\<open>Path.exists\<close> with \<^verbatim>\<open>Path.stat\<close>
  (\<open>stat_fails\<close>) and \<^verbatim>\<open>open(path, "wb")\<close> (\<open>open_fails\<close>) raise
  \<^verbatim>\<open>OSError\<close>: a directory that cannot be written, a path that cannot be read.
\<close>

record config =
  z_base :: string
  per_page :: int
  include_fields :: string
  exclude_deleted :: bool
  bootstrap_hours :: int
  closed_tickets_only :: bool
  use_ticket_events_for_comments :: bool
  prune_reopened_from_db :: bool
  download_attachments :: bool
  attachments_dir :: string
  org_per_page :: int
  org_page_delay_secs :: rat
  skip_organizations :: bool
  now :: int
  float_of :: "string \<Rightarrow> rat option"
  int_of :: "string \<Rightarrow> int option"
  str_of :: "json \<Rightarrow> string"
  fromisoformat :: "string \<Rightarrow> string option"
  resolve :: "string \<Rightarrow> string"
  mkdir_fails :: "string \<Rightarrow> bool"
  stat_fails :: "string \<Rightarrow> bool"
  open_fails :: "string \<Rightarrow> bool"
  server :: "nat \<Rightarrow> request \<Rightarrow> reply"

definition RETRY_STATUS :: "int set" where
  "RETRY_STATUS = {429, 500, 502, 503, 504}"

subsection \<open>Helpers\<close>

text \<open>
  \<^verbatim>\<open>re.sub(r"[\\/:*?\"<>|]+", "_", name or "")\<close>: every maximal run of the nine
  characters becomes one underscore; then the name is cut to 180 characters. A name that
  is neither a string nor falsy makes \<^verbatim>\<open>re.sub\<close> raise \<^verbatim>\<open>TypeError\<close>.
\<close>

definition illegal :: "char \<Rightarrow> bool" where
  "illegal c = (c \<in> set [CHR 0x5C, CHR ''/'', CHR '':'', CHR ''*'', CHR ''?'', CHR 0x22,
                          CHR ''<'', CHR ''>'', CHR ''|''])"

fun sub_runs :: "bool \<Rightarrow> string \<Rightarrow> string" where
  "sub_runs in_run [] = []"
| "sub_runs in_run (c # cs) =
     (if illegal c then (if in_run then sub_runs True cs else CHR ''_'' # sub_runs True cs)
      else c # sub_runs False cs)"

definition safe_filename :: "json \<Rightarrow> error + string" where
  "safe_filename name =
     (case py_or name (JStr []) of
        JStr s \<Rightarrow> Inr (take 180 (sub_runs False s))
      | _ \<Rightarrow> Inl TypeError)"

definition initial_start_time_epoch :: "config \<Rightarrow> int" where
  "initial_start_time_epoch E = now E - max (bootstrap_hours E * 3600) 120"

text \<open>
  \<^verbatim>\<open>parse_dt\<close>: \<open>None\<close> for a falsy argument; the whole conversion stands in a
  \<^verbatim>\<open>try\<close>, so an argument that is not a string, or not an ISO date, gives \<open>None\<close>.
\<close>

definition replace_Z :: "string \<Rightarrow> string" where
  "replace_Z s = concat (map (\<lambda>c. if c = CHR ''Z'' then ''+00:00'' else [c]) s)"

definition parse_dt :: "config \<Rightarrow> json \<Rightarrow> string option" where
  "parse_dt E s =
     (if \<not> truthy s then None
      else case s of JStr x \<Rightarrow> fromisoformat E (replace_Z x) | _ \<Rightarrow> None)"

text \<open>\<^verbatim>\<open>int(x)\<close> on a value of the payload.\<close>

definition py_int :: "config \<Rightarrow> json \<Rightarrow> error + int" where
  "py_int E x =
     (case x of
        JInt n \<Rightarrow> Inr n
      | JBool b \<Rightarrow> Inr (if b then 1 else 0)
      | JStr s \<Rightarrow> (case int_of E s of None \<Rightarrow> Inl ValueError | Some n \<Rightarrow> Inr n)
      | _ \<Rightarrow> Inl TypeError)"

text \<open>
  Iterating a value with \<^verbatim>\<open>for\<close>: a list gives its elements, a string its characters,
  a dict its keys; \<^verbatim>\<open>None\<close>, a number and a boolean raise \<^verbatim>\<open>TypeError\<close>.
\<close>

definition py_iter :: "json \<Rightarrow> error + json list" where
  "py_iter x =
     (case x of
        JArr xs \<Rightarrow> Inr xs
      | JStr s \<Rightarrow> Inr (map (\<lambda>c. JStr [c]) s)
      | JObj kvs \<Rightarrow> Inr (map JStr (remdups (map fst kvs)))
      | _ \<Rightarrow> Inl TypeError)"

definition dget_default :: "pydict \<Rightarrow> string \<Rightarrow> json \<Rightarrow> json" where
  "dget_default d k v = (case map_of d k of None \<Rightarrow> v | Some x \<Rightarrow> x)"

text \<open>\<^verbatim>\<open>page.get("links", {}).get("next")\<close>.\<close>

definition links_next :: "pydict \<Rightarrow> error + json" where
  "links_next page =
     (case dget_default page ''links'' (JObj []) of
        JObj l \<Rightarrow> Inr (dget l ''next'')
      | _ \<Rightarrow> Inl AttributeError)"

subsection \<open>The store, the files and the state of a run\<close>

text \<open>
  A table is a map from its primary key to the row's other columns, a record per table.
  A cell holds the Python value the statement passes: the JSON value of the payload for a
  plain or a \<^verbatim>\<open>json.dumps\<close> column, \<open>0\<close> or \<open>1\<close> for a flag, the result of
  \<^verbatim>\<open>parse_dt\<close> for a date. Only the primary key is checked by the model of the store
  (see \<open>sql_bigint\<close>); the other cells are stored as passed.
\<close>

record raw_row =
  raw_updated_at :: "string option"
  payload_json :: pydict

record user_row =
  u_name :: json
  u_email :: json
  u_role :: json
  u_role_type :: json
  u_active :: int
  u_suspended :: int
  u_organization_id :: json
  u_phone :: json
  u_locale :: json
  u_time_zone :: json
  u_created_at :: "string option"
  u_updated_at :: "string option"
  u_last_login_at :: "string option"
  u_tags_json :: json
  u_user_fields_json :: json
  u_photo_json :: json

record org_row =
  o_name :: json
  o_external_id :: json
  o_group_id :: json
  o_details :: json
  o_notes :: json
  o_shared_tickets :: int
  o_shared_comments :: int
  o_domain_names_json :: json
  o_tags_json :: json
  o_organization_fields_json :: json
  o_created_at :: "string option"
  o_updated_at :: "string option"

record ticket_row =
  t_subject :: json
  t_description :: json
  t_status :: json
  t_priority :: json
  t_type :: json
  t_requester_id :: json
  t_assignee_id :: json
  t_organization_id :: json
  t_created_at :: "string option"
  t_updated_at :: "string option"
  t_due_at :: "string option"

record comment_row =
  c_ticket_id :: int
  c_author_id :: json
  c_public :: int
  c_body :: json
  c_created_at :: "string option"
  c_updated_at :: "string option"

record attachment_row =
  a_ticket_id :: int
  a_comment_id :: int
  a_file_name :: json
  a_content_url :: json
  a_local_path :: json
  a_content_type :: json
  a_size :: json
  a_thumbnails_json :: json
  a_created_at :: "string option"

record view_row =
  v_title :: json
  v_description :: json
  v_active :: int
  v_position :: json
  v_default_view :: int
  v_restriction_json :: json
  v_execution_json :: json
  v_conditions_json :: json
  v_created_at :: "string option"
  v_updated_at :: "string option"

record trigger_row =
  tr_title :: json
  tr_description :: json
  tr_active :: int
  tr_position :: json
  tr_category_id :: json
  tr_raw_title :: json
  tr_default_trigger :: int
  tr_conditions_json :: json
  tr_actions_json :: json
  tr_created_at :: "string option"
  tr_updated_at :: "string option"

record trigger_category_row =
  tc_name :: json
  tc_position :: json
  tc_created_at :: "string option"
  tc_updated_at :: "string option"

record macro_row =
  m_title :: json
  m_description :: json
  m_active :: int
  m_position :: json
  m_default_macro :: int
  m_restriction_json :: json
  m_actions_json :: json
  m_created_at :: "string option"
  m_updated_at :: "string option"

text \<open>
  The state of a run: the tables of the store, the local files (path to content) and
  directories, the HTTP calls made so far and the sleeps taken so far. The connection commits every
  statement (\<^verbatim>\<open>autocommit\<close>), so the state survives an exception.
\<close>

record world =
  sync_state :: "string \<rightharpoonup> string"
  raw_snapshots :: "string \<times> int \<rightharpoonup> raw_row"
  users :: "int \<rightharpoonup> user_row"
  organizations :: "int \<rightharpoonup> org_row"
  tickets :: "int \<rightharpoonup> ticket_row"
  ticket_comments :: "int \<rightharpoonup> comment_row"
  attachments :: "int \<rightharpoonup> attachment_row"
  views :: "int \<rightharpoonup> view_row"
  triggers :: "int \<rightharpoonup> trigger_row"
  trigger_categories :: "string \<rightharpoonup> trigger_category_row"
  macros :: "int \<rightharpoonup> macro_row"
  files :: "string \<rightharpoonup> string"
  dirs :: "string set"
  http_log :: "request list"
  slept :: "rat list"

text \<open>
  A call returns a value, raises an exception, or (a loop without a bound in the source)
  runs out of the fuel the model gives it. The state is part of the first two.
\<close>

datatype 'a outcome = Returns 'a world | Raises error world | Runaway

fun and_then :: "'a outcome \<Rightarrow> ('a \<Rightarrow> world \<Rightarrow> 'b outcome) \<Rightarrow> 'b outcome" where
  "and_then (Returns a w) f = f a w"
| "and_then (Raises e w) f = Raises e w"
| "and_then Runaway f = Runaway"

definition lift :: "error + 'a \<Rightarrow> world \<Rightarrow> 'a outcome" where
  "lift r w = (case r of Inl e \<Rightarrow> Raises e w | Inr a \<Rightarrow> Returns a w)"

text \<open>A \<^verbatim>\<open>for\<close> loop over a list, without \<^verbatim>\<open>break\<close>.\<close>

fun for_each :: "('a \<Rightarrow> world \<Rightarrow> unit outcome) \<Rightarrow> 'a list \<Rightarrow> world \<Rightarrow> unit outcome" where
  "for_each body [] w = Returns () w"
| "for_each body (x # xs) w = and_then (body x w) (\<lambda>_. for_each body xs)"

text \<open>An element of a page that the code reads with \<^verbatim>\<open>.get\<close> must be a dict.\<close>

definition as_dict :: "json \<Rightarrow> error + pydict" where
  "as_dict x = (case x of JObj d \<Rightarrow> Inr d | _ \<Rightarrow> Inl AttributeError)"

text \<open>\<^verbatim>\<open>time.sleep\<close> refuses a negative length.\<close>

definition py_sleep :: "rat \<Rightarrow> world \<Rightarrow> unit outcome" where
  "py_sleep d w = (if d < 0 then Raises ValueError w else Returns () (w\<lparr>slept := slept w @ [d]\<rparr>))"

subsection \<open>The fetcher\<close>

text \<open>
  \<^verbatim>\<open>float(retry_after) if retry_after else backoff\<close>: an absent or empty header
  gives the backoff; a header \<^verbatim>\<open>float\<close> cannot read raises \<^verbatim>\<open>ValueError\<close>.
\<close>

definition sleep_for :: "config \<Rightarrow> http_response \<Rightarrow> rat \<Rightarrow> error + rat" where
  "sleep_for E resp backoff =
     (case retry_after resp of
        None \<Rightarrow> Inr backoff
      | Some h \<Rightarrow>
          if h = [] then Inr backoff
          else (case float_of E h of None \<Rightarrow> Inl ValueError | Some d \<Rightarrow> Inr d))"

text \<open>
  \<^verbatim>\<open>detail\<close>: the JSON body when the body is JSON, else the first 300 characters of
  the text under the key \<^verbatim>\<open>text\<close>.
\<close>

definition error_detail :: "http_response \<Rightarrow> json" where
  "error_detail resp =
     (case json_body resp of
        Some j \<Rightarrow> j
      | None \<Rightarrow> JObj [(''text'', JStr (take 300 (body_text resp)))])"

text \<open>
  The loop \<^verbatim>\<open>for _ in range(8)\<close> of \<^verbatim>\<open>get_with_retry\<close>, on the number of
  attempts left; the \<^verbatim>\<open>raise\<close> after the loop is the case of no attempt left.
\<close>

fun attempts :: "config \<Rightarrow> request \<Rightarrow> nat \<Rightarrow> rat \<Rightarrow> world \<Rightarrow> fetched outcome" where
  "attempts E rq 0 backoff w = Raises (GetExhausted (fst rq)) w"
| "attempts E rq (Suc n) backoff w =
     (let w1 = w\<lparr>http_log := http_log w @ [rq]\<rparr> in
      case server E (length (http_log w)) rq of
        NetError \<Rightarrow> Raises ConnectionError w1
      | Reply resp \<Rightarrow>
          if status_code resp = 200 then
            (if snd (snd rq) then Returns (Resp resp) w1
             else case json_body resp of
                    None \<Rightarrow> Raises JSONDecodeError w1
                  | Some j \<Rightarrow> Returns (Body j) w1)
          else if status_code resp \<in> RETRY_STATUS then
            and_then (lift (sleep_for E resp backoff) w1) (\<lambda>d w2.
            and_then (py_sleep d w2) (\<lambda>_ w3.
              attempts E rq n (min (backoff * 2) 30) w3))
          else Raises (GetFailed (fst rq) (status_code resp) (error_detail resp)) w1)"

text \<open>The URL is a value of a page; \<^verbatim>\<open>SESSION.get\<close> refuses one that is not a string.\<close>

definition get_with_retry :: "config \<Rightarrow> json \<Rightarrow> pydict \<Rightarrow> bool \<Rightarrow> world \<Rightarrow> fetched outcome" where
  "get_with_retry E url params stream w =
     (case url of
        JStr u \<Rightarrow> attempts E (u, params, stream) 8 1 w
      | _ \<Rightarrow> Raises InvalidURL w)"

text \<open>
  A page fetch: \<^verbatim>\<open>get_with_retry\<close> without \<^verbatim>\<open>stream\<close>, whose result the caller
  reads with \<^verbatim>\<open>.get\<close> at once; a JSON body that is not an object raises
  \<^verbatim>\<open>AttributeError\<close> there, before any other effect.
\<close>

definition get_page :: "config \<Rightarrow> json \<Rightarrow> pydict \<Rightarrow> world \<Rightarrow> pydict outcome" where
  "get_page E url params w =
     and_then (get_with_retry E url params False w) (\<lambda>f w1.
       case f of Body (JObj d) \<Rightarrow> Returns d w1 | _ \<Rightarrow> Raises AttributeError w1)"

subsection \<open>The persistence layer\<close>

text \<open>
  The model of the store. A \<^verbatim>\<open>BIGINT\<close> primary key takes a Python integer in the
  range of the column (a boolean is the integer \<open>0\<close> or \<open>1\<close>); the model refuses
  every other value, \<^verbatim>\<open>NULL\<close> included. Ids are JSON integers, as the remote API
  sends them: an id that is text, which a MySQL server would convert where the text is
  numeric, is outside the model, and no property below is about such an id. A
  \<^verbatim>\<open>VARCHAR(n) NOT NULL\<close> cell takes a string of at most \<open>n\<close> characters and an
  integer as its decimal text.
\<close>

definition in_bigint :: "int \<Rightarrow> bool" where
  "in_bigint n = (- (2 ^ 63) \<le> n \<and> n < 2 ^ 63)"

definition sql_bigint :: "json \<Rightarrow> int option" where
  "sql_bigint x =
     (case x of
        JInt n \<Rightarrow> if in_bigint n then Some n else None
      | JBool b \<Rightarrow> Some (if b then 1 else 0)
      | _ \<Rightarrow> None)"

definition sql_varchar :: "config \<Rightarrow> nat \<Rightarrow> json \<Rightarrow> string option" where
  "sql_varchar E n x =
     (case x of
        JStr s \<Rightarrow> if length s \<le> n then Some s else None
      | JInt i \<Rightarrow> if length (str_of E (JInt i)) \<le> n then Some (str_of E (JInt i)) else None
      | JBool b \<Rightarrow> Some (if b then ''1'' else ''0'')
      | _ \<Rightarrow> None)"

text \<open>
  \<^verbatim>\<open>INSERT ... ON DUPLICATE KEY UPDATE\<close>: without a row under the key the new row is
  inserted; with one, the row is kept and the assignments of the \<^verbatim>\<open>UPDATE\<close> clause
  (\<open>upd\<close>) are applied to it.
\<close>

definition insert_on_dup :: "('k \<rightharpoonup> 'r) \<Rightarrow> 'k \<Rightarrow> 'r \<Rightarrow> ('r \<Rightarrow> 'r) \<Rightarrow> ('k \<rightharpoonup> 'r)" where
  "insert_on_dup tbl k new upd =
     (case tbl k of None \<Rightarrow> tbl(k \<mapsto> new) | Some old \<Rightarrow> tbl(k \<mapsto> upd old))"

definition get_cursor_val :: "world \<Rightarrow> string \<Rightarrow> json" where
  "get_cursor_val w resource = (case sync_state w resource of None \<Rightarrow> JNull | Some s \<Rightarrow> JStr s)"

definition set_cursor_val :: "config \<Rightarrow> string \<Rightarrow> json \<Rightarrow> world \<Rightarrow> unit outcome" where
  "set_cursor_val E resource token w =
     (case sql_varchar E 255 token of
        None \<Rightarrow> Raises StoreError w
      | Some s \<Rightarrow>
          Returns () (w\<lparr>sync_state := insert_on_dup (sync_state w) resource s (\<lambda>old. s)\<rparr>))"

definition upsert_raw :: "config \<Rightarrow> string \<Rightarrow> int \<Rightarrow> json \<Rightarrow> pydict \<Rightarrow> world \<Rightarrow> unit outcome" where
  "upsert_raw E resource entity_id updated_at payload w =
     (let new = \<lparr>raw_updated_at = parse_dt E updated_at, payload_json = payload\<rparr> in
      if in_bigint entity_id then
        Returns () (w\<lparr>raw_snapshots :=
          insert_on_dup (raw_snapshots w) (resource, entity_id) new
            (\<lambda>old. old\<lparr>raw_updated_at := raw_updated_at new, payload_json := payload_json new\<rparr>)\<rparr>)
      else Raises StoreError w)"

definition flag :: "json \<Rightarrow> int" where
  "flag x = (if truthy x then 1 else 0)"

text \<open>\<^verbatim>\<open>int(x["id"])\<close>.\<close>

definition int_id :: "config \<Rightarrow> pydict \<Rightarrow> error + int" where
  "int_id E x = (case dindex x ''id'' of Inl e \<Rightarrow> Inl e | Inr v \<Rightarrow> py_int E v)"

text \<open>
  The typed upserts. Each has the row of the \<^verbatim>\<open>VALUES\<close> clause (\<open>_values\<close>), the
  assignments of its \<^verbatim>\<open>ON DUPLICATE KEY UPDATE\<close> clause (\<open>_on_dup\<close>), and the
  function: the statement, then the call of \<^verbatim>\<open>upsert_raw\<close>.
\<close>

definition user_values :: "config \<Rightarrow> pydict \<Rightarrow> user_row" where
  "user_values E x =
     \<lparr>u_name = dget x ''name'',
          u_email = dget x ''email'',
          u_role = dget x ''role'',
          u_role_type = dget x ''role_type'',
          u_active = flag (dget x ''active''),
          u_suspended = flag (dget x ''suspended''),
          u_organization_id = dget x ''organization_id'',
          u_phone = dget x ''phone'',
          u_locale = dget x ''locale'',
          u_time_zone = dget x ''time_zone'',
          u_created_at = parse_dt E (dget x ''created_at''),
          u_updated_at = parse_dt E (dget x ''updated_at''),
          u_last_login_at = parse_dt E (dget x ''last_login_at''),
          u_tags_json = py_or (dget x ''tags'') (JArr []),
          u_user_fields_json = py_or (dget x ''user_fields'') (JObj []),
          u_photo_json = py_or (dget x ''photo'') (JObj [])\<rparr>"

definition user_on_dup :: "user_row \<Rightarrow> user_row \<Rightarrow> user_row" where
  "user_on_dup new old =
     old\<lparr>u_name := u_name new,
         u_email := u_email new,
         u_role := u_role new,
         u_role_type := u_role_type new,
         u_active := u_active new,
         u_suspended := u_suspended new,
         u_organization_id := u_organization_id new,
         u_phone := u_phone new,
         u_locale := u_locale new,
         u_time_zone := u_time_zone new,
         u_created_at := u_created_at new,
         u_updated_at := u_updated_at new,
         u_last_login_at := u_last_login_at new,
         u_tags_json := u_tags_json new,
         u_user_fields_json := u_user_fields_json new,
         u_photo_json := u_photo_json new\<rparr>"

definition upsert_user :: "config \<Rightarrow> pydict \<Rightarrow> world \<Rightarrow> unit outcome" where
  "upsert_user E x w =
     (let new = user_values E x in
      case sql_bigint (dget x ''id'') of
        None \<Rightarrow> Raises StoreError w
      | Some k \<Rightarrow>
          and_then
            (lift (int_id E x)
               (w\<lparr>users := insert_on_dup (users w) k new (user_on_dup new)\<rparr>))
            (\<lambda>entity_id. upsert_raw E ''users'' entity_id (dget x ''updated_at'') x))"

definition org_values :: "config \<Rightarrow> pydict \<Rightarrow> org_row" where
  "org_values E x =
     \<lparr>o_name = dget x ''name'',
          o_external_id = dget x ''external_id'',
          o_group_id = dget x ''group_id'',
          o_details = dget x ''details'',
          o_notes = dget x ''notes'',
          o_shared_tickets = flag (dget x ''shared_tickets''),
          o_shared_comments = flag (dget x ''shared_comments''),
          o_domain_names_json = py_or (dget x ''domain_names'') (JArr []),
          o_tags_json = py_or (dget x ''tags'') (JArr []),
          o_organization_fields_json = py_or (dget x ''organization_fields'') (JObj []),
          o_created_at = parse_dt E (dget x ''created_at''),
          o_updated_at = parse_dt E (dget x ''updated_at'')\<rparr>"

definition org_on_dup :: "org_row \<Rightarrow> org_row \<Rightarrow> org_row" where
  "org_on_dup new old =
     old\<lparr>o_name := o_name new,
         o_external_id := o_external_id new,
         o_group_id := o_group_id new,
         o_details := o_details new,
         o_notes := o_notes new,
         o_shared_tickets := o_shared_tickets new,
         o_shared_comments := o_shared_comments new,
         o_domain_names_json := o_domain_names_json new,
         o_tags_json := o_tags_json new,
         o_organization_fields_json := o_organization_fields_json new,
         o_created_at := o_created_at new,
         o_updated_at := o_updated_at new\<rparr>"

definition upsert_org :: "config \<Rightarrow> pydict \<Rightarrow> world \<Rightarrow> unit outcome" where
  "upsert_org E x w =
     (let new = org_values E x in
      case sql_bigint (dget x ''id'') of
        None \<Rightarrow> Raises StoreError w
      | Some k \<Rightarrow>
          and_then
            (lift (int_id E x)
               (w\<lparr>organizations := insert_on_dup (organizations w) k new (org_on_dup new)\<rparr>))
            (\<lambda>entity_id. upsert_raw E ''organizations'' entity_id (dget x ''updated_at'') x))"

definition ticket_values :: "config \<Rightarrow> pydict \<Rightarrow> ticket_row" where
  "ticket_values E x =
     \<lparr>t_subject = dget x ''subject'',
          t_description = dget x ''description'',
          t_status = dget x ''status'',
          t_priority = dget x ''priority'',
          t_type = dget x ''type'',
          t_requester_id = dget x ''requester_id'',
          t_assignee_id = dget x ''assignee_id'',
          t_organization_id = dget x ''organization_id'',
          t_created_at = parse_dt E (dget x ''created_at''),
          t_updated_at = parse_dt E (dget x ''updated_at''),
          t_due_at = parse_dt E (dget x ''due_at'')\<rparr>"

definition ticket_on_dup :: "ticket_row \<Rightarrow> ticket_row \<Rightarrow> ticket_row" where
  "ticket_on_dup new old =
     old\<lparr>t_subject := t_subject new,
         t_description := t_description new,
         t_status := t_status new,
         t_priority := t_priority new,
         t_type := t_type new,
         t_requester_id := t_requester_id new,
         t_assignee_id := t_assignee_id new,
         t_organization_id := t_organization_id new,
         t_created_at := t_created_at new,
         t_updated_at := t_updated_at new,
         t_due_at := t_due_at new\<rparr>"

definition upsert_ticket :: "config \<Rightarrow> pydict \<Rightarrow> world \<Rightarrow> unit outcome" where
  "upsert_ticket E x w =
     (let new = ticket_values E x in
      case sql_bigint (dget x ''id'') of
        None \<Rightarrow> Raises StoreError w
      | Some k \<Rightarrow>
          and_then
            (lift (int_id E x)
               (w\<lparr>tickets := insert_on_dup (tickets w) k new (ticket_on_dup new)\<rparr>))
            (\<lambda>entity_id. upsert_raw E ''tickets'' entity_id (dget x ''updated_at'') x))"

definition comment_values :: "config \<Rightarrow> int \<Rightarrow> pydict \<Rightarrow> comment_row" where
  "comment_values E ticket_id x =
     \<lparr>c_ticket_id = ticket_id,
          c_author_id = dget x ''author_id'',
          c_public = flag (dget x ''public''),
          c_body = dget x ''body'',
          c_created_at = parse_dt E (dget x ''created_at''),
          c_updated_at = parse_dt E (py_or (dget x ''updated_at'') (dget x ''created_at''))\<rparr>"

definition comment_on_dup :: "comment_row \<Rightarrow> comment_row \<Rightarrow> comment_row" where
  "comment_on_dup new old =
     old\<lparr>c_ticket_id := c_ticket_id new,
         c_author_id := c_author_id new,
         c_public := c_public new,
         c_body := c_body new,
         c_created_at := c_created_at new,
         c_updated_at := c_updated_at new\<rparr>"

definition upsert_comment :: "config \<Rightarrow> int \<Rightarrow> pydict \<Rightarrow> world \<Rightarrow> unit outcome" where
  "upsert_comment E ticket_id x w =
     (let new = comment_values E ticket_id x in
      case sql_bigint (dget x ''id'') of
        None \<Rightarrow> Raises StoreError w
      | Some k \<Rightarrow>
          and_then
            (lift (int_id E x)
               (w\<lparr>ticket_comments := insert_on_dup (ticket_comments w) k new (comment_on_dup new)\<rparr>))
            (\<lambda>entity_id. upsert_raw E ''comments'' entity_id (py_or (dget x ''updated_at'') (dget x ''created_at'')) x))"

definition attachment_values :: "config \<Rightarrow> int \<Rightarrow> int \<Rightarrow> pydict \<Rightarrow> json \<Rightarrow> attachment_row" where
  "attachment_values E ticket_id comment_id x local_path =
     \<lparr>a_ticket_id = ticket_id,
          a_comment_id = comment_id,
          a_file_name = dget x ''file_name'',
          a_content_url = dget x ''content_url'',
          a_local_path = local_path,
          a_content_type = dget x ''content_type'',
          a_size = dget x ''size'',
          a_thumbnails_json = py_or (dget x ''thumbnails'') (JArr []),
          a_created_at = parse_dt E (dget x ''created_at'')\<rparr>"

definition attachment_on_dup :: "attachment_row \<Rightarrow> attachment_row \<Rightarrow> attachment_row" where
  "attachment_on_dup new old =
     old\<lparr>a_ticket_id := a_ticket_id new,
         a_comment_id := a_comment_id new,
         a_file_name := a_file_name new,
         a_content_url := a_content_url new,
         a_local_path := a_local_path new,
         a_content_type := a_content_type new,
         a_size := a_size new,
         a_thumbnails_json := a_thumbnails_json new,
         a_created_at := a_created_at new\<rparr>"

definition upsert_attachment :: "config \<Rightarrow> int \<Rightarrow> int \<Rightarrow> pydict \<Rightarrow> json \<Rightarrow> world \<Rightarrow> unit outcome" where
  "upsert_attachment E ticket_id comment_id x local_path w =
     (let new = attachment_values E ticket_id comment_id x local_path in
      case sql_bigint (dget x ''id'') of
        None \<Rightarrow> Raises StoreError w
      | Some k \<Rightarrow>
          and_then
            (lift (int_id E x)
               (w\<lparr>attachments := insert_on_dup (attachments w) k new (attachment_on_dup new)\<rparr>))
            (\<lambda>entity_id. upsert_raw E ''attachments'' entity_id (dget x ''created_at'') x))"

definition view_values :: "config \<Rightarrow> pydict \<Rightarrow> view_row" where
  "view_values E x =
     \<lparr>v_title = dget x ''title'',
          v_description = dget x ''description'',
          v_active = flag (dget x ''active''),
          v_position = dget x ''position'',
          v_default_view = flag (dget x ''default''),
          v_restriction_json = dget x ''restriction'',
          v_execution_json = dget x ''execution'',
          v_conditions_json = dget x ''conditions'',
          v_created_at = parse_dt E (dget x ''created_at''),
          v_updated_at = parse_dt E (dget x ''updated_at'')\<rparr>"

definition view_on_dup :: "view_row \<Rightarrow> view_row \<Rightarrow> view_row" where
  "view_on_dup new old =
     old\<lparr>v_title := v_title new,
         v_description := v_description new,
         v_active := v_active new,
         v_position := v_position new,
         v_default_view := v_default_view new,
         v_restriction_json := v_restriction_json new,
         v_execution_json := v_execution_json new,
         v_conditions_json := v_conditions_json new,
         v_created_at := v_created_at new,
         v_updated_at := v_updated_at new\<rparr>"

definition upsert_view :: "config \<Rightarrow> pydict \<Rightarrow> world \<Rightarrow> unit outcome" where
  "upsert_view E x w =
     (let new = view_values E x in
      case sql_bigint (dget x ''id'') of
        None \<Rightarrow> Raises StoreError w
      | Some k \<Rightarrow>
          and_then
            (lift (int_id E x)
               (w\<lparr>views := insert_on_dup (views w) k new (view_on_dup new)\<rparr>))
            (\<lambda>entity_id. upsert_raw E ''views'' entity_id (dget x ''updated_at'') x))"

definition trigger_values :: "config \<Rightarrow> pydict \<Rightarrow> trigger_row" where
  "trigger_values E x =
     \<lparr>tr_title = dget x ''title'',
          tr_description = dget x ''description'',
          tr_active = flag (dget x ''active''),
          tr_position = dget x ''position'',
          tr_category_id = dget x ''category_id'',
          tr_raw_title = dget x ''raw_title'',
          tr_default_trigger = flag (dget x ''default''),
          tr_conditions_json = py_or (dget x ''conditions'') (JObj []),
          tr_actions_json = py_or (dget x ''actions'') (JArr []),
          tr_created_at = parse_dt E (dget x ''created_at''),
          tr_updated_at = parse_dt E (dget x ''updated_at'')\<rparr>"

definition trigger_on_dup :: "trigger_row \<Rightarrow> trigger_row \<Rightarrow> trigger_row" where
  "trigger_on_dup new old =
     old\<lparr>tr_title := tr_title new,
         tr_description := tr_description new,
         tr_active := tr_active new,
         tr_position := tr_position new,
         tr_category_id := tr_category_id new,
         tr_raw_title := tr_raw_title new,
         tr_default_trigger := tr_default_trigger new,
         tr_conditions_json := tr_conditions_json new,
         tr_actions_json := tr_actions_json new,
         tr_created_at := tr_created_at new,
         tr_updated_at := tr_updated_at new\<rparr>"

definition upsert_trigger :: "config \<Rightarrow> pydict \<Rightarrow> world \<Rightarrow> unit outcome" where
  "upsert_trigger E x w =
     (let new = trigger_values E x in
      case sql_bigint (dget x ''id'') of
        None \<Rightarrow> Raises StoreError w
      | Some k \<Rightarrow>
          and_then
            (lift (int_id E x)
               (w\<lparr>triggers := insert_on_dup (triggers w) k new (trigger_on_dup new)\<rparr>))
            (\<lambda>entity_id. upsert_raw E ''triggers'' entity_id (dget x ''updated_at'') x))"

definition trigger_category_values :: "config \<Rightarrow> pydict \<Rightarrow> trigger_category_row" where
  "trigger_category_values E x =
     \<lparr>tc_name = dget x ''name'',
          tc_position = dget x ''position'',
          tc_created_at = parse_dt E (dget x ''created_at''),
          tc_updated_at = parse_dt E (dget x ''updated_at'')\<rparr>"

definition trigger_category_on_dup :: "trigger_category_row \<Rightarrow> trigger_category_row \<Rightarrow> trigger_category_row" where
  "trigger_category_on_dup new old =
     old\<lparr>tc_name := tc_name new,
         tc_position := tc_position new,
         tc_created_at := tc_created_at new,
         tc_updated_at := tc_updated_at new\<rparr>"

definition upsert_trigger_category :: "config \<Rightarrow> pydict \<Rightarrow> world \<Rightarrow> unit outcome" where
  "upsert_trigger_category E x w =
     (let new = trigger_category_values E x in
      case (let k = str_of E (dget x ''id'') in if length k \<le> 64 then Some k else None) of
        None \<Rightarrow> Raises StoreError w
      | Some k \<Rightarrow>
          and_then
            (lift (int_id E x)
               (w\<lparr>trigger_categories := insert_on_dup (trigger_categories w) k new (trigger_category_on_dup new)\<rparr>))
            (\<lambda>entity_id. upsert_raw E ''trigger_categories'' entity_id (dget x ''updated_at'') x))"

definition macro_values :: "config \<Rightarrow> pydict \<Rightarrow> macro_row" where
  "macro_values E x =
     \<lparr>m_title = dget x ''title'',
          m_description = dget x ''description'',
          m_active = flag (dget x ''active''),
          m_position = dget x ''position'',
          m_default_macro = flag (dget x ''default''),
          m_restriction_json = dget x ''restriction'',
          m_actions_json = py_or (dget x ''actions'') (JArr []),
          m_created_at = parse_dt E (dget x ''created_at''),
          m_updated_at = parse_dt E (dget x ''updated_at'')\<rparr>"

definition macro_on_dup :: "macro_row \<Rightarrow> macro_row \<Rightarrow> macro_row" where
  "macro_on_dup new old =
     old\<lparr>m_title := m_title new,
         m_description := m_description new,
         m_active := m_active new,
         m_position := m_position new,
         m_default_macro := m_default_macro new,
         m_restriction_json := m_restriction_json new,
         m_actions_json := m_actions_json new,
         m_created_at := m_created_at new,
         m_updated_at := m_updated_at new\<rparr>"

definition upsert_macro :: "config \<Rightarrow> pydict \<Rightarrow> world \<Rightarrow> unit outcome" where
  "upsert_macro E x w =
     (let new = macro_values E x in
      case sql_bigint (dget x ''id'') of
        None \<Rightarrow> Raises StoreError w
      | Some k \<Rightarrow>
          and_then
            (lift (int_id E x)
               (w\<lparr>macros := insert_on_dup (macros w) k new (macro_on_dup new)\<rparr>))
            (\<lambda>entity_id. upsert_raw E ''macros'' entity_id (dget x ''updated_at'') x))"

text \<open>The three \<^verbatim>\<open>DELETE\<close> statements of \<^verbatim>\<open>delete_ticket\<close>.\<close>

definition delete_ticket :: "int \<Rightarrow> world \<Rightarrow> unit outcome" where
  "delete_ticket ticket_id w =
     Returns ()
       (w\<lparr>attachments :=
            (\<lambda>k. case attachments w k of
                    None \<Rightarrow> None
                  | Some r \<Rightarrow> if a_ticket_id r = ticket_id then None else Some r),
          ticket_comments :=
            (\<lambda>k. case ticket_comments w k of
                    None \<Rightarrow> None
                  | Some r \<Rightarrow> if c_ticket_id r = ticket_id then None else Some r),
          tickets := (tickets w)(ticket_id := None)\<rparr>)"

subsection \<open>The attachment materializer\<close>

text \<open>
  Paths are strings; \<open>path_join\<close> is \<^verbatim>\<open>Path(a) / b\<close> for a relative \<open>b\<close>.
  \<^verbatim>\<open>ensure_dir\<close> raises \<^verbatim>\<open>OSError\<close> where the file system refuses the
  directory and records the directory otherwise; the files are untouched by it.
\<close>

definition path_join :: "string \<Rightarrow> string \<Rightarrow> string" where
  "path_join a b = a @ ''/'' @ b"

definition ensure_dir :: "config \<Rightarrow> string \<Rightarrow> world \<Rightarrow> unit outcome" where
  "ensure_dir E p w =
     (if mkdir_fails E p then Raises OSError w else Returns () (w\<lparr>dirs := insert p (dirs w)\<rparr>))"

text \<open>
  The loop over \<^verbatim>\<open>resp.iter_content\<close>: a chunk that is not empty is appended to the
  file; a broken stream raises with the chunks written so far left in the file.
\<close>

fun write_chunks :: "string \<Rightarrow> chunk list \<Rightarrow> world \<Rightarrow> unit outcome" where
  "write_chunks target [] w = Returns () w"
| "write_chunks target (Chunk b # cs) w =
     write_chunks target cs
       (if b \<noteq> [] then
          w\<lparr>files := (files w)(target \<mapsto> (case files w target of None \<Rightarrow> b | Some old \<Rightarrow> old @ b))\<rparr>
        else w)"
| "write_chunks target (Broken # cs) w = Raises ConnectionError w"

text \<open>
  The body of the \<^verbatim>\<open>try\<close>: the streamed fetch, \<^verbatim>\<open>open(target, "wb")\<close> (it
  raises where the file system refuses the file; otherwise the file exists and is empty
  from then on) and the writes.
\<close>

definition transfer :: "config \<Rightarrow> json \<Rightarrow> string \<Rightarrow> world \<Rightarrow> unit outcome" where
  "transfer E url target w =
     and_then (get_with_retry E url [] True w) (\<lambda>f w1.
       case f of
         Resp resp \<Rightarrow>
           if open_fails E target then Raises OSError w1
           else write_chunks target (content resp) (w1\<lparr>files := (files w1)(target \<mapsto> [])\<rparr>)
       | Body j \<Rightarrow> Raises AttributeError w1)"

text \<open>The target path of an attachment of a ticket, or the \<^verbatim>\<open>TypeError\<close> of \<^verbatim>\<open>safe_filename\<close>.\<close>

definition target_path :: "config \<Rightarrow> int \<Rightarrow> pydict \<Rightarrow> error + string" where
  "target_path E ticket_id att =
     (let base_dir = path_join (attachments_dir E) (str_of E (JInt ticket_id));
          rid = str_of E (dget att ''id'')
      in case safe_filename (py_or (dget att ''file_name'') (JStr (''attachment_'' @ rid))) of
           Inl e \<Rightarrow> Inl e
         | Inr fname \<Rightarrow> Inr (path_join base_dir (rid @ ''__'' @ fname)))"

text \<open>
  \<^verbatim>\<open>download_attachment\<close>. Before the \<^verbatim>\<open>try\<close> stand the creation of the
  ticket's directory, the computation of the target path and the test
  \<^verbatim>\<open>target.exists() and target.stat().st_size > 0\<close>: what they raise leaves the
  function. What the body of the \<^verbatim>\<open>try\<close> raises becomes the value \<^verbatim>\<open>None\<close>.
\<close>

definition download_attachment :: "config \<Rightarrow> int \<Rightarrow> int \<Rightarrow> pydict \<Rightarrow> world \<Rightarrow> json outcome" where
  "download_attachment E ticket_id comment_id att w =
     (if \<not> download_attachments E then Returns JNull w
      else
        let url = dget att ''content_url'' in
        if \<not> truthy url then Returns JNull w
        else
          and_then (ensure_dir E (path_join (attachments_dir E) (str_of E (JInt ticket_id))) w) (\<lambda>u w1.
          and_then (lift (target_path E ticket_id att) w1) (\<lambda>target w2.
            if stat_fails E target then Raises OSError w2
            else if (case files w2 target of None \<Rightarrow> False | Some b \<Rightarrow> b \<noteq> []) then
              Returns (JStr (resolve E target)) w2
            else
              (case transfer E url target w2 of
                 Returns u w3 \<Rightarrow> Returns (JStr (resolve E target)) w3
               | Raises e w3 \<Rightarrow> Returns JNull w3
               | Runaway \<Rightarrow> Runaway))))"

subsection \<open>The sync coordinators\<close>

text \<open>
  Every loop over pages takes fuel, one unit a page, since the server decides when the
  pages end. The body of each loop is a definition of its own, named after the function
  it is the body of.
\<close>

definition on_dict :: "(pydict \<Rightarrow> world \<Rightarrow> 'a outcome) \<Rightarrow> json \<Rightarrow> world \<Rightarrow> 'a outcome" where
  "on_dict f x w = (case x of JObj d \<Rightarrow> f d w | _ \<Rightarrow> Raises AttributeError w)"

text \<open>
  The generators \<^verbatim>\<open>iter_cursor_page\<close> and \<^verbatim>\<open>iter_list_pages\<close>, from one
  \<^verbatim>\<open>yield\<close> to the next: \<open>None\<close> when the generator ends, the next page otherwise.
\<close>

definition iter_cursor_page_next :: "config \<Rightarrow> pydict \<Rightarrow> world \<Rightarrow> pydict option outcome" where
  "iter_cursor_page_next E page w =
     and_then
       (lift (if truthy (dget page ''after_url'') then Inr (dget page ''after_url'')
              else links_next page) w)
       (\<lambda>after_url w1.
          if \<not> truthy after_url then Returns None w1
          else and_then (get_page E after_url [] w1) (\<lambda>p. Returns (Some p)))"

definition iter_list_pages_next :: "config \<Rightarrow> pydict \<Rightarrow> world \<Rightarrow> pydict option outcome" where
  "iter_list_pages_next E page w =
     and_then
       (lift (if truthy (dget page ''next_page'') then Inr (dget page ''next_page'')
              else links_next page) w)
       (\<lambda>next_url w1.
          if \<not> truthy next_url then Returns None w1
          else and_then (get_page E next_url [] w1) (\<lambda>p. Returns (Some p)))"

text \<open>\<^verbatim>\<open>sync_users\<close>: the body of the loop over pages up to the checkpoint, the loop, the function.\<close>

definition sync_users_page :: "config \<Rightarrow> pydict \<Rightarrow> world \<Rightarrow> unit outcome" where
  "sync_users_page E page w =
     and_then (lift (py_iter (dget_default page ''users'' (JArr []))) w) (\<lambda>us w1.
     and_then (for_each (on_dict (upsert_user E)) us w1) (\<lambda>u w2.
       let ac = dget page ''after_cursor'' in
       if truthy ac then set_cursor_val E ''users'' ac w2 else Returns () w2))"

fun sync_users_pages :: "config \<Rightarrow> nat \<Rightarrow> pydict \<Rightarrow> world \<Rightarrow> unit outcome" where
  "sync_users_pages E 0 page w = Runaway"
| "sync_users_pages E (Suc n) page w =
     and_then (sync_users_page E page w) (\<lambda>u w1.
       if truthy (dget page ''end_of_stream'') then Returns () w1
       else
         and_then (iter_cursor_page_next E page w1) (\<lambda>nxt w2.
           case nxt of None \<Rightarrow> Returns () w2 | Some p \<Rightarrow> sync_users_pages E n p w2))"

definition sync_users :: "config \<Rightarrow> nat \<Rightarrow> world \<Rightarrow> unit outcome" where
  "sync_users E fuel w =
     (let url = JStr (z_base E @ ''/api/v2/incremental/users/cursor.json'');
          last = get_cursor_val w ''users'';
          params = [(''per_page'', JInt (per_page E))] @
                   (if truthy last then [(''cursor'', last)]
                    else [(''start_time'', JInt (initial_start_time_epoch E))])
      in and_then (get_page E url params w) (\<lambda>first. sync_users_pages E fuel first))"

text \<open>\<^verbatim>\<open>sync_organizations\<close>.\<close>

definition sync_organizations_page :: "config \<Rightarrow> pydict \<Rightarrow> world \<Rightarrow> unit outcome" where
  "sync_organizations_page E page w =
     and_then (lift (py_iter (dget_default page ''organizations'' (JArr []))) w) (\<lambda>os w1.
     and_then (for_each (on_dict (upsert_org E)) os w1) (\<lambda>u w2.
       let end_time = dget page ''end_time'' in
       if truthy end_time then set_cursor_val E ''organizations'' (JStr (str_of E end_time)) w2
       else Returns () w2))"

fun sync_organizations_loop :: "config \<Rightarrow> nat \<Rightarrow> json \<Rightarrow> pydict \<Rightarrow> world \<Rightarrow> unit outcome" where
  "sync_organizations_loop E 0 url params w = Runaway"
| "sync_organizations_loop E (Suc n) url params w =
     and_then (get_page E url params w) (\<lambda>page w1.
     and_then (sync_organizations_page E page w1) (\<lambda>u w2.
       let next_page = dget page ''next_page'' in
       if \<not> truthy next_page then Returns () w2
       else
         and_then (py_sleep (org_page_delay_secs E) w2) (\<lambda>u w3.
           sync_organizations_loop E n next_page [] w3)))"

definition sync_organizations :: "config \<Rightarrow> nat \<Rightarrow> world \<Rightarrow> unit outcome" where
  "sync_organizations E fuel w =
     (if skip_organizations E then Returns () w
      else
        let url = JStr (z_base E @ ''/api/v2/incremental/organizations.json'');
            last_epoch = get_cursor_val w ''organizations''
        in and_then
             (lift (if truthy last_epoch then py_int E last_epoch
                    else Inr (initial_start_time_epoch E)) w)
             (\<lambda>start_time.
                sync_organizations_loop E fuel url
                  [(''per_page'', JInt (org_per_page E)), (''start_time'', JInt start_time)]))"

text \<open>
  \<^verbatim>\<open>sync_tickets_comments_attachments\<close>. \<^verbatim>\<open>(t.get("status") or "").lower()\<close>
  lowers the ASCII letters of a string and raises \<^verbatim>\<open>AttributeError\<close> on a truthy
  value that is not a string.
\<close>

definition lower_char :: "char \<Rightarrow> char" where
  "lower_char c =
     (let n = (of_char c :: nat) in if 65 \<le> n \<and> n \<le> 90 then char_of (n + 32) else c)"

definition ticket_status :: "pydict \<Rightarrow> error + string" where
  "ticket_status t =
     (case py_or (dget t ''status'') (JStr []) of
        JStr s \<Rightarrow> Inr (map lower_char s)
      | _ \<Rightarrow> Inl AttributeError)"

definition ticket_initial_params :: "config \<Rightarrow> json \<Rightarrow> pydict" where
  "ticket_initial_params E last_cursor =
     [(''per_page'', JInt (per_page E))] @
     (if include_fields E \<noteq> [] then [(''include'', JStr (include_fields E))] else []) @
     (if exclude_deleted E then [(''exclude_deleted'', JStr ''true'')] else []) @
     (if truthy last_cursor then [(''cursor'', last_cursor)]
      else [(''start_time'', JInt (initial_start_time_epoch E))])"

text \<open>The body of \<^verbatim>\<open>for a in (c.get("attachments") or [])\<close>, for the ticket \<open>t\<close> and the comment \<open>c\<close>.\<close>

definition sync_attachment :: "config \<Rightarrow> pydict \<Rightarrow> pydict \<Rightarrow> json \<Rightarrow> world \<Rightarrow> unit outcome" where
  "sync_attachment E t c a w =
     and_then (lift (int_id E t) w) (\<lambda>ticket_id w1.
     and_then (lift (py_int E (py_or (dget c ''id'') (JInt 0))) w1) (\<lambda>comment_id w2.
     and_then (on_dict (download_attachment E ticket_id comment_id) a w2) (\<lambda>local_path w3.
       on_dict (\<lambda>ad. upsert_attachment E ticket_id comment_id ad local_path) a w3)))"

text \<open>The body of \<^verbatim>\<open>for c in cpage.get("comments", [])\<close>.\<close>

definition sync_comment :: "config \<Rightarrow> pydict \<Rightarrow> json \<Rightarrow> world \<Rightarrow> unit outcome" where
  "sync_comment E t c w =
     and_then (lift (int_id E t) w) (\<lambda>ticket_id w1.
     and_then (on_dict (upsert_comment E ticket_id) c w1) (\<lambda>u w2.
     and_then (lift (as_dict c) w2) (\<lambda>cd w3.
     and_then (lift (py_iter (py_or (dget cd ''attachments'') (JArr []))) w3) (\<lambda>atts w4.
       for_each (sync_attachment E t cd) atts w4))))"

text \<open>The loop over \<^verbatim>\<open>iter_list_pages(comments_url, ...)\<close>.\<close>

fun sync_comment_pages :: "config \<Rightarrow> nat \<Rightarrow> pydict \<Rightarrow> pydict \<Rightarrow> world \<Rightarrow> unit outcome" where
  "sync_comment_pages E 0 t cpage w = Runaway"
| "sync_comment_pages E (Suc n) t cpage w =
     and_then (lift (py_iter (dget_default cpage ''comments'' (JArr []))) w) (\<lambda>cs w1.
     and_then (for_each (sync_comment E t) cs w1) (\<lambda>u w2.
     and_then (iter_list_pages_next E cpage w2) (\<lambda>nxt w3.
       case nxt of None \<Rightarrow> Returns () w3 | Some p \<Rightarrow> sync_comment_pages E n t p w3)))"

text \<open>
  The body of \<^verbatim>\<open>for t in page.get("tickets", [])\<close>; \<open>fuel\<close> is the fuel of the
  loop over the ticket's comment pages.
\<close>

definition sync_ticket :: "config \<Rightarrow> nat \<Rightarrow> pydict \<Rightarrow> world \<Rightarrow> unit outcome" where
  "sync_ticket E fuel t w =
     and_then (lift (ticket_status t) w) (\<lambda>status w1.
       if closed_tickets_only E \<and> status \<noteq> ''closed'' then
         (if prune_reopened_from_db E then
            and_then (lift (int_id E t) w1) (\<lambda>ticket_id. delete_ticket ticket_id)
          else Returns () w1)
       else
         and_then (upsert_ticket E t w1) (\<lambda>u w2.
           if \<not> use_ticket_events_for_comments E then
             and_then (lift (dindex t ''id'') w2) (\<lambda>i w3.
             and_then
               (get_page E (JStr (z_base E @ ''/api/v2/tickets/'' @ str_of E i @ ''/comments.json''))
                  [(''per_page'', JInt 100)] w3)
               (\<lambda>cpage. sync_comment_pages E fuel t cpage))
           else Returns () w2))"

definition sync_tickets_page :: "config \<Rightarrow> nat \<Rightarrow> pydict \<Rightarrow> world \<Rightarrow> unit outcome" where
  "sync_tickets_page E fuel page w =
     and_then (lift (py_iter (dget_default page ''tickets'' (JArr []))) w) (\<lambda>ts w1.
     and_then (for_each (on_dict (sync_ticket E fuel)) ts w1) (\<lambda>u w2.
       let ac = dget page ''after_cursor'' in
       if truthy ac then set_cursor_val E ''tickets'' ac w2 else Returns () w2))"

fun sync_tickets_pages :: "config \<Rightarrow> nat \<Rightarrow> nat \<Rightarrow> pydict \<Rightarrow> world \<Rightarrow> unit outcome" where
  "sync_tickets_pages E fuel 0 page w = Runaway"
| "sync_tickets_pages E fuel (Suc n) page w =
     and_then (sync_tickets_page E fuel page w) (\<lambda>u w1.
       if truthy (dget page ''end_of_stream'') then Returns () w1
       else
         and_then (iter_cursor_page_next E page w1) (\<lambda>nxt w2.
           case nxt of None \<Rightarrow> Returns () w2 | Some p \<Rightarrow> sync_tickets_pages E fuel n p w2))"

definition sync_tickets_comments_attachments :: "config \<Rightarrow> nat \<Rightarrow> world \<Rightarrow> unit outcome" where
  "sync_tickets_comments_attachments E fuel w =
     (let url = JStr (z_base E @ ''/api/v2/incremental/tickets/cursor.json'');
          last = get_cursor_val w ''tickets''
      in and_then (get_page E url (ticket_initial_params E last) w)
           (\<lambda>first. sync_tickets_pages E fuel fuel first))"

text \<open>
  \<^verbatim>\<open>sync_ticket_events_for_comments\<close>: the body of the loop over the child events of
  an event, the body of the loop over the events, that loop for a page, the loop over the
  pages, the function.
\<close>

definition sync_child_event :: "config \<Rightarrow> int \<Rightarrow> pydict \<Rightarrow> world \<Rightarrow> unit outcome" where
  "sync_child_event E tid ce w =
     (if py_or (dget ce ''event_type'') (dget ce ''type'') = JStr ''Comment'' then
        and_then (lift (dindex ce ''id'') w) (\<lambda>i w1.
          let c = [(''id'', i),
                   (''author_id'', dget ce ''author_id''),
                   (''public'', dget_default ce ''public'' (JBool False)),
                   (''body'', dget ce ''body''),
                   (''created_at'', dget ce ''created_at''),
                   (''updated_at'', dget ce ''created_at''),
                   (''attachments'', py_or (dget ce ''attachments'') (JArr []))]
          in
          and_then (upsert_comment E tid c w1) (\<lambda>u w2.
          and_then (lift (py_iter (py_or (dget ce ''attachments'') (JArr []))) w2) (\<lambda>atts w3.
            for_each
              (\<lambda>a w4.
                 and_then (lift (int_id E ce) w4) (\<lambda>comment_id w5.
                 and_then (on_dict (download_attachment E tid comment_id) a w5) (\<lambda>local_path w6.
                   on_dict (\<lambda>ad. upsert_attachment E tid comment_id ad local_path) a w6)))
              atts w3)))
      else Returns () w)"

definition sync_event :: "config \<Rightarrow> pydict \<Rightarrow> world \<Rightarrow> unit outcome" where
  "sync_event E ev w =
     and_then (lift (py_int E (dget ev ''ticket_id'')) w) (\<lambda>tid w1.
     and_then
       (if closed_tickets_only E then
          and_then
            (get_page E (JStr (z_base E @ ''/api/v2/tickets/'' @ str_of E (JInt tid) @ ''.json'')) [] w1)
            (\<lambda>body w2.
               and_then (lift (as_dict (dget_default body ''ticket'' (JObj []))) w2) (\<lambda>t w3.
               and_then (lift (ticket_status t) w3) (\<lambda>status w4.
                 Returns (status = ''closed'') w4)))
        else Returns True w1)
       (\<lambda>go w5.
          if \<not> go then Returns () w5
          else
            and_then (lift (py_iter (py_or (dget ev ''child_events'') (JArr []))) w5) (\<lambda>ces w6.
              for_each (on_dict (sync_child_event E tid)) ces w6)))"

definition sync_ticket_events_page :: "config \<Rightarrow> pydict \<Rightarrow> world \<Rightarrow> unit outcome" where
  "sync_ticket_events_page E page w =
     and_then (lift (py_iter (dget_default page ''ticket_events'' (JArr []))) w) (\<lambda>evs w1.
       for_each (on_dict (sync_event E)) evs w1)"

fun sync_ticket_events_loop :: "config \<Rightarrow> nat \<Rightarrow> json \<Rightarrow> pydict \<Rightarrow> world \<Rightarrow> unit outcome" where
  "sync_ticket_events_loop E 0 url params w = Runaway"
| "sync_ticket_events_loop E (Suc n) url params w =
     and_then (get_page E url params w) (\<lambda>page w1.
     and_then (sync_ticket_events_page E page w1) (\<lambda>u w3.
       let next_page = dget page ''next_page'' in
       if truthy next_page then sync_ticket_events_loop E n next_page [] w3
       else
         let end_time = dget page ''end_time'' in
         if truthy end_time then set_cursor_val E ''ticket_events'' (JStr (str_of E end_time)) w3
         else Returns () w3))"

definition sync_ticket_events_for_comments :: "config \<Rightarrow> nat \<Rightarrow> world \<Rightarrow> unit outcome" where
  "sync_ticket_events_for_comments E fuel w =
     (let url = JStr (z_base E @ ''/api/v2/incremental/ticket_events.json'');
          last_epoch = get_cursor_val w ''ticket_events''
      in and_then
           (lift (if truthy last_epoch then py_int E last_epoch
                  else Inr (initial_start_time_epoch E)) w)
           (\<lambda>start_time.
              sync_ticket_events_loop E fuel url
                [(''start_time'', JInt start_time), (''per_page'', JInt (per_page E)),
                 (''include'', JStr ''comment_events'')]))"

text \<open>
  The four snapshot coordinators, \<^verbatim>\<open>sync_views\<close>, \<^verbatim>\<open>sync_triggers\<close>,
  \<^verbatim>\<open>sync_trigger_categories\<close> and \<^verbatim>\<open>sync_macros\<close>: the loop from a page on (its
  step to the next page is the code of \<^verbatim>\<open>iter_list_pages\<close>, written out in each of
  them), and the function with the first fetch.
\<close>

fun sync_views_pages :: "config \<Rightarrow> nat \<Rightarrow> pydict \<Rightarrow> world \<Rightarrow> unit outcome" where
  "sync_views_pages E 0 page w = Runaway"
| "sync_views_pages E (Suc n) page w =
     and_then (lift (py_iter (dget_default page ''views'' (JArr []))) w) (\<lambda>xs w1.
     and_then (for_each (on_dict (upsert_view E)) xs w1) (\<lambda>u w2.
     and_then (iter_list_pages_next E page w2) (\<lambda>nxt w3.
       case nxt of None \<Rightarrow> Returns () w3 | Some p \<Rightarrow> sync_views_pages E n p w3)))"

definition sync_views :: "config \<Rightarrow> nat \<Rightarrow> world \<Rightarrow> unit outcome" where
  "sync_views E fuel w =
     (let url = JStr (z_base E @ ''/api/v2/views.json'');
          params = [(''per_page'', JInt (min (per_page E) 100))] @
                   (if include_fields E \<noteq> [] then [(''include'', JStr (include_fields E))] else [])
      in and_then (get_page E url params w) (\<lambda>page. sync_views_pages E fuel page))"

fun sync_triggers_pages :: "config \<Rightarrow> nat \<Rightarrow> pydict \<Rightarrow> world \<Rightarrow> unit outcome" where
  "sync_triggers_pages E 0 page w = Runaway"
| "sync_triggers_pages E (Suc n) page w =
     and_then (lift (py_iter (dget_default page ''triggers'' (JArr []))) w) (\<lambda>xs w1.
     and_then (for_each (on_dict (upsert_trigger E)) xs w1) (\<lambda>u w2.
     and_then (iter_list_pages_next E page w2) (\<lambda>nxt w3.
       case nxt of None \<Rightarrow> Returns () w3 | Some p \<Rightarrow> sync_triggers_pages E n p w3)))"

definition sync_triggers :: "config \<Rightarrow> nat \<Rightarrow> world \<Rightarrow> unit outcome" where
  "sync_triggers E fuel w =
     (let url = JStr (z_base E @ ''/api/v2/triggers.json'');
          params = [(''per_page'', JInt (min (per_page E) 100))]
      in and_then (get_page E url params w) (\<lambda>page. sync_triggers_pages E fuel page))"

fun sync_trigger_categories_pages :: "config \<Rightarrow> nat \<Rightarrow> pydict \<Rightarrow> world \<Rightarrow> unit outcome" where
  "sync_trigger_categories_pages E 0 page w = Runaway"
| "sync_trigger_categories_pages E (Suc n) page w =
     and_then (lift (py_iter (dget_default page ''trigger_categories'' (JArr []))) w) (\<lambda>xs w1.
     and_then (for_each (on_dict (upsert_trigger_category E)) xs w1) (\<lambda>u w2.
     and_then (iter_list_pages_next E page w2) (\<lambda>nxt w3.
       case nxt of None \<Rightarrow> Returns () w3 | Some p \<Rightarrow> sync_trigger_categories_pages E n p w3)))"

definition sync_trigger_categories :: "config \<Rightarrow> nat \<Rightarrow> world \<Rightarrow> unit outcome" where
  "sync_trigger_categories E fuel w =
     (let url = JStr (z_base E @ ''/api/v2/trigger_categories.json'');
          params = [(''per_page'', JInt (min (per_page E) 100))]
      in and_then (get_page E url params w) (\<lambda>page. sync_trigger_categories_pages E fuel page))"

fun sync_macros_pages :: "config \<Rightarrow> nat \<Rightarrow> pydict \<Rightarrow> world \<Rightarrow> unit outcome" where
  "sync_macros_pages E 0 page w = Runaway"
| "sync_macros_pages E (Suc n) page w =
     and_then (lift (py_iter (dget_default page ''macros'' (JArr []))) w) (\<lambda>xs w1.
     and_then (for_each (on_dict (upsert_macro E)) xs w1) (\<lambda>u w2.
     and_then (iter_list_pages_next E page w2) (\<lambda>nxt w3.
       case nxt of None \<Rightarrow> Returns () w3 | Some p \<Rightarrow> sync_macros_pages E n p w3)))"

definition sync_macros :: "config \<Rightarrow> nat \<Rightarrow> world \<Rightarrow> unit outcome" where
  "sync_macros E fuel w =
     (let url = JStr (z_base E @ ''/api/v2/macros.json'');
          params = [(''per_page'', JInt (min (per_page E) 100))] @
                   (if include_fields E \<noteq> [] then [(''include'', JStr (include_fields E))] else [])
      in and_then (get_page E url params w) (\<lambda>page. sync_macros_pages E fuel page))"



subsection \<open>Notions the properties are stated with\<close>

text \<open>The state an outcome ends in and the exception it raises, if any.\<close>

definition world_of :: "'a outcome \<Rightarrow> world option" where
  "world_of out = (case out of Returns a w \<Rightarrow> Some w | Raises e w \<Rightarrow> Some w | Runaway \<Rightarrow> None)"

definition raised :: "'a outcome \<Rightarrow> error option" where
  "raised out = (case out of Raises e w \<Rightarrow> Some e | _ \<Rightarrow> None)"

text \<open>
  The backoff before attempt \<open>i + 1\<close>: it starts at \<open>1\<close> and doubles up to \<open>30\<close>.
\<close>

definition backoff_at :: "nat \<Rightarrow> rat" where
  "backoff_at i = min (2 ^ i) 30"

text \<open>
  \<open>retryable E rq w d i\<close>: the \<open>i\<close>-th call of a fetch that starts in \<open>w\<close> gets a
  retryable status, and \<open>d i\<close> is the sleep it asks for: the \<^verbatim>\<open>Retry-After\<close> header
  read as a number when the header is there and not empty, the backoff otherwise.
\<close>

definition retryable :: "config \<Rightarrow> request \<Rightarrow> world \<Rightarrow> (nat \<Rightarrow> rat) \<Rightarrow> nat \<Rightarrow> bool" where
  "retryable E rq w d i =
     (case server E (length (http_log w) + i) rq of
        NetError \<Rightarrow> False
      | Reply resp \<Rightarrow>
          status_code resp \<in> RETRY_STATUS \<and> 0 \<le> d i \<and>
          (case retry_after resp of
             None \<Rightarrow> d i = min (2 ^ i) 30
           | Some h \<Rightarrow> if h = [] then d i = min (2 ^ i) 30 else float_of E h = Some (d i)))"




text \<open>
  \<open>keeps R w out\<close>: the state \<open>out\<close> ends in, by a return or by an exception, is related
  by \<open>R\<close> to the state \<open>w\<close> it started from. \<open>same_store\<close>: only the log of HTTP calls
  and the sleeps differ. \<open>only_files\<close>: the files may
  differ too. \<open>same_db\<close>: the tables of the store are the same. \<open>log_extends\<close>:
  the HTTP calls of the second state are those of the first and then more.
  \<open>only_io\<close>: both, which is what a call that only fetches or writes files does.
\<close>

definition keeps :: "(world \<Rightarrow> world \<Rightarrow> bool) \<Rightarrow> world \<Rightarrow> 'a outcome \<Rightarrow> bool" where
  "keeps R w out = (case out of Returns a w' \<Rightarrow> R w w' | Raises e w' \<Rightarrow> R w w' | Runaway \<Rightarrow> True)"

definition same_store :: "world \<Rightarrow> world \<Rightarrow> bool" where
  "same_store w w' = (w'\<lparr>http_log := http_log w, slept := slept w\<rparr> = w)"

definition same_db :: "world \<Rightarrow> world \<Rightarrow> bool" where
  "same_db w w' =
     (w'\<lparr>files := files w, dirs := dirs w, http_log := http_log w, slept := slept w\<rparr> = w)"

definition only_files :: "world \<Rightarrow> world \<Rightarrow> bool" where
  "only_files w w' = (w'\<lparr>files := files w, http_log := http_log w, slept := slept w\<rparr> = w)"

definition log_extends :: "world \<Rightarrow> world \<Rightarrow> bool" where
  "log_extends w w' = prefix (http_log w) (http_log w')"

definition only_io :: "world \<Rightarrow> world \<Rightarrow> bool" where
  "only_io w w' = (same_db w w' \<and> log_extends w w')"

text \<open>
  \<open>has_key x\<close>: the element of a page is a dict whose id the store takes as a key.
  \<open>absent tid w\<close>: the store has no ticket row of the ticket and no comment or attachment
  row that refers to it. \<open>closed_as tid x\<close>: the element of a page is a ticket with the
  status closed (in any case of the letters) whose id is the key \<open>tid\<close>. \<open>grows w w'\<close>:
  every key that has a row in a table of \<open>w\<close> has one in \<open>w'\<close>.
\<close>

definition has_key :: "json \<Rightarrow> bool" where
  "has_key x = (case x of JObj d \<Rightarrow> sql_bigint (dget d ''id'') \<noteq> None | _ \<Rightarrow> False)"










definition same_checkpoints :: "world \<Rightarrow> world \<Rightarrow> bool" where
  "same_checkpoints w w' = (sync_state w' = sync_state w)"


subsection \<open>Concrete environments for the examples\<close>

text \<open>
  The configuration defaults of the module, with stand-ins for the builtins that read
  decimal integers and print them, and a server that refuses every call; the examples
  replace the server.
\<close>

fun dec_of_nat :: "nat \<Rightarrow> string" where
  "dec_of_nat n =
     (if n < 10 then [''0123456789'' ! n]
      else dec_of_nat (n div 10) @ [''0123456789'' ! (n mod 10)])"

definition example_str :: "json \<Rightarrow> string" where
  "example_str x =
     (case x of
        JStr s \<Rightarrow> s
      | JInt n \<Rightarrow> (if n < 0 then CHR ''-'' # dec_of_nat (nat (- n)) else dec_of_nat (nat n))
      | JNull \<Rightarrow> ''None''
      | JBool b \<Rightarrow> (if b then ''True'' else ''False'')
      | JArr xs \<Rightarrow> ''[...]''
      | JObj kvs \<Rightarrow> ''{...}'')"

fun nat_of_dec :: "nat \<Rightarrow> string \<Rightarrow> nat option" where
  "nat_of_dec acc [] = Some acc"
| "nat_of_dec acc (c # cs) =
     (let n = (of_char c :: nat) in
      if 48 \<le> n \<and> n \<le> 57 then nat_of_dec (10 * acc + (n - 48)) cs else None)"

definition example_int :: "string \<Rightarrow> int option" where
  "example_int s = (if s = [] then None else map_option int (nat_of_dec 0 s))"

definition example_float :: "string \<Rightarrow> rat option" where
  "example_float s = map_option of_int (example_int s)"

definition example_config :: config where
  "example_config =
     \<lparr>z_base = ''https://example.zendesk.com'', per_page = 500, include_fields = [],
      exclude_deleted = False, bootstrap_hours = 24, closed_tickets_only = False,
      use_ticket_events_for_comments = False, prune_reopened_from_db = False,
      download_attachments = True, attachments_dir = ''./attachments'', org_per_page = 100,
      org_page_delay_secs = 3 / 2, skip_organizations = False, now = 1700000000,
      float_of = example_float, int_of = example_int, str_of = example_str,
      fromisoformat = Some, resolve = (\<lambda>p. ''/srv/'' @ p),
      mkdir_fails = (\<lambda>p. False), stat_fails = (\<lambda>p. False), open_fails = (\<lambda>p. False),
      server = (\<lambda>k rq. NetError)\<rparr>"

definition empty_world :: world where
  "empty_world =
     \<lparr>sync_state = Map.empty, raw_snapshots = Map.empty, users = Map.empty,
      organizations = Map.empty, tickets = Map.empty, ticket_comments = Map.empty,
      attachments = Map.empty, views = Map.empty, triggers = Map.empty,
      trigger_categories = Map.empty, macros = Map.empty, files = Map.empty, dirs = {},
      http_log = [], slept = []\<rparr>"

definition response :: "int \<Rightarrow> string option \<Rightarrow> json option \<Rightarrow> string \<Rightarrow> http_response" where
  "response st ra j t = \<lparr>status_code = st, retry_after = ra, json_body = j, body_text = t, content = []\<rparr>"


definition retry_server :: "nat \<Rightarrow> request \<Rightarrow> reply" where
  "retry_server k rq =
     (if k = 0 then Reply (response 429 (Some ''5'') None [])
      else if k = 1 then Reply (response 503 None None [])
      else Reply (response 200 None (Some (JObj [(''users'', JArr [])])) []))"

definition failing_server :: "nat \<Rightarrow> request \<Rightarrow> reply" where
  "failing_server k rq =
     (if fst rq = ''u404'' then
        Reply (response 404 None (Some (JObj [(''description'', JStr (replicate 400 (CHR ''x'')))])) [])
      else if fst rq = ''u200'' then Reply (response 200 None None ''<html>'')
      else Reply (response 429 (Some ''soon'') None []))"


definition file_server :: "nat \<Rightarrow> request \<Rightarrow> reply" where
  "file_server k rq =
     Reply \<lparr>status_code = 200, retry_after = None, json_body = None, body_text = [],
            content = [Chunk ''abc'']\<rparr>"

definition report_attachment :: pydict where
  "report_attachment =
     [(''id'', JInt 7), (''file_name'', JStr ''report:final.pdf''),
      (''content_url'', JStr ''https://example.zendesk.com/attachments/7'')]"

definition json_reply :: "pydict \<Rightarrow> reply" where
  "json_reply page = Reply (response 200 None (Some (JObj page)) [])"

definition odd_attachment :: pydict where
  "odd_attachment =
     [(''id'', JInt 7), (''file_name'', JInt 5),
      (''content_url'', JStr ''https://example.zendesk.com/attachments/7'')]"

definition attachment_server :: "pydict \<Rightarrow> nat \<Rightarrow> request \<Rightarrow> reply" where
  "attachment_server att k rq =
     (if k = 0 then
        json_reply [(''tickets'', JArr [JObj [(''id'', JInt 42), (''status'', JStr ''closed'')]]),
                    (''end_of_stream'', JBool True)]
      else json_reply [(''comments'',
                        JArr [JObj [(''id'', JInt 1), (''attachments'', JArr [JObj att])]])])"









definition users_server :: "nat \<Rightarrow> request \<Rightarrow> reply" where
  "users_server k rq =
     (if k = 0 then
        json_reply [(''users'', JArr [JObj [(''id'', JInt 7), (''name'', JStr ''Ann'')]]),
                    (''after_cursor'', JStr ''C1''), (''end_of_stream'', JBool False),
                    (''after_url'', JStr ''https://example.zendesk.com/api/v2/incremental/users/cursor.json?cursor=C1'')]
      else json_reply [(''users'', JArr []), (''end_of_stream'', JBool True)])"

definition users_server_2 :: "nat \<Rightarrow> request \<Rightarrow> reply" where
  "users_server_2 k rq =
     (if k = 0 then
        json_reply [(''users'', JArr []),
                    (''after_cursor'', JStr ''C1''), (''end_of_stream'', JBool False),
                    (''after_url'', JStr ''https://example.zendesk.com/api/v2/incremental/users/cursor.json?cursor=C1'')]
      else json_reply [(''users'', JArr []), (''after_cursor'', JStr ''C2''),
                       (''end_of_stream'', JBool True)])"


definition events_server :: "nat \<Rightarrow> request \<Rightarrow> reply" where
  "events_server k rq =
     (if k = 0 then
        json_reply [(''ticket_events'', JArr []),
                    (''next_page'', JStr ''https://example.zendesk.com/api/v2/incremental/ticket_events.json?start_time=1700000100''),
                    (''end_time'', JInt 1700000100)]
      else NetError)"

definition cursor_page :: pydict where
  "cursor_page =
     [(''users'', JArr []), (''after_cursor'', JStr ''C1''), (''end_of_stream'', JBool False),
      (''after_url'', JStr ''https://example.zendesk.com/api/v2/incremental/users/cursor.json?cursor=C1'')]"


section \<open>Properties\<close>

text \<open>
  C4. With no prior checkpoint the start time of the first request is
  \<open>initial_start_time_epoch\<close>: the current time minus the configured lookback when
  the lookback is at least 120 seconds, and the current time minus 120 seconds otherwise,
  so that for every configured lookback (zero and negative ones too) it lies at least
  120 seconds in the past; it is the \<^verbatim>\<open>start_time\<close> of the first ticket request
  when there is no checkpoint.
\<close>

theorem bootstrap_floor:
  "initial_start_time_epoch E =
     (if 120 \<le> bootstrap_hours E * 3600 then now E - bootstrap_hours E * 3600
      else now E - 120)
   \<and> initial_start_time_epoch E + 120 \<le> now E
   \<and> dget (ticket_initial_params E JNull) ''start_time'' = JInt (initial_start_time_epoch E)"
  by (simp add: initial_start_time_epoch_def max_def ticket_initial_params_def dget_def)

subsection \<open>The fetcher\<close>

lemma lift_simps [simp]:
  "lift (Inl e) w = Raises e w" "lift (Inr a) w = Returns a w"
  by (simp_all add: lift_def)

lemma backoff_at_Suc: "backoff_at (Suc i) = min (backoff_at i * 2) 30"
  by (auto simp: backoff_at_def min_def)

lemma attempts_retry_step:
  assumes "server E (length (http_log w)) rq = Reply resp" "status_code resp \<in> RETRY_STATUS"
    "sleep_for E resp b = Inr dd" "0 \<le> dd"
  shows "attempts E rq (Suc n) b w =
         attempts E rq n (min (b * 2) 30) (w\<lparr>http_log := http_log w @ [rq], slept := slept w @ [dd]\<rparr>)"
proof -
  have "status_code resp \<noteq> 200" using assms(2) by (auto simp: RETRY_STATUS_def)
  then show ?thesis using assms by (simp add: py_sleep_def Let_def)
qed

lemma retryable_sleep:
  assumes "retryable E rq w d i"
  obtains resp where "server E (length (http_log w) + i) rq = Reply resp"
    "status_code resp \<in> RETRY_STATUS" "sleep_for E resp (backoff_at i) = Inr (d i)" "0 \<le> d i"
proof -
  from assms obtain resp where r: "server E (length (http_log w) + i) rq = Reply resp"
    by (cases "server E (length (http_log w) + i) rq") (auto simp: retryable_def)
  with assms have s: "status_code resp \<in> RETRY_STATUS" "0 \<le> d i"
    and h: "(case retry_after resp of
             None \<Rightarrow> d i = min (2 ^ i) 30
           | Some h \<Rightarrow> if h = [] then d i = min (2 ^ i) 30 else float_of E h = Some (d i))"
    by (simp_all add: retryable_def)
  from h have "sleep_for E resp (backoff_at i) = Inr (d i)"
    by (cases "retry_after resp") (auto simp: sleep_for_def backoff_at_def split: if_splits)
  with r s that show ?thesis by blast
qed

lemma attempts_prefix:
  assumes "\<forall>i<k. retryable E rq w d i" "k \<le> n"
  shows "attempts E rq n 1 w =
         attempts E rq (n - k) (backoff_at k)
           (w\<lparr>http_log := http_log w @ replicate k rq, slept := slept w @ map d [0..<k]\<rparr>)"
  using assms
proof (induction k)
  case 0
  then show ?case by (simp add: backoff_at_def)
next
  case (Suc k)
  let ?w = "w\<lparr>http_log := http_log w @ replicate k rq, slept := slept w @ map d [0..<k]\<rparr>"
  from Suc have IH: "attempts E rq n 1 w = attempts E rq (n - k) (backoff_at k) ?w" by simp
  from Suc.prems have r: "retryable E rq w d k" by simp
  obtain m where m: "n - k = Suc m" using Suc.prems(2) by (cases "n - k") auto
  from r obtain resp where resp: "server E (length (http_log ?w)) rq = Reply resp"
    "status_code resp \<in> RETRY_STATUS" "sleep_for E resp (backoff_at k) = Inr (d k)" "0 \<le> d k"
    by (rule retryable_sleep) simp
  have "attempts E rq (Suc m) (backoff_at k) ?w =
        attempts E rq m (min (backoff_at k * 2) 30)
          (?w\<lparr>http_log := http_log ?w @ [rq], slept := slept ?w @ [d k]\<rparr>)"
    by (rule attempts_retry_step[OF resp])
  moreover have "m = n - Suc k" using m by simp
  ultimately show ?case using IH m by (simp add: replicate_append_same backoff_at_Suc)
qed


lemma attempts_bound:
  "\<exists>w'. world_of (attempts E rq n b w) = Some w' \<and> length (http_log w') \<le> length (http_log w) + n"
proof (induction n arbitrary: b w)
  case 0
  then show ?case by (simp add: world_of_def)
next
  case (Suc n)
  show ?case
  proof (cases "server E (length (http_log w)) rq")
    case NetError
    then show ?thesis by (simp add: world_of_def)
  next
    case (Reply resp)
    let ?w1 = "w\<lparr>http_log := http_log w @ [rq]\<rparr>"
    consider (ok) "status_code resp = 200"
      | (retry) "status_code resp \<noteq> 200" "status_code resp \<in> RETRY_STATUS"
      | (other) "status_code resp \<noteq> 200" "status_code resp \<notin> RETRY_STATUS" by blast
    then show ?thesis
    proof cases
      case ok
      with Reply show ?thesis by (simp add: world_of_def Let_def split: option.splits)
    next
      case other
      with Reply show ?thesis by (simp add: world_of_def Let_def)
    next
      case retry
      show ?thesis
      proof (cases "sleep_for E resp b")
        case (Inl e)
        with Reply retry show ?thesis by (simp add: world_of_def Let_def)
      next
        case (Inr dd)
        show ?thesis
        proof (cases "dd < 0")
          case True
          with Reply retry Inr show ?thesis by (simp add: world_of_def py_sleep_def Let_def)
        next
          case False
          let ?w3 = "?w1\<lparr>slept := slept ?w1 @ [dd]\<rparr>"
          from Suc.IH[of "min (b * 2) 30" ?w3] obtain w' where
            "world_of (attempts E rq n (min (b * 2) 30) ?w3) = Some w'"
            "length (http_log w') \<le> length (http_log ?w3) + n" by blast
          with Reply retry Inr False show ?thesis by (simp add: py_sleep_def Let_def)
        qed
      qed
    qed
  qed
qed

text \<open>
  C2 (as amended). A fetch makes at most 8 HTTP calls. While the calls get a status in
  \<open>{429, 500, 502, 503, 504}\<close> it sleeps and tries again: the number the
  \<^verbatim>\<open>Retry-After\<close> header holds when the header is there and not empty, else the
  backoff \<open>min (2 ^ i) 30\<close> before attempt \<open>i + 1\<close>. After 8 such calls it raises
  \<open>GetExhausted\<close>. A 200 at attempt \<open>k + 1\<close> is returned: the response itself in
  stream mode, its JSON body otherwise, and a body that is not JSON raises there. Any
  other status raises \<open>GetFailed\<close> at once with the status and the JSON body in full or,
  when the body is not JSON, the first 300 characters of its text.
\<close>

theorem get_with_retry_outcomes:
  assumes "k \<le> 8" and "\<forall>i<k. retryable E (u, ps, st) w d i"
  shows "(\<exists>w'. world_of (get_with_retry E (JStr u) ps st w) = Some w'
              \<and> length (http_log w') \<le> length (http_log w) + 8)
    \<and> (k = 8 \<longrightarrow>
         get_with_retry E (JStr u) ps st w =
           Raises (GetExhausted u)
             (w\<lparr>http_log := http_log w @ replicate 8 (u, ps, st), slept := slept w @ map d [0..<8]\<rparr>))
    \<and> (k < 8 \<longrightarrow> (\<forall>resp. server E (length (http_log w) + k) (u, ps, st) = Reply resp \<longrightarrow>
         (status_code resp = 200 \<longrightarrow>
            get_with_retry E (JStr u) ps st w =
              (let w' = w\<lparr>http_log := http_log w @ replicate (Suc k) (u, ps, st),
                          slept := slept w @ map d [0..<k]\<rparr>
               in if st then Returns (Resp resp) w'
                  else case json_body resp of
                         None \<Rightarrow> Raises JSONDecodeError w'
                       | Some j \<Rightarrow> Returns (Body j) w'))
       \<and> (status_code resp \<noteq> 200 \<and> status_code resp \<notin> RETRY_STATUS \<longrightarrow>
            get_with_retry E (JStr u) ps st w =
              Raises (GetFailed u (status_code resp)
                        (case json_body resp of
                           Some j \<Rightarrow> j
                         | None \<Rightarrow> JObj [(''text'', JStr (take 300 (body_text resp)))]))
                (w\<lparr>http_log := http_log w @ replicate (Suc k) (u, ps, st),
                   slept := slept w @ map d [0..<k]\<rparr>))))"
proof -
  let ?rq = "(u, ps, st)"
  let ?wk = "w\<lparr>http_log := http_log w @ replicate k ?rq, slept := slept w @ map d [0..<k]\<rparr>"
  have g: "get_with_retry E (JStr u) ps st w = attempts E ?rq 8 1 w"
    by (simp add: get_with_retry_def)
  have pre: "attempts E ?rq 8 1 w = attempts E ?rq (8 - k) (backoff_at k) ?wk"
    by (rule attempts_prefix[OF assms(2) assms(1)])
  have A: "\<exists>w'. world_of (get_with_retry E (JStr u) ps st w) = Some w'
              \<and> length (http_log w') \<le> length (http_log w) + 8"
    unfolding g by (rule attempts_bound)
  have B: "get_with_retry E (JStr u) ps st w =
           Raises (GetExhausted u)
             (w\<lparr>http_log := http_log w @ replicate 8 ?rq, slept := slept w @ map d [0..<8]\<rparr>)"
    if "k = 8"
    using pre that unfolding g by simp
  have C: "get_with_retry E (JStr u) ps st w =
              (let w' = w\<lparr>http_log := http_log w @ replicate (Suc k) ?rq,
                          slept := slept w @ map d [0..<k]\<rparr>
               in if st then Returns (Resp resp) w'
                  else case json_body resp of
                         None \<Rightarrow> Raises JSONDecodeError w'
                       | Some j \<Rightarrow> Returns (Body j) w')"
    if "k < 8" "server E (length (http_log w) + k) ?rq = Reply resp" "status_code resp = 200" for resp
  proof -
    have m: "8 - k = Suc (7 - k)" using that(1) by simp
    show ?thesis unfolding g pre m using that(2,3)
      by (simp add: Let_def replicate_append_same split: option.splits)
  qed
  have D: "get_with_retry E (JStr u) ps st w =
              Raises (GetFailed u (status_code resp)
                        (case json_body resp of
                           Some j \<Rightarrow> j
                         | None \<Rightarrow> JObj [(''text'', JStr (take 300 (body_text resp)))]))
                (w\<lparr>http_log := http_log w @ replicate (Suc k) ?rq,
                   slept := slept w @ map d [0..<k]\<rparr>)"
    if "k < 8" "server E (length (http_log w) + k) ?rq = Reply resp"
       "status_code resp \<noteq> 200" "status_code resp \<notin> RETRY_STATUS" for resp
  proof -
    have m: "8 - k = Suc (7 - k)" using that(1) by simp
    show ?thesis unfolding g pre m using that(2,3,4)
      by (simp add: Let_def replicate_append_same error_detail_def)
  qed
  from A B C D show ?thesis by blast
qed



theorem get_with_retry_witness:
  "get_with_retry (example_config\<lparr>server := retry_server\<rparr>) (JStr ''u'') [] False empty_world =
     Returns (Body (JObj [(''users'', JArr [])]))
       (empty_world\<lparr>http_log := replicate 3 (''u'', [], False), slept := [5, 2]\<rparr>)"
proof -
  let ?E = "example_config\<lparr>server := retry_server\<rparr>"
  let ?d = "\<lambda>i::nat. if i = 0 then (5::rat) else 2"
  have h: "\<forall>i<2. retryable ?E (''u'', [], False) empty_world ?d i"
    by (simp add: retryable_def example_config_def retry_server_def response_def empty_world_def
        RETRY_STATUS_def example_float_def example_int_def less_Suc_eq numeral_2_eq_2)
  have r: "server ?E (length (http_log empty_world) + 2) (''u'', [], False) =
           Reply (response 200 None (Some (JObj [(''users'', JArr [])])) [])"
    by (simp add: retry_server_def)
  from get_with_retry_outcomes[of 2 ?E "''u''" "[]" False empty_world ?d] h r
  show ?thesis
    by (simp add: response_def empty_world_def numeral_3_eq_3 numeral_2_eq_2)
qed

text \<open>
  The claim as stated fails at three inputs: a 404 whose JSON body holds a string of 400
  characters is raised with that body in full, not cut; a 200 whose body is not JSON is
  not returned but raises; a 429 whose \<^verbatim>\<open>Retry-After\<close> is not a number raises at
  once, with no sleep and no second attempt.
\<close>

theorem get_with_retry_counterexample:
  "raised (get_with_retry (example_config\<lparr>server := failing_server\<rparr>) (JStr ''u404'') [] False empty_world)
     = Some (GetFailed ''u404'' 404 (JObj [(''description'', JStr (replicate 400 (CHR ''x'')))]))
   \<and> raised (get_with_retry (example_config\<lparr>server := failing_server\<rparr>) (JStr ''u200'') [] False empty_world)
     = Some JSONDecodeError
   \<and> raised (get_with_retry (example_config\<lparr>server := failing_server\<rparr>) (JStr ''u429'') [] False empty_world)
     = Some ValueError"
  by (simp add: get_with_retry_def raised_def failing_server_def response_def empty_world_def
      example_config_def RETRY_STATUS_def error_detail_def sleep_for_def example_float_def
      example_int_def Let_def eval_nat_numeral)


subsection \<open>The persistence layer\<close>

lemma insert_on_dup_overwrite:
  assumes "\<And>old. upd old = new"
  shows "insert_on_dup tbl k new upd = tbl(k \<mapsto> new)"
  by (simp add: insert_on_dup_def assms split: option.splits)

lemma raw_on_dup_overwrite:
  "old\<lparr>raw_updated_at := raw_updated_at new, payload_json := payload_json new\<rparr> = (new :: raw_row)"
  by (cases new, cases old) simp

lemma key_int_id:
  assumes "sql_bigint (dget x ''id'') = Some k"
  shows "int_id E x = Inr k \<and> in_bigint k"
proof (cases "map_of x ''id''")
  case None
  with assms show ?thesis by (simp add: dget_def sql_bigint_def)
next
  case (Some v)
  with assms show ?thesis
    by (cases v) (auto simp: dget_def sql_bigint_def int_id_def dindex_def py_int_def in_bigint_def
        split: if_splits)
qed

lemma upsert_raw_eq:
  "in_bigint k \<Longrightarrow> upsert_raw E r k u x w =
     Returns () (w\<lparr>raw_snapshots := (raw_snapshots w)((r, k) \<mapsto>
        \<lparr>raw_updated_at = parse_dt E u, payload_json = x\<rparr>)\<rparr>)"
  by (simp add: upsert_raw_def Let_def insert_on_dup_overwrite[OF raw_on_dup_overwrite])

text \<open>
  The assignments of each \<^verbatim>\<open>ON DUPLICATE KEY UPDATE\<close> clause name every column but
  the key, so the row that was there is overwritten whole.
\<close>

lemma user_on_dup_overwrite: "user_on_dup new old = new"
  by (cases new, cases old) (simp add: user_on_dup_def)


lemma ticket_on_dup_overwrite: "ticket_on_dup new old = new"
  by (cases new, cases old) (simp add: ticket_on_dup_def)

lemma comment_on_dup_overwrite: "comment_on_dup new old = new"
  by (cases new, cases old) (simp add: comment_on_dup_def)

lemma attachment_on_dup_overwrite: "attachment_on_dup new old = new"
  by (cases new, cases old) (simp add: attachment_on_dup_def)

lemma view_on_dup_overwrite: "view_on_dup new old = new"
  by (cases new, cases old) (simp add: view_on_dup_def)

lemma trigger_on_dup_overwrite: "trigger_on_dup new old = new"
  by (cases new, cases old) (simp add: trigger_on_dup_def)

lemma macro_on_dup_overwrite: "macro_on_dup new old = new"
  by (cases new, cases old) (simp add: macro_on_dup_def)

lemma trigger_category_on_dup_overwrite: "trigger_category_on_dup new old = new"
  by (cases new, cases old) (simp add: trigger_category_on_dup_def)

text \<open>
  What each typed upsert does, in one equation: the store refuses the key and nothing
  is written, or the typed row and the raw snapshot of the same id are both written.
\<close>

lemma upsert_user_eq:
  "upsert_user E x w =
     (case sql_bigint (dget x ''id'') of
        None \<Rightarrow> Raises StoreError w
      | Some k \<Rightarrow>
          Returns ()
            (w\<lparr>users := (users w)(k \<mapsto> user_values E x),
               raw_snapshots := (raw_snapshots w)((''users'', k) \<mapsto>
                 \<lparr>raw_updated_at = parse_dt E (dget x ''updated_at''), payload_json = x\<rparr>)\<rparr>))"
proof (cases "sql_bigint (dget x ''id'')")
  case None
  then show ?thesis by (simp add: upsert_user_def)
next
  case (Some k)
  from key_int_id[OF Some, of E] show ?thesis
    by (simp add: upsert_user_def Some Let_def upsert_raw_eq
        insert_on_dup_overwrite[OF user_on_dup_overwrite])
qed


lemma upsert_ticket_eq:
  "upsert_ticket E x w =
     (case sql_bigint (dget x ''id'') of
        None \<Rightarrow> Raises StoreError w
      | Some k \<Rightarrow>
          Returns ()
            (w\<lparr>tickets := (tickets w)(k \<mapsto> ticket_values E x),
               raw_snapshots := (raw_snapshots w)((''tickets'', k) \<mapsto>
                 \<lparr>raw_updated_at = parse_dt E (dget x ''updated_at''), payload_json = x\<rparr>)\<rparr>))"
proof (cases "sql_bigint (dget x ''id'')")
  case None
  then show ?thesis by (simp add: upsert_ticket_def)
next
  case (Some k)
  from key_int_id[OF Some, of E] show ?thesis
    by (simp add: upsert_ticket_def Some Let_def upsert_raw_eq
        insert_on_dup_overwrite[OF ticket_on_dup_overwrite])
qed

lemma upsert_comment_eq:
  "upsert_comment E ticket_id x w =
     (case sql_bigint (dget x ''id'') of
        None \<Rightarrow> Raises StoreError w
      | Some k \<Rightarrow>
          Returns ()
            (w\<lparr>ticket_comments := (ticket_comments w)(k \<mapsto> comment_values E ticket_id x),
               raw_snapshots := (raw_snapshots w)((''comments'', k) \<mapsto>
                 \<lparr>raw_updated_at = parse_dt E (py_or (dget x ''updated_at'') (dget x ''created_at'')), payload_json = x\<rparr>)\<rparr>))"
proof (cases "sql_bigint (dget x ''id'')")
  case None
  then show ?thesis by (simp add: upsert_comment_def)
next
  case (Some k)
  from key_int_id[OF Some, of E] show ?thesis
    by (simp add: upsert_comment_def Some Let_def upsert_raw_eq
        insert_on_dup_overwrite[OF comment_on_dup_overwrite])
qed

lemma upsert_attachment_eq:
  "upsert_attachment E ticket_id comment_id x local_path w =
     (case sql_bigint (dget x ''id'') of
        None \<Rightarrow> Raises StoreError w
      | Some k \<Rightarrow>
          Returns ()
            (w\<lparr>attachments := (attachments w)(k \<mapsto> attachment_values E ticket_id comment_id x local_path),
               raw_snapshots := (raw_snapshots w)((''attachments'', k) \<mapsto>
                 \<lparr>raw_updated_at = parse_dt E (dget x ''created_at''), payload_json = x\<rparr>)\<rparr>))"
proof (cases "sql_bigint (dget x ''id'')")
  case None
  then show ?thesis by (simp add: upsert_attachment_def)
next
  case (Some k)
  from key_int_id[OF Some, of E] show ?thesis
    by (simp add: upsert_attachment_def Some Let_def upsert_raw_eq
        insert_on_dup_overwrite[OF attachment_on_dup_overwrite])
qed

lemma upsert_view_eq:
  "upsert_view E x w =
     (case sql_bigint (dget x ''id'') of
        None \<Rightarrow> Raises StoreError w
      | Some k \<Rightarrow>
          Returns ()
            (w\<lparr>views := (views w)(k \<mapsto> view_values E x),
               raw_snapshots := (raw_snapshots w)((''views'', k) \<mapsto>
                 \<lparr>raw_updated_at = parse_dt E (dget x ''updated_at''), payload_json = x\<rparr>)\<rparr>))"
proof (cases "sql_bigint (dget x ''id'')")
  case None
  then show ?thesis by (simp add: upsert_view_def)
next
  case (Some k)
  from key_int_id[OF Some, of E] show ?thesis
    by (simp add: upsert_view_def Some Let_def upsert_raw_eq
        insert_on_dup_overwrite[OF view_on_dup_overwrite])
qed

lemma upsert_trigger_eq:
  "upsert_trigger E x w =
     (case sql_bigint (dget x ''id'') of
        None \<Rightarrow> Raises StoreError w
      | Some k \<Rightarrow>
          Returns ()
            (w\<lparr>triggers := (triggers w)(k \<mapsto> trigger_values E x),
               raw_snapshots := (raw_snapshots w)((''triggers'', k) \<mapsto>
                 \<lparr>raw_updated_at = parse_dt E (dget x ''updated_at''), payload_json = x\<rparr>)\<rparr>))"
proof (cases "sql_bigint (dget x ''id'')")
  case None
  then show ?thesis by (simp add: upsert_trigger_def)
next
  case (Some k)
  from key_int_id[OF Some, of E] show ?thesis
    by (simp add: upsert_trigger_def Some Let_def upsert_raw_eq
        insert_on_dup_overwrite[OF trigger_on_dup_overwrite])
qed

lemma upsert_macro_eq:
  "upsert_macro E x w =
     (case sql_bigint (dget x ''id'') of
        None \<Rightarrow> Raises StoreError w
      | Some k \<Rightarrow>
          Returns ()
            (w\<lparr>macros := (macros w)(k \<mapsto> macro_values E x),
               raw_snapshots := (raw_snapshots w)((''macros'', k) \<mapsto>
                 \<lparr>raw_updated_at = parse_dt E (dget x ''updated_at''), payload_json = x\<rparr>)\<rparr>))"
proof (cases "sql_bigint (dget x ''id'')")
  case None
  then show ?thesis by (simp add: upsert_macro_def)
next
  case (Some k)
  from key_int_id[OF Some, of E] show ?thesis
    by (simp add: upsert_macro_def Some Let_def upsert_raw_eq
        insert_on_dup_overwrite[OF macro_on_dup_overwrite])
qed

text \<open>
  The trigger categories differ: the typed key is \<^verbatim>\<open>str(c.get("id"))\<close>, which the
  store takes whenever it is at most 64 characters long, and the raw snapshot needs
  \<^verbatim>\<open>int(c["id"])\<close>, which can raise after the typed row is written.
\<close>

lemma upsert_trigger_category_eq:
  "upsert_trigger_category E x w =
     (if length (str_of E (dget x ''id'')) \<le> 64 then
        (let w1 = w\<lparr>trigger_categories :=
                     (trigger_categories w)(str_of E (dget x ''id'') \<mapsto> trigger_category_values E x)\<rparr>
         in case int_id E x of
              Inl e \<Rightarrow> Raises e w1
            | Inr n \<Rightarrow>
                if in_bigint n then
                  Returns ()
                    (w1\<lparr>raw_snapshots := (raw_snapshots w)((''trigger_categories'', n) \<mapsto>
                       \<lparr>raw_updated_at = parse_dt E (dget x ''updated_at''), payload_json = x\<rparr>)\<rparr>)
                else Raises StoreError w1)
      else Raises StoreError w)"
proof (cases "int_id E x")
  case (Inl e)
  then show ?thesis
    by (simp add: upsert_trigger_category_def Let_def
        insert_on_dup_overwrite[OF trigger_category_on_dup_overwrite])
next
  case (Inr n)
  show ?thesis
  proof (cases "in_bigint n")
    case True
    with Inr show ?thesis
      by (simp add: upsert_trigger_category_def Let_def upsert_raw_eq
          insert_on_dup_overwrite[OF trigger_category_on_dup_overwrite])
  next
    case False
    with Inr show ?thesis
      by (simp add: upsert_trigger_category_def Let_def upsert_raw_def
          insert_on_dup_overwrite[OF trigger_category_on_dup_overwrite])
  qed
qed






















text \<open>
  C7. Every typed upsert ends with the call of \<^verbatim>\<open>upsert_raw\<close> under its resource
  name, and for the eight tables with an integer key the equations above show that the
  typed row and the raw snapshot of the same id are written together or not at all. For
  a trigger category the typed key is the text of the id and the raw snapshot needs the
  id as an integer: with the id \<^verbatim>\<open>"general"\<close> the typed row is written, then
  \<^verbatim>\<open>int\<close> raises \<^verbatim>\<open>ValueError\<close>, and no raw snapshot is written.
\<close>

theorem trigger_category_unpaired:
  "raised (upsert_trigger_category example_config
             [(''id'', JStr ''general''), (''name'', JStr ''General'')] empty_world) = Some ValueError
   \<and> (\<exists>w'. world_of (upsert_trigger_category example_config
                [(''id'', JStr ''general''), (''name'', JStr ''General'')] empty_world) = Some w'
          \<and> trigger_categories w' ''general'' =
              Some (trigger_category_values example_config
                      [(''id'', JStr ''general''), (''name'', JStr ''General'')])
          \<and> raw_snapshots w' = Map.empty)"
  by (simp add: upsert_trigger_category_eq raised_def world_of_def example_config_def
      example_str_def dget_def int_id_def dindex_def py_int_def example_int_def Let_def
      empty_world_def)

text \<open>
  C10. \<^verbatim>\<open>delete_ticket\<close> returns in every state; it removes the ticket row, the
  comments and the attachments whose \<^verbatim>\<open>ticket_id\<close> is the ticket, and leaves every
  other table as it was: the raw snapshots (those of the ticket, its comments and its
  attachments with them), the checkpoints, the six other typed tables, and the files.
\<close>

theorem delete_ticket_frame:
  "\<exists>w'. delete_ticket ticket_id w = Returns () w'
     \<and> raw_snapshots w' = raw_snapshots w \<and> sync_state w' = sync_state w
     \<and> users w' = users w \<and> organizations w' = organizations w \<and> views w' = views w
     \<and> triggers w' = triggers w \<and> trigger_categories w' = trigger_categories w
     \<and> macros w' = macros w \<and> files w' = files w \<and> dirs w' = dirs w
     \<and> http_log w' = http_log w \<and> slept w' = slept w
     \<and> tickets w' = (tickets w)(ticket_id := None)
     \<and> ticket_comments w' =
         ticket_comments w |` (- {k. \<exists>r. ticket_comments w k = Some r \<and> c_ticket_id r = ticket_id})
     \<and> attachments w' =
         attachments w |` (- {k. \<exists>r. attachments w k = Some r \<and> a_ticket_id r = ticket_id})"
  by (auto simp: delete_ticket_def restrict_map_def fun_eq_iff split: option.splits)

theorem delete_ticket_frame_witness:
  "\<exists>w1 w2. upsert_ticket example_config [(''id'', JInt 42), (''status'', JStr ''open'')] empty_world
              = Returns () w1
     \<and> delete_ticket 42 w1 = Returns () w2
     \<and> tickets w1 42 \<noteq> None \<and> tickets w2 42 = None
     \<and> raw_snapshots w2 (''tickets'', 42) =
         Some \<lparr>raw_updated_at = None, payload_json = [(''id'', JInt 42), (''status'', JStr ''open'')]\<rparr>"
proof -
  let ?x = "[(''id'', JInt 42), (''status'', JStr ''open'')]"
  obtain w1 where w1: "upsert_ticket example_config ?x empty_world = Returns () w1"
    and t1: "tickets w1 42 \<noteq> None"
    and r1: "raw_snapshots w1 (''tickets'', 42) = Some \<lparr>raw_updated_at = None, payload_json = ?x\<rparr>"
    by (simp add: upsert_ticket_eq parse_dt_def dget_def sql_bigint_def in_bigint_def)
  from delete_ticket_frame[of 42 w1] obtain w2 where
    "delete_ticket 42 w1 = Returns () w2" "raw_snapshots w2 = raw_snapshots w1"
    "tickets w2 = (tickets w1)(42 := None)" by blast
  with w1 t1 r1 show ?thesis by simp
qed

subsection \<open>What a call leaves unchanged\<close>

lemma keeps_simps [simp]:
  "keeps R w (Returns a w') = R w w'" "keeps R w (Raises e w') = R w w'" "keeps R w Runaway"
  by (simp_all add: keeps_def)

lemma keeps_and_then:
  assumes "transp R" "keeps R w m" "\<And>a w1. keeps R w1 (f a w1)"
  shows "keeps R w (and_then m f)"
proof (cases m)
  case (Returns a w1)
  with assms(2) have "R w w1" by simp
  moreover from assms(3)[of w1 a] have "keeps R w1 (f a w1)" .
  ultimately show ?thesis using Returns assms(1)
    by (cases "f a w1") (auto dest: transpD)
qed (use assms(2) in simp_all)

lemma keeps_lift: "reflp R \<Longrightarrow> keeps R w (lift r w)"
  by (cases r) (simp_all add: reflpD)

lemma keeps_for_each:
  assumes "reflp R" "transp R" "\<And>x w. x \<in> set xs \<Longrightarrow> keeps R w (body x w)"
  shows "keeps R w (for_each body xs w)"
  using assms(3)
proof (induction xs arbitrary: w)
  case Nil
  then show ?case using assms(1) by (simp add: reflpD)
next
  case (Cons x xs)
  show ?case
    unfolding for_each.simps
    by (rule keeps_and_then[OF assms(2)]) (simp_all add: Cons)
qed

lemma keeps_on_dict:
  assumes "reflp R" "\<And>d. x = JObj d \<Longrightarrow> keeps R w (f d w)"
  shows "keeps R w (on_dict f x w)"
  using assms by (cases x) (simp_all add: on_dict_def reflpD)

lemma keeps_weaken: "keeps R w out \<Longrightarrow> (\<And>w'. R w w' \<Longrightarrow> S w w') \<Longrightarrow> keeps S w out"
  by (cases out) simp_all

lemma same_store_refl: "reflp same_store"
  by (simp add: reflp_def same_store_def)

lemma same_store_trans: "transp same_store"
  unfolding transp_def same_store_def
proof (intro allI impI)
  fix x y z :: world
  assume "y\<lparr>http_log := http_log x, slept := slept x\<rparr> = x"
    and "z\<lparr>http_log := http_log y, slept := slept y\<rparr> = y"
  then show "z\<lparr>http_log := http_log x, slept := slept x\<rparr> = x"
    by (cases x, cases y, cases z) simp
qed

lemma same_db_refl: "reflp same_db"
  by (simp add: reflp_def same_db_def)

lemma same_db_trans: "transp same_db"
  unfolding transp_def same_db_def
proof (intro allI impI)
  fix x y z :: world
  assume "y\<lparr>files := files x, dirs := dirs x, http_log := http_log x, slept := slept x\<rparr> = x"
    and "z\<lparr>files := files y, dirs := dirs y, http_log := http_log y, slept := slept y\<rparr> = y"
  then show "z\<lparr>files := files x, dirs := dirs x, http_log := http_log x, slept := slept x\<rparr> = x"
    by (cases x, cases y, cases z) simp
qed

lemma same_store_db: "same_store w w' \<Longrightarrow> same_db w w'"
  unfolding same_store_def same_db_def by (cases w, cases w') simp

lemma same_store_fields:
  assumes "same_store w w'"
  shows "sync_state w' = sync_state w" "raw_snapshots w' = raw_snapshots w" "users w' = users w"
    "organizations w' = organizations w" "tickets w' = tickets w"
    "ticket_comments w' = ticket_comments w" "attachments w' = attachments w" "views w' = views w"
    "triggers w' = triggers w" "trigger_categories w' = trigger_categories w" "macros w' = macros w"
    "files w' = files w" "dirs w' = dirs w"
  using assms unfolding same_store_def by (cases w, cases w', simp)+

lemma same_db_fields:
  assumes "same_db w w'"
  shows "sync_state w' = sync_state w" "raw_snapshots w' = raw_snapshots w" "users w' = users w"
    "organizations w' = organizations w" "tickets w' = tickets w"
    "ticket_comments w' = ticket_comments w" "attachments w' = attachments w" "views w' = views w"
    "triggers w' = triggers w" "trigger_categories w' = trigger_categories w" "macros w' = macros w"
  using assms unfolding same_db_def by (cases w, cases w', simp)+

lemma py_sleep_same_store: "keeps same_store w (py_sleep d w)"
  by (simp add: py_sleep_def same_store_def)

lemma attempts_same_store: "keeps same_store w (attempts E rq n b w)"
proof (induction n arbitrary: b w)
  case 0
  then show ?case by (simp add: same_store_def)
next
  case (Suc n)
  let ?w1 = "w\<lparr>http_log := http_log w @ [rq]\<rparr>"
  have w1: "same_store w ?w1" by (simp add: same_store_def)
  have rest: "keeps same_store ?w1
     (and_then (lift (sleep_for E resp b) ?w1) (\<lambda>d w2.
        and_then (py_sleep d w2) (\<lambda>u w3. attempts E rq n (min (b * 2) 30) w3)))" for resp
    by (intro keeps_and_then[OF same_store_trans] keeps_lift[OF same_store_refl]
        py_sleep_same_store Suc.IH)
  have rest': "keeps same_store w
     (and_then (lift (sleep_for E resp b) ?w1) (\<lambda>d w2.
        and_then (py_sleep d w2) (\<lambda>u w3. attempts E rq n (min (b * 2) 30) w3)))" for resp
    using rest[of resp] w1 same_store_trans
    by (cases "and_then (lift (sleep_for E resp b) ?w1) (\<lambda>d w2.
        and_then (py_sleep d w2) (\<lambda>u w3. attempts E rq n (min (b * 2) 30) w3))")
       (auto dest: transpD)
  show ?case
  proof (cases "server E (length (http_log w)) rq")
    case NetError
    then show ?thesis using w1 by (simp add: Let_def)
  next
    case (Reply resp)
    then show ?thesis using w1 rest'[of resp]
      by (simp add: Let_def split: option.splits)
  qed
qed

lemma get_with_retry_same_store: "keeps same_store w (get_with_retry E url params stream w)"
  by (cases url) (simp_all add: get_with_retry_def attempts_same_store reflpD[OF same_store_refl])

lemma get_page_same_store: "keeps same_store w (get_page E url params w)"
  unfolding get_page_def
proof (rule keeps_and_then[OF same_store_trans get_with_retry_same_store])
  fix a w1
  show "keeps same_store w1 (case a of Body (JObj d) \<Rightarrow> Returns d w1 | _ \<Rightarrow> Raises AttributeError w1)"
    by (simp add: reflpD[OF same_store_refl] split: fetched.splits json.splits)
qed

lemma attempts_not_runaway: "attempts E rq n b w \<noteq> Runaway"
  using attempts_bound[of E rq n b w] by (auto simp: world_of_def)

lemma get_with_retry_not_runaway: "get_with_retry E url params stream w \<noteq> Runaway"
  by (cases url) (simp_all add: get_with_retry_def attempts_not_runaway)

lemma get_page_not_runaway: "get_page E url params w \<noteq> Runaway"
  using get_with_retry_not_runaway[of E url params False w]
  by (cases "get_with_retry E url params False w")
     (auto simp: get_page_def split: fetched.splits json.splits)

lemma only_files_refl: "reflp only_files"
  by (simp add: reflp_def only_files_def)

lemma only_files_trans: "transp only_files"
  unfolding transp_def only_files_def
proof (intro allI impI)
  fix x y z :: world
  assume "y\<lparr>files := files x, http_log := http_log x, slept := slept x\<rparr> = x"
    and "z\<lparr>files := files y, http_log := http_log y, slept := slept y\<rparr> = y"
  then show "z\<lparr>files := files x, http_log := http_log x, slept := slept x\<rparr> = x"
    by (cases x, cases y, cases z) simp
qed

lemma same_store_only_files: "same_store w w' \<Longrightarrow> only_files w w'"
  unfolding same_store_def only_files_def by (cases w, cases w') simp

lemma only_files_db: "only_files w w' \<Longrightarrow> same_db w w'"
  unfolding only_files_def same_db_def by (cases w, cases w') simp

lemma only_files_dirs: "only_files w w' \<Longrightarrow> dirs w' = dirs w"
  unfolding only_files_def by (cases w, cases w') simp

lemma keeps_after: "transp R \<Longrightarrow> R w w1 \<Longrightarrow> keeps R w1 out \<Longrightarrow> keeps R w out"
  by (cases out) (auto dest: transpD)

lemma log_extends_refl: "reflp log_extends"
  by (simp add: reflp_def log_extends_def)

lemma log_extends_trans: "transp log_extends"
  by (auto simp: transp_def log_extends_def)

lemma py_sleep_log: "keeps log_extends w (py_sleep d w)"
  by (simp add: py_sleep_def log_extends_def)

lemma attempts_log: "keeps log_extends w (attempts E rq n b w)"
proof (induction n arbitrary: b w)
  case 0
  then show ?case by (simp add: log_extends_def)
next
  case (Suc n)
  let ?w1 = "w\<lparr>http_log := http_log w @ [rq]\<rparr>"
  have w1: "log_extends w ?w1" by (simp add: log_extends_def)
  have rest: "keeps log_extends w
     (and_then (lift (sleep_for E resp b) ?w1) (\<lambda>d w2.
        and_then (py_sleep d w2) (\<lambda>u w3. attempts E rq n (min (b * 2) 30) w3)))" for resp
    by (rule keeps_after[OF log_extends_trans w1])
       (intro keeps_and_then[OF log_extends_trans] keeps_lift[OF log_extends_refl]
          py_sleep_log Suc.IH)
  show ?case
  proof (cases "server E (length (http_log w)) rq")
    case NetError
    then show ?thesis using w1 by (simp add: Let_def)
  next
    case (Reply resp)
    then show ?thesis using w1 rest[of resp]
      by (simp add: Let_def split: option.splits)
  qed
qed

lemma get_with_retry_log: "keeps log_extends w (get_with_retry E url params stream w)"
  by (cases url) (simp_all add: get_with_retry_def attempts_log reflpD[OF log_extends_refl])

lemma get_page_log: "keeps log_extends w (get_page E url params w)"
  unfolding get_page_def
proof (rule keeps_and_then[OF log_extends_trans get_with_retry_log])
  fix a w1
  show "keeps log_extends w1 (case a of Body (JObj d) \<Rightarrow> Returns d w1 | _ \<Rightarrow> Raises AttributeError w1)"
    by (simp add: reflpD[OF log_extends_refl] split: fetched.splits json.splits)
qed

lemma only_io_refl: "reflp only_io"
  using same_db_refl log_extends_refl by (simp add: reflp_def only_io_def)

lemma only_io_trans: "transp only_io"
  unfolding transp_def only_io_def
  by (blast dest: transpD[OF same_db_trans] transpD[OF log_extends_trans])

lemma only_io_db: "only_io w w' \<Longrightarrow> same_db w w'"
  by (simp add: only_io_def)


lemma keeps_only_io: "keeps same_db w out \<Longrightarrow> keeps log_extends w out \<Longrightarrow> keeps only_io w out"
  by (cases out) (simp_all add: only_io_def)

lemma get_page_only_io: "keeps only_io w (get_page E url params w)"
  by (rule keeps_only_io[OF keeps_weaken[OF get_page_same_store same_store_db] get_page_log])

subsection \<open>The attachment materializer\<close>

lemma write_chunks_keeps:
  assumes r: "reflp R" and t: "transp R"
    and f: "\<And>w c. R w (w\<lparr>files := (files w)(target \<mapsto> c)\<rparr>)"
  shows "keeps R w (write_chunks target cs w)"
proof (induction cs arbitrary: w)
  case Nil
  then show ?case by (simp add: reflpD[OF r])
next
  case (Cons c cs)
  show ?case
  proof (cases c)
    case (Chunk b)
    let ?w1 = "if b \<noteq> [] then
          w\<lparr>files := (files w)(target \<mapsto> (case files w target of None \<Rightarrow> b | Some old \<Rightarrow> old @ b))\<rparr>
        else w"
    have "R w ?w1" by (simp add: f reflpD[OF r])
    from keeps_after[OF t this Cons.IH[of ?w1]] Chunk show ?thesis by simp
  next
    case Broken
    then show ?thesis by (simp add: reflpD[OF r])
  qed
qed

lemma write_chunks_only_files: "keeps only_files w (write_chunks target cs w)"
  by (rule write_chunks_keeps[OF only_files_refl only_files_trans]) (simp add: only_files_def)

lemma write_chunks_log: "keeps log_extends w (write_chunks target cs w)"
  by (rule write_chunks_keeps[OF log_extends_refl log_extends_trans]) (simp add: log_extends_def)

lemma write_chunks_not_runaway: "write_chunks target cs w \<noteq> Runaway"
  by (induction target cs w rule: write_chunks.induct) simp_all

lemma transfer_keeps:
  assumes r: "reflp R" and t: "transp R"
    and g: "\<And>w. keeps R w (get_with_retry E url [] True w)"
    and f: "\<And>w c. R w (w\<lparr>files := (files w)(target \<mapsto> c)\<rparr>)"
  shows "keeps R w (transfer E url target w)"
  unfolding transfer_def
proof (rule keeps_and_then[OF t g])
  fix a w1
  show "keeps R w1
          (case a of
             Resp resp \<Rightarrow>
               if open_fails E target then Raises OSError w1
               else write_chunks target (content resp) (w1\<lparr>files := (files w1)(target \<mapsto> [])\<rparr>)
           | Body j \<Rightarrow> Raises AttributeError w1)"
  proof (cases a)
    case (Resp resp)
    let ?w2 = "w1\<lparr>files := (files w1)(target \<mapsto> [])\<rparr>"
    have "keeps R w1 (write_chunks target (content resp) ?w2)"
      by (rule keeps_after[OF t f write_chunks_keeps[OF r t f]])
    with Resp show ?thesis by (simp add: reflpD[OF r])
  next
    case (Body j)
    then show ?thesis by (simp add: reflpD[OF r])
  qed
qed

lemma transfer_only_files: "keeps only_files w (transfer E url target w)"
  by (rule transfer_keeps[OF only_files_refl only_files_trans
        keeps_weaken[OF get_with_retry_same_store same_store_only_files]])
     (simp_all add: only_files_def)

lemma transfer_log: "keeps log_extends w (transfer E url target w)"
  by (rule transfer_keeps[OF log_extends_refl log_extends_trans get_with_retry_log])
     (simp_all add: log_extends_def)

lemma transfer_not_runaway: "transfer E url target w \<noteq> Runaway"
  using get_with_retry_not_runaway[of E url "[]" True w]
  by (cases "get_with_retry E url [] True w")
     (auto simp: transfer_def write_chunks_not_runaway split: fetched.splits)

text \<open>
  The outcomes of \<^verbatim>\<open>download_attachment\<close>: it never runs away; every exception of
  the transfer becomes the value \<^verbatim>\<open>None\<close>; it raises what stands before the
  \<^verbatim>\<open>try\<close> raises, and nothing else.
\<close>

lemma download_attachment_disabled:
  "\<not> download_attachments E \<or> \<not> truthy (dget att ''content_url'') \<Longrightarrow>
   download_attachment E ticket_id comment_id att w = Returns JNull w"
  by (auto simp: download_attachment_def Let_def)

lemma ensure_dir_Returns:
  "ensure_dir E p w = Returns u w1 \<longleftrightarrow> \<not> mkdir_fails E p \<and> w1 = w\<lparr>dirs := insert p (dirs w)\<rparr>"
  by (auto simp: ensure_dir_def)

lemma download_attachment_eq:
  assumes "download_attachments E" "truthy (dget att ''content_url'')"
    "ensure_dir E (path_join (attachments_dir E) (str_of E (JInt ticket_id))) w = Returns () w1"
    "target_path E ticket_id att = Inr target" "\<not> stat_fails E target"
  shows "download_attachment E ticket_id comment_id att w =
         (if (case files w target of None \<Rightarrow> False | Some b \<Rightarrow> b \<noteq> []) then
            Returns (JStr (resolve E target)) w1
          else
            (case transfer E (dget att ''content_url'') target w1 of
               Returns u w3 \<Rightarrow> Returns (JStr (resolve E target)) w3
             | Raises e w3 \<Rightarrow> Returns JNull w3
             | Runaway \<Rightarrow> Runaway))"
  using assms by (auto simp: download_attachment_def Let_def ensure_dir_def split: if_splits)

lemma download_attachment_present:
  assumes "download_attachments E" "truthy (dget att ''content_url'')"
    "ensure_dir E (path_join (attachments_dir E) (str_of E (JInt ticket_id))) w = Returns () w1"
    "target_path E ticket_id att = Inr target" "\<not> stat_fails E target"
    "files w target = Some b" "b \<noteq> []"
  shows "download_attachment E ticket_id comment_id att w = Returns (JStr (resolve E target)) w1"
  using download_attachment_eq[OF assms(1-5), of comment_id] assms(6,7) by simp

lemma download_attachment_transfer:
  assumes "download_attachments E" "truthy (dget att ''content_url'')"
    "ensure_dir E (path_join (attachments_dir E) (str_of E (JInt ticket_id))) w = Returns () w1"
    "target_path E ticket_id att = Inr target" "\<not> stat_fails E target"
    "files w target = None \<or> files w target = Some []"
  shows "download_attachment E ticket_id comment_id att w =
         (case transfer E (dget att ''content_url'') target w1 of
            Returns u w2 \<Rightarrow> Returns (JStr (resolve E target)) w2
          | Raises e w2 \<Rightarrow> Returns JNull w2
          | Runaway \<Rightarrow> Runaway)"
  using download_attachment_eq[OF assms(1-5), of comment_id] assms(6) by auto

lemma download_attachment_keeps_any:
  assumes r: "reflp R" and t: "transp R"
    and mk: "\<And>p w. R w (w\<lparr>dirs := insert p (dirs w)\<rparr>)"
    and tr: "\<And>url target w. keeps R w (transfer E url target w)"
  shows "keeps R w (download_attachment E ticket_id comment_id att w)"
proof -
  have last: "keeps R w2
     (if stat_fails E target then Raises OSError w2
      else if (case files w2 target of None \<Rightarrow> False | Some b \<Rightarrow> b \<noteq> []) then
        Returns (JStr (resolve E target)) w2
      else
        (case transfer E url target w2 of
           Returns u w3 \<Rightarrow> Returns (JStr (resolve E target)) w3
         | Raises e w3 \<Rightarrow> Returns JNull w3
         | Runaway \<Rightarrow> Runaway))" for target w2 url
    using tr[of w2 url target] by (cases "transfer E url target w2") (simp_all add: reflpD[OF r])
  have ed: "keeps R w (ensure_dir E p w)" for p w
    by (simp add: ensure_dir_def mk reflpD[OF r])
  have "keeps R w
     (and_then (ensure_dir E (path_join (attachments_dir E) (str_of E (JInt ticket_id))) w) (\<lambda>u w1.
      and_then (lift (target_path E ticket_id att) w1) (\<lambda>target w2.
        if stat_fails E target then Raises OSError w2
        else if (case files w2 target of None \<Rightarrow> False | Some b \<Rightarrow> b \<noteq> []) then
          Returns (JStr (resolve E target)) w2
        else
          (case transfer E (dget att ''content_url'') target w2 of
             Returns u w3 \<Rightarrow> Returns (JStr (resolve E target)) w3
           | Raises e w3 \<Rightarrow> Returns JNull w3
           | Runaway \<Rightarrow> Runaway))))"
    by (intro keeps_and_then[OF t] ed keeps_lift[OF r] last)
  then show ?thesis by (simp add: download_attachment_def Let_def reflpD[OF r])
qed

lemma download_attachment_same_db: "keeps same_db w (download_attachment E ticket_id comment_id att w)"
  by (rule download_attachment_keeps_any[OF same_db_refl same_db_trans])
     (simp_all add: same_db_def keeps_weaken[OF transfer_only_files only_files_db])

lemma download_attachment_log: "keeps log_extends w (download_attachment E ticket_id comment_id att w)"
  by (rule download_attachment_keeps_any[OF log_extends_refl log_extends_trans])
     (simp_all add: log_extends_def transfer_log)

lemma download_attachment_only_io:
  "keeps only_io w (download_attachment E ticket_id comment_id att w)"
  by (rule keeps_only_io[OF download_attachment_same_db download_attachment_log])

lemma download_attachment_not_runaway: "download_attachment E ticket_id comment_id att w \<noteq> Runaway"
proof (cases "target_path E ticket_id att")
  case (Inl e)
  then show ?thesis by (simp add: download_attachment_def Let_def ensure_dir_def)
next
  case (Inr target)
  then show ?thesis
    by (auto simp: download_attachment_def Let_def ensure_dir_def transfer_not_runaway
        split: outcome.splits)
qed

text \<open>The target path fails for a declared file name that is truthy and not a string, only.\<close>

lemma target_path_Inl:
  "target_path E ticket_id att = Inl e \<longleftrightarrow>
     e = TypeError \<and> truthy (dget att ''file_name'') \<and> (\<forall>s. dget att ''file_name'' \<noteq> JStr s)"
  by (cases "dget att ''file_name''")
     (auto simp: target_path_def Let_def safe_filename_def py_or_def split: sum.splits)

lemma download_attachment_Raises:
  "download_attachment E ticket_id comment_id att w = Raises e w' \<longleftrightarrow>
     download_attachments E \<and> truthy (dget att ''content_url'')
     \<and> (mkdir_fails E (path_join (attachments_dir E) (str_of E (JInt ticket_id)))
          \<and> e = OSError \<and> w' = w
        \<or> \<not> mkdir_fails E (path_join (attachments_dir E) (str_of E (JInt ticket_id)))
          \<and> w' = w\<lparr>dirs := insert (path_join (attachments_dir E) (str_of E (JInt ticket_id))) (dirs w)\<rparr>
          \<and> (target_path E ticket_id att = Inl e
              \<or> (\<exists>target. target_path E ticket_id att = Inr target \<and> stat_fails E target
                    \<and> e = OSError)))"
proof (cases "download_attachments E \<and> truthy (dget att ''content_url'')")
  case False
  then show ?thesis
    using download_attachment_disabled[of E att ticket_id comment_id w] by auto
next
  case on: True
  let ?base = "path_join (attachments_dir E) (str_of E (JInt ticket_id))"
  show ?thesis
  proof (cases "mkdir_fails E ?base")
    case True
    with on show ?thesis by (auto simp: download_attachment_def Let_def ensure_dir_def)
  next
    case mk: False
    let ?w1 = "w\<lparr>dirs := insert ?base (dirs w)\<rparr>"
    show ?thesis
    proof (cases "target_path E ticket_id att")
      case (Inl x)
      with on mk show ?thesis by (auto simp: download_attachment_def Let_def ensure_dir_def)
    next
      case (Inr target)
      show ?thesis
      proof (cases "stat_fails E target")
        case True
        with on mk Inr show ?thesis by (auto simp: download_attachment_def Let_def ensure_dir_def)
      next
        case False
        have "ensure_dir E ?base w = Returns () ?w1" using mk by (simp add: ensure_dir_def)
        from download_attachment_eq[OF conjunct1[OF on] conjunct2[OF on] this Inr False, of comment_id]
        have "download_attachment E ticket_id comment_id att w \<noteq> Raises e w'"
          by (cases "transfer E (dget att ''content_url'') target ?w1") (auto split: if_splits)
        with on mk Inr False show ?thesis by simp
      qed
    qed
  qed
qed

lemma sub_runs_legal: "c \<in> set (sub_runs in_run s) \<Longrightarrow> \<not> illegal c"
  by (induction s arbitrary: in_run) (auto simp: illegal_def split: if_splits)

lemma download_attachment_Returns_path:
  assumes "download_attachment E ticket_id comment_id att w = Returns (JStr p) w1"
    and "target_path E ticket_id att = Inr target"
  shows "download_attachments E" "truthy (dget att ''content_url'')"
    "\<not> mkdir_fails E (path_join (attachments_dir E) (str_of E (JInt ticket_id)))"
    "\<not> stat_fails E target" "p = resolve E target"
    "path_join (attachments_dir E) (str_of E (JInt ticket_id)) \<in> dirs w1"
proof -
  let ?base = "path_join (attachments_dir E) (str_of E (JInt ticket_id))"
  let ?w0 = "w\<lparr>dirs := insert ?base (dirs w)\<rparr>"
  show on: "download_attachments E" "truthy (dget att ''content_url'')"
    using assms(1) download_attachment_disabled[of E att ticket_id comment_id w] by auto
  show mk: "\<not> mkdir_fails E ?base"
    using assms(1) on by (auto simp: download_attachment_def Let_def ensure_dir_def)
  show st: "\<not> stat_fails E target"
    using assms on mk by (auto simp: download_attachment_def Let_def ensure_dir_def)
  have ed: "ensure_dir E ?base w = Returns () ?w0" using mk by (simp add: ensure_dir_def)
  have k: "keeps only_files ?w0 (transfer E (dget att ''content_url'') target ?w0)"
    by (rule transfer_only_files)
  from download_attachment_eq[OF on ed assms(2) st, of comment_id] assms(1) k
  show "p = resolve E target" "?base \<in> dirs w1"
    by (cases "transfer E (dget att ''content_url'') target ?w0";
        auto split: if_splits dest: only_files_dirs)+
qed

lemma download_attachment_again:
  assumes first: "download_attachment E ticket_id comment_id att w = Returns (JStr p) w1"
    and target: "target_path E ticket_id att = Inr target"
    and nonempty: "files w1 target = Some b" "b \<noteq> []"
  shows "download_attachment E ticket_id comment_id att w1 = Returns (JStr p) w1"
proof -
  let ?base = "path_join (attachments_dir E) (str_of E (JInt ticket_id))"
  note f = download_attachment_Returns_path[OF first target]
  from f(3,6) have "ensure_dir E ?base w1 = Returns () w1"
    by (simp add: ensure_dir_def insert_absorb)
  from download_attachment_present[OF f(1,2) this target f(4) nonempty, of comment_id] f(5)
  show ?thesis by simp
qed

lemma target_path_shape:
  assumes "target_path E ticket_id att = Inr target"
  shows "\<exists>fname.
           safe_filename (py_or (dget att ''file_name'')
                            (JStr (''attachment_'' @ str_of E (dget att ''id'')))) = Inr fname
         \<and> target = attachments_dir E @ ''/'' @ str_of E (JInt ticket_id) @ ''/'' @
                    str_of E (dget att ''id'') @ ''__'' @ fname
         \<and> length fname \<le> 180 \<and> set fname \<inter> Collect illegal = {}"
proof -
  let ?n = "py_or (dget att ''file_name'') (JStr (''attachment_'' @ str_of E (dget att ''id'')))"
  from assms obtain fname where f: "safe_filename ?n = Inr fname"
    and t: "target = path_join (path_join (attachments_dir E) (str_of E (JInt ticket_id)))
                       (str_of E (dget att ''id'') @ ''__'' @ fname)"
    by (cases "safe_filename ?n") (auto simp: target_path_def Let_def)
  from f obtain s where "fname = take 180 (sub_runs False s)"
    by (cases "py_or ?n (JStr [])") (auto simp: safe_filename_def)
  then have "length fname \<le> 180" "set fname \<inter> Collect illegal = {}"
    by (auto dest: in_set_takeD sub_runs_legal)
  with f t show ?thesis by (simp add: path_join_def)
qed

lemma download_attachment_no_fetch:
  assumes on: "download_attachments E" "truthy (dget att ''content_url'')"
    and target: "target_path E ticket_id att = Inr target"
    and nonempty: "files w target = Some b" "b \<noteq> []"
  shows "\<exists>w'. world_of (download_attachment E ticket_id comment_id att w) = Some w'
            \<and> http_log w' = http_log w \<and> files w' = files w \<and> same_db w w'"
    and "mkdir_fails E (path_join (attachments_dir E) (str_of E (JInt ticket_id))) \<or> stat_fails E target
         \<Longrightarrow> raised (download_attachment E ticket_id comment_id att w) = Some OSError"
    and "\<not> mkdir_fails E (path_join (attachments_dir E) (str_of E (JInt ticket_id))) \<Longrightarrow>
         \<not> stat_fails E target \<Longrightarrow>
         \<exists>w'. download_attachment E ticket_id comment_id att w = Returns (JStr (resolve E target)) w'"
proof -
  let ?base = "path_join (attachments_dir E) (str_of E (JInt ticket_id))"
  let ?w0 = "w\<lparr>dirs := insert ?base (dirs w)\<rparr>"
  have a: "download_attachment E ticket_id comment_id att w =
           (if mkdir_fails E ?base then Raises OSError w
            else if stat_fails E target then Raises OSError ?w0
            else Returns (JStr (resolve E target)) ?w0)"
    using on target nonempty by (simp add: download_attachment_def Let_def ensure_dir_def)
  show "\<exists>w'. world_of (download_attachment E ticket_id comment_id att w) = Some w'
            \<and> http_log w' = http_log w \<and> files w' = files w \<and> same_db w w'"
    by (simp add: a world_of_def same_db_def)
  show "raised (download_attachment E ticket_id comment_id att w) = Some OSError"
    if "mkdir_fails E ?base \<or> stat_fails E target"
    using that by (auto simp: a raised_def)
  show "\<exists>w'. download_attachment E ticket_id comment_id att w = Returns (JStr (resolve E target)) w'"
    if "\<not> mkdir_fails E ?base" "\<not> stat_fails E target"
    using that by (simp add: a)
qed

text \<open>
  C9. With downloads disabled or no content URL the materializer returns \<^verbatim>\<open>None\<close>
  and the state is the state before. With a file that is not empty at the target path it
  makes no HTTP call and leaves the files and the store as they are, and it returns the
  resolved target path (unless the file system refuses the ticket's directory or the
  test of the target, which raises \<^verbatim>\<open>OSError\<close>). A second call after a first one
  that returned a path, with the file not empty, returns the same path in the same
  state. The target path is the attachments directory, the ticket id, and the attachment
  id, two underscores and the sanitized file name, which has at most 180 characters and
  none of the nine illegal ones.
\<close>

theorem download_attachment_idempotent:
  "(\<not> download_attachments E \<or> \<not> truthy (dget att ''content_url'') \<longrightarrow>
      download_attachment E ticket_id comment_id att w = Returns JNull w)
   \<and> (download_attachments E \<and> truthy (dget att ''content_url'')
        \<and> target_path E ticket_id att = Inr target \<and> files w target = Some b \<and> b \<noteq> [] \<longrightarrow>
      (\<exists>w'. world_of (download_attachment E ticket_id comment_id att w) = Some w'
            \<and> http_log w' = http_log w \<and> files w' = files w \<and> same_db w w')
      \<and> (if mkdir_fails E (path_join (attachments_dir E) (str_of E (JInt ticket_id)))
              \<or> stat_fails E target
          then raised (download_attachment E ticket_id comment_id att w) = Some OSError
          else \<exists>w'. download_attachment E ticket_id comment_id att w =
                       Returns (JStr (resolve E target)) w'))
   \<and> (download_attachment E ticket_id comment_id att w = Returns (JStr p) w1
        \<and> target_path E ticket_id att = Inr target \<and> files w1 target = Some b \<and> b \<noteq> [] \<longrightarrow>
      download_attachment E ticket_id comment_id att w1 = Returns (JStr p) w1)
   \<and> (target_path E ticket_id att = Inr target \<longrightarrow>
      (\<exists>fname.
           safe_filename (py_or (dget att ''file_name'')
                            (JStr (''attachment_'' @ str_of E (dget att ''id'')))) = Inr fname
         \<and> target = attachments_dir E @ ''/'' @ str_of E (JInt ticket_id) @ ''/'' @
                    str_of E (dget att ''id'') @ ''__'' @ fname
         \<and> length fname \<le> 180 \<and> set fname \<inter> Collect illegal = {}))"
proof (intro conjI impI)
  assume "\<not> download_attachments E \<or> \<not> truthy (dget att ''content_url'')"
  then show "download_attachment E ticket_id comment_id att w = Returns JNull w"
    by (rule download_attachment_disabled)
next
  assume a: "download_attachments E \<and> truthy (dget att ''content_url'')
        \<and> target_path E ticket_id att = Inr target \<and> files w target = Some b \<and> b \<noteq> []"
  then show "\<exists>w'. world_of (download_attachment E ticket_id comment_id att w) = Some w'
            \<and> http_log w' = http_log w \<and> files w' = files w \<and> same_db w w'"
    by (blast intro: download_attachment_no_fetch(1))
next
  assume a: "download_attachments E \<and> truthy (dget att ''content_url'')
        \<and> target_path E ticket_id att = Inr target \<and> files w target = Some b \<and> b \<noteq> []"
  then have on: "download_attachments E" "truthy (dget att ''content_url'')"
    and t: "target_path E ticket_id att = Inr target" and f: "files w target = Some b" "b \<noteq> []"
    by simp_all
  show "if mkdir_fails E (path_join (attachments_dir E) (str_of E (JInt ticket_id)))
              \<or> stat_fails E target
          then raised (download_attachment E ticket_id comment_id att w) = Some OSError
          else \<exists>w'. download_attachment E ticket_id comment_id att w =
                       Returns (JStr (resolve E target)) w'"
    using download_attachment_no_fetch(2,3)[OF on t f, of comment_id] by (simp split: if_splits)
next
  assume "download_attachment E ticket_id comment_id att w = Returns (JStr p) w1
        \<and> target_path E ticket_id att = Inr target \<and> files w1 target = Some b \<and> b \<noteq> []"
  then show "download_attachment E ticket_id comment_id att w1 = Returns (JStr p) w1"
    by (blast intro: download_attachment_again)
next
  assume "target_path E ticket_id att = Inr target"
  then show "\<exists>fname.
           safe_filename (py_or (dget att ''file_name'')
                            (JStr (''attachment_'' @ str_of E (dget att ''id'')))) = Inr fname
         \<and> target = attachments_dir E @ ''/'' @ str_of E (JInt ticket_id) @ ''/'' @
                    str_of E (dget att ''id'') @ ''__'' @ fname
         \<and> length fname \<le> 180 \<and> set fname \<inter> Collect illegal = {}"
    by (rule target_path_shape)
qed

lemma report_target:
  "target_path example_config 42 report_attachment = Inr ''./attachments/42/7__report_final.pdf''"
  by (simp add: target_path_def report_attachment_def example_config_def example_str_def dget_def
      safe_filename_def py_or_def path_join_def illegal_def Let_def)

lemma report_dir:
  "ensure_dir example_config (path_join (attachments_dir example_config) (str_of example_config (JInt 42))) w
     = Returns () (w\<lparr>dirs := insert ''./attachments/42'' (dirs w)\<rparr>)"
  by (simp add: ensure_dir_def example_config_def example_str_def path_join_def)

lemma report_first_call:
  "download_attachment (example_config\<lparr>server := file_server\<rparr>) 42 1 report_attachment empty_world =
     Returns (JStr ''/srv/./attachments/42/7__report_final.pdf'')
       (empty_world\<lparr>dirs := {''./attachments/42''},
                     http_log := [(''https://example.zendesk.com/attachments/7'', [], True)],
                     files := [''./attachments/42/7__report_final.pdf'' \<mapsto> ''abc'']\<rparr>)"
proof -
  let ?E = "example_config\<lparr>server := file_server\<rparr>"
  let ?w0 = "empty_world\<lparr>dirs := insert ''./attachments/42'' (dirs empty_world)\<rparr>"
  have t: "target_path ?E 42 report_attachment = Inr ''./attachments/42/7__report_final.pdf''"
    using report_target by (simp add: target_path_def)
  have u: "dget report_attachment ''content_url'' = JStr ''https://example.zendesk.com/attachments/7''"
    by (simp add: report_attachment_def dget_def)
  have d: "download_attachments ?E" by (simp add: example_config_def)
  have ed: "ensure_dir ?E (path_join (attachments_dir ?E) (str_of ?E (JInt 42))) empty_world
              = Returns () ?w0"
    using report_dir[of empty_world] by (simp add: ensure_dir_def)
  have st: "\<not> stat_fails ?E ''./attachments/42/7__report_final.pdf''"
    by (simp add: example_config_def)
  have r: "resolve example_config p = ''/srv/'' @ p" for p
    by (simp add: example_config_def)
  have tr: "transfer ?E (JStr ''https://example.zendesk.com/attachments/7'')
              ''./attachments/42/7__report_final.pdf'' ?w0 =
            Returns ()
              (empty_world\<lparr>dirs := {''./attachments/42''},
                     http_log := [(''https://example.zendesk.com/attachments/7'', [], True)],
                     files := [''./attachments/42/7__report_final.pdf'' \<mapsto> ''abc'']\<rparr>)"
    by (simp add: transfer_def get_with_retry_def eval_nat_numeral file_server_def Let_def
        example_config_def empty_world_def)
  have nf: "files empty_world ''./attachments/42/7__report_final.pdf'' = None \<or>
            files empty_world ''./attachments/42/7__report_final.pdf'' = Some []"
    by (simp add: empty_world_def)
  have tu: "truthy (dget report_attachment ''content_url'')" by (simp add: u)
  show ?thesis
    using download_attachment_transfer[OF d tu ed t st nf, of 1]
    by (simp add: u tr r)
qed

theorem download_attachment_idempotent_witness:
  "\<exists>w1. download_attachment (example_config\<lparr>server := file_server\<rparr>) 42 1 report_attachment empty_world
           = Returns (JStr ''/srv/./attachments/42/7__report_final.pdf'') w1
     \<and> files w1 ''./attachments/42/7__report_final.pdf'' = Some ''abc''
     \<and> download_attachment (example_config\<lparr>server := file_server\<rparr>) 42 1 report_attachment w1
           = Returns (JStr ''/srv/./attachments/42/7__report_final.pdf'') w1"
proof -
  let ?E = "example_config\<lparr>server := file_server\<rparr>"
  let ?w1 = "empty_world\<lparr>dirs := {''./attachments/42''},
                     http_log := [(''https://example.zendesk.com/attachments/7'', [], True)],
                     files := [''./attachments/42/7__report_final.pdf'' \<mapsto> ''abc'']\<rparr>"
  have t: "target_path ?E 42 report_attachment = Inr ''./attachments/42/7__report_final.pdf''"
    using report_target by (simp add: target_path_def)
  have f: "files ?w1 ''./attachments/42/7__report_final.pdf'' = Some ''abc''" by simp
  from download_attachment_idempotent[of ?E report_attachment 42 1 empty_world
      "''./attachments/42/7__report_final.pdf''" "''abc''"
      "''/srv/./attachments/42/7__report_final.pdf''" ?w1]
    report_first_call t f
  have "download_attachment ?E 42 1 report_attachment ?w1
           = Returns (JStr ''/srv/./attachments/42/7__report_final.pdf'') ?w1"
    by simp
  with report_first_call f show ?thesis by blast
qed

text \<open>
  C8. Take an attachment for which the transfer is attempted: downloads are enabled, the
  attachment has a content URL, the ticket's directory is created, the target path is
  computed and tested, and no file with content is at the target. If the transfer fails,
  with whatever exception (of the fetch, of opening the file, of the stream), the
  materializer returns \<^verbatim>\<open>None\<close> and raises nothing; the body of the loop over
  the attachments then upserts the attachment row with the local path \<^verbatim>\<open>NULL\<close>
  and returns, and the loop goes on with the attachments that follow. The materializer
  always ends. Against the claim, and against its own docstring (\<^verbatim>\<open>None\<close> on
  failure), it does not absorb what stands before its \<^verbatim>\<open>try\<close>: it raises
  \<^verbatim>\<open>OSError\<close> when the file system refuses the ticket's directory or the test of
  the target, \<^verbatim>\<open>TypeError\<close> when the declared file name is truthy and not a
  string, and nothing else. Such an exception ends the loop over the attachments with
  the exception.
\<close>

theorem transfer_failure_absorbed:
  "(int_id E t = Inr ticket_id \<and> py_int E (py_or (dget c ''id'') (JInt 0)) = Inr comment_id
      \<and> download_attachments E \<and> truthy (dget a ''content_url'')
      \<and> ensure_dir E (path_join (attachments_dir E) (str_of E (JInt ticket_id))) w = Returns () w1
      \<and> target_path E ticket_id a = Inr target \<and> \<not> stat_fails E target
      \<and> (files w target = None \<or> files w target = Some [])
      \<and> transfer E (dget a ''content_url'') target w1 = Raises e w2
      \<and> sql_bigint (dget a ''id'') = Some k \<longrightarrow>
      download_attachment E ticket_id comment_id a w = Returns JNull w2
      \<and> (\<exists>w3. sync_attachment E t c (JObj a) w = Returns () w3
            \<and> attachments w3 k = Some (attachment_values E ticket_id comment_id a JNull)
            \<and> a_local_path (attachment_values E ticket_id comment_id a JNull) = JNull
            \<and> for_each (sync_attachment E t c) (JObj a # rest) w =
                for_each (sync_attachment E t c) rest w3))
   \<and> download_attachment E ticket_id comment_id a w \<noteq> Runaway
   \<and> (download_attachment E ticket_id comment_id a w = Raises x w' \<longleftrightarrow>
        download_attachments E \<and> truthy (dget a ''content_url'')
        \<and> (mkdir_fails E (path_join (attachments_dir E) (str_of E (JInt ticket_id)))
             \<and> x = OSError \<and> w' = w
           \<or> \<not> mkdir_fails E (path_join (attachments_dir E) (str_of E (JInt ticket_id)))
             \<and> w' = w\<lparr>dirs := insert (path_join (attachments_dir E) (str_of E (JInt ticket_id))) (dirs w)\<rparr>
             \<and> (x = TypeError \<and> truthy (dget a ''file_name'') \<and> (\<forall>s. dget a ''file_name'' \<noteq> JStr s)
                 \<or> (\<exists>target. target_path E ticket_id a = Inr target \<and> stat_fails E target
                       \<and> x = OSError))))
   \<and> (int_id E t = Inr ticket_id \<and> py_int E (py_or (dget c ''id'') (JInt 0)) = Inr comment_id
      \<and> download_attachment E ticket_id comment_id a w = Raises x w' \<longrightarrow>
      for_each (sync_attachment E t c) (JObj a # rest) w = Raises x w')"
proof (intro conjI impI; (elim conjE)?)
  assume i: "int_id E t = Inr ticket_id"
    and c: "py_int E (py_or (dget c ''id'') (JInt 0)) = Inr comment_id"
    and on: "download_attachments E" "truthy (dget a ''content_url'')"
    and ed: "ensure_dir E (path_join (attachments_dir E) (str_of E (JInt ticket_id))) w = Returns () w1"
    and t: "target_path E ticket_id a = Inr target" and st: "\<not> stat_fails E target"
    and nf: "files w target = None \<or> files w target = Some []"
    and tr: "transfer E (dget a ''content_url'') target w1 = Raises e w2"
    and k: "sql_bigint (dget a ''id'') = Some k"
  show d: "download_attachment E ticket_id comment_id a w = Returns JNull w2"
    using download_attachment_transfer[OF on ed t st nf, of comment_id] tr by simp
  have s: "sync_attachment E t c (JObj a) w = upsert_attachment E ticket_id comment_id a JNull w2"
    by (simp add: sync_attachment_def i c on_dict_def d)
  obtain w3 where w3: "upsert_attachment E ticket_id comment_id a JNull w2 = Returns () w3"
    and row: "attachments w3 k = Some (attachment_values E ticket_id comment_id a JNull)"
    by (simp add: upsert_attachment_eq k)
  have "a_local_path (attachment_values E ticket_id comment_id a JNull) = JNull"
    by (simp add: attachment_values_def)
  then show "\<exists>w3. sync_attachment E t c (JObj a) w = Returns () w3
            \<and> attachments w3 k = Some (attachment_values E ticket_id comment_id a JNull)
            \<and> a_local_path (attachment_values E ticket_id comment_id a JNull) = JNull
            \<and> for_each (sync_attachment E t c) (JObj a # rest) w =
                for_each (sync_attachment E t c) rest w3"
    using s w3 row by simp
next
  show "download_attachment E ticket_id comment_id a w \<noteq> Runaway"
    by (rule download_attachment_not_runaway)
next
  show "download_attachment E ticket_id comment_id a w = Raises x w' \<longleftrightarrow>
        download_attachments E \<and> truthy (dget a ''content_url'')
        \<and> (mkdir_fails E (path_join (attachments_dir E) (str_of E (JInt ticket_id)))
             \<and> x = OSError \<and> w' = w
           \<or> \<not> mkdir_fails E (path_join (attachments_dir E) (str_of E (JInt ticket_id)))
             \<and> w' = w\<lparr>dirs := insert (path_join (attachments_dir E) (str_of E (JInt ticket_id))) (dirs w)\<rparr>
             \<and> (x = TypeError \<and> truthy (dget a ''file_name'') \<and> (\<forall>s. dget a ''file_name'' \<noteq> JStr s)
                 \<or> (\<exists>target. target_path E ticket_id a = Inr target \<and> stat_fails E target
                       \<and> x = OSError)))"
    unfolding download_attachment_Raises target_path_Inl ..
next
  assume "int_id E t = Inr ticket_id" "py_int E (py_or (dget c ''id'') (JInt 0)) = Inr comment_id"
    "download_attachment E ticket_id comment_id a w = Raises x w'"
  then show "for_each (sync_attachment E t c) (JObj a # rest) w = Raises x w'"
    by (simp add: sync_attachment_def on_dict_def)
qed

theorem transfer_failure_absorbed_witness:
  "\<exists>w3. sync_attachment example_config [(''id'', JInt 42)] [(''id'', JInt 1)]
           (JObj report_attachment) empty_world = Returns () w3
     \<and> attachments w3 7 = Some (attachment_values example_config 42 1 report_attachment JNull)
     \<and> http_log w3 = [(''https://example.zendesk.com/attachments/7'', [], True)]"
proof -
  let ?w1 = "empty_world\<lparr>dirs := insert ''./attachments/42'' (dirs empty_world)\<rparr>"
  let ?w2 = "?w1\<lparr>http_log := [(''https://example.zendesk.com/attachments/7'', [], True)]\<rparr>"
  have i: "int_id example_config [(''id'', JInt 42)] = Inr 42"
    by (simp add: int_id_def dindex_def py_int_def)
  have c: "py_int example_config (py_or (dget [(''id'', JInt 1)] ''id'') (JInt 0)) = Inr 1"
    by (simp add: py_int_def py_or_def dget_def)
  have d: "download_attachments example_config" by (simp add: example_config_def)
  have st: "\<not> stat_fails example_config ''./attachments/42/7__report_final.pdf''"
    by (simp add: example_config_def)
  have u: "dget report_attachment ''content_url'' = JStr ''https://example.zendesk.com/attachments/7''"
    by (simp add: report_attachment_def dget_def)
  have tu: "truthy (dget report_attachment ''content_url'')" by (simp add: u)
  have nf: "files empty_world ''./attachments/42/7__report_final.pdf'' = None \<or>
            files empty_world ''./attachments/42/7__report_final.pdf'' = Some []"
    by (simp add: empty_world_def)
  have tr: "transfer example_config (dget report_attachment ''content_url'')
              ''./attachments/42/7__report_final.pdf'' ?w1 = Raises ConnectionError ?w2"
    by (simp add: u transfer_def get_with_retry_def eval_nat_numeral example_config_def Let_def
        empty_world_def)
  have k: "sql_bigint (dget report_attachment ''id'') = Some 7"
    by (simp add: report_attachment_def dget_def sql_bigint_def in_bigint_def)
  from transfer_failure_absorbed[where E = example_config and t = "[(''id'', JInt 42)]"
      and ticket_id = 42 and c = "[(''id'', JInt 1)]" and comment_id = 1 and a = report_attachment
      and w = empty_world and ?w1.0 = ?w1 and target = "''./attachments/42/7__report_final.pdf''"
      and e = ConnectionError and ?w2.0 = ?w2 and k = 7, THEN conjunct1]
    i c d tu report_dir[of empty_world] report_target st nf tr k
  obtain w3 where w3: "sync_attachment example_config [(''id'', JInt 42)] [(''id'', JInt 1)]
           (JObj report_attachment) empty_world = Returns () w3"
    and row: "attachments w3 7 = Some (attachment_values example_config 42 1 report_attachment JNull)"
    by blast
  have "sync_attachment example_config [(''id'', JInt 42)] [(''id'', JInt 1)]
           (JObj report_attachment) empty_world =
        upsert_attachment example_config 42 1 report_attachment JNull ?w2"
    using download_attachment_transfer[OF d tu report_dir[of empty_world] report_target st nf, of 1] tr
    by (simp add: sync_attachment_def i c on_dict_def)
  with w3 have "http_log w3 = [(''https://example.zendesk.com/attachments/7'', [], True)]"
    by (auto simp: upsert_attachment_eq k)
  with w3 row show ?thesis by blast
qed


subsection \<open>Relations between the state before and after\<close>








lemma same_checkpoints_refl: "reflp same_checkpoints"
  by (simp add: reflp_def same_checkpoints_def)

lemma same_checkpoints_trans: "transp same_checkpoints"
  by (simp add: transp_def same_checkpoints_def)

lemma same_checkpoints_db: "same_db w w' \<Longrightarrow> same_checkpoints w w'"
  by (simp add: same_checkpoints_def same_db_fields)



lemma same_checkpoints_io: "only_io w w' \<Longrightarrow> same_checkpoints w w'"
  by (simp add: same_checkpoints_db only_io_db)

text \<open>The operations of the persistence layer under the three relations.\<close>

lemma set_cursor_val_eq:
  "set_cursor_val E resource token w =
     (case sql_varchar E 255 token of
        None \<Rightarrow> Raises StoreError w
      | Some s \<Rightarrow> Returns () (w\<lparr>sync_state := (sync_state w)(resource \<mapsto> s)\<rparr>))"
  by (simp add: set_cursor_val_def insert_on_dup_overwrite split: option.splits)












lemma upsert_comment_same_checkpoints: "keeps same_checkpoints w (upsert_comment E ticket_id x w)"
  by (simp add: upsert_comment_eq same_checkpoints_def split: option.splits)

lemma upsert_attachment_same_checkpoints:
  "keeps same_checkpoints w (upsert_attachment E ticket_id comment_id x local_path w)"
  by (simp add: upsert_attachment_eq same_checkpoints_def split: option.splits)






subsection \<open>The coordinators under a relation\<close>

text \<open>
  For a reflexive and transitive relation that holds between states with the same
  tables, a loop keeps the relation when the upserts in its body do.
\<close>

lemma get_page_keeps:
  assumes "\<And>w w'. only_io w w' \<Longrightarrow> R w w'"
  shows "keeps R w (get_page E url params w)"
  by (rule keeps_weaken[OF get_page_only_io]) (simp add: assms)

lemma download_attachment_keeps:
  assumes "\<And>w w'. only_io w w' \<Longrightarrow> R w w'"
  shows "keeps R w (download_attachment E ticket_id comment_id att w)"
  by (rule keeps_weaken[OF download_attachment_only_io]) (simp add: assms)

lemma next_page_keeps:
  assumes "reflp R" "transp R" "\<And>w w'. only_io w w' \<Longrightarrow> R w w'"
  shows "keeps R w (iter_cursor_page_next E page w)" "keeps R w (iter_list_pages_next E page w)"
proof -
  have step: "keeps R w1 (if \<not> truthy u then Returns None w1
                else and_then (get_page E u [] w1) (\<lambda>p. Returns (Some p)))" for u w1
    by (auto intro!: keeps_and_then[OF assms(2)] get_page_keeps assms(3)
        simp: reflpD[OF assms(1)])
  show "keeps R w (iter_cursor_page_next E page w)"
    unfolding iter_cursor_page_next_def
    by (rule keeps_and_then[OF assms(2) keeps_lift[OF assms(1)]]) (rule step)
  show "keeps R w (iter_list_pages_next E page w)"
    unfolding iter_list_pages_next_def
    by (rule keeps_and_then[OF assms(2) keeps_lift[OF assms(1)]]) (rule step)
qed




lemma and_then_Returns:
  "and_then m f = Returns b w' \<longleftrightarrow> (\<exists>a w1. m = Returns a w1 \<and> f a w1 = Returns b w')"
  by (cases m) simp_all


subsection \<open>The ticket coordinator\<close>






subsection \<open>The other coordinators\<close>








lemma sync_child_event_keeps:
  assumes r: "reflp R" and t: "transp R" and db: "\<And>w w'. only_io w w' \<Longrightarrow> R w w'"
    and com: "\<And>tid x w. keeps R w (upsert_comment E tid x w)"
    and att: "\<And>tid cid ad lp w. keeps R w (upsert_attachment E tid cid ad lp w)"
  shows "keeps R w (sync_child_event E tid ce w)"
  unfolding sync_child_event_def Let_def
  by (auto intro!: keeps_and_then[OF t] keeps_lift[OF r] keeps_for_each[OF r t]
      keeps_on_dict[OF r] download_attachment_keeps db com att simp: reflpD[OF r])

lemma sync_event_keeps:
  assumes r: "reflp R" and t: "transp R" and db: "\<And>w w'. only_io w w' \<Longrightarrow> R w w'"
    and com: "\<And>tid x w. keeps R w (upsert_comment E tid x w)"
    and att: "\<And>tid cid ad lp w. keeps R w (upsert_attachment E tid cid ad lp w)"
  shows "keeps R w (sync_event E ev w)"
  unfolding sync_event_def
  by (auto intro!: keeps_and_then[OF t] keeps_lift[OF r] keeps_for_each[OF r t]
      keeps_on_dict[OF r] get_page_keeps db sync_child_event_keeps[OF r t db com att]
      simp: reflpD[OF r])

lemma sync_ticket_events_page_keeps:
  assumes r: "reflp R" and t: "transp R" and db: "\<And>w w'. only_io w w' \<Longrightarrow> R w w'"
    and com: "\<And>tid x w. keeps R w (upsert_comment E tid x w)"
    and att: "\<And>tid cid ad lp w. keeps R w (upsert_attachment E tid cid ad lp w)"
  shows "keeps R w (sync_ticket_events_page E page w)"
  unfolding sync_ticket_events_page_def
  by (intro keeps_and_then[OF t] keeps_lift[OF r] keeps_for_each[OF r t] keeps_on_dict[OF r]
      sync_event_keeps[OF r t db com att])




text \<open>The snapshot coordinators and the whole run.\<close>

lemma upsert_view_same_checkpoints: "keeps same_checkpoints w (upsert_view E x w)"
  by (simp add: upsert_view_eq same_checkpoints_def split: option.splits)

lemma upsert_trigger_same_checkpoints: "keeps same_checkpoints w (upsert_trigger E x w)"
  by (simp add: upsert_trigger_eq same_checkpoints_def split: option.splits)

lemma upsert_macro_same_checkpoints: "keeps same_checkpoints w (upsert_macro E x w)"
  by (simp add: upsert_macro_eq same_checkpoints_def split: option.splits)

lemma upsert_trigger_category_same_checkpoints:
  "keeps same_checkpoints w (upsert_trigger_category E x w)"
  by (simp add: upsert_trigger_category_eq same_checkpoints_def Let_def split: sum.splits)

lemma sync_views_pages_keeps:
  assumes r: "reflp R" and t: "transp R" and db: "\<And>w w'. only_io w w' \<Longrightarrow> R w w'"
    and up: "\<And>x w. keeps R w (upsert_view E x w)"
  shows "keeps R w (sync_views_pages E n page w)"
proof (induction n arbitrary: page w)
  case 0
  then show ?case by simp
next
  case (Suc n)
  have last: "keeps R w3 (case nxt of None \<Rightarrow> Returns () w3
                                    | Some p \<Rightarrow> sync_views_pages E n p w3)" for nxt w3
    by (cases nxt) (simp_all add: reflpD[OF r] Suc.IH)
  show ?case
    unfolding sync_views_pages.simps
    by (intro keeps_and_then[OF t] keeps_lift[OF r] keeps_for_each[OF r t] keeps_on_dict[OF r]
        up next_page_keeps[OF r t db] last)
qed

lemma sync_views_keeps:
  assumes r: "reflp R" and t: "transp R" and db: "\<And>w w'. only_io w w' \<Longrightarrow> R w w'"
    and up: "\<And>x w. keeps R w (upsert_view E x w)"
  shows "keeps R w (sync_views E fuel w)"
  unfolding sync_views_def Let_def
  by (intro keeps_and_then[OF t] get_page_keeps db sync_views_pages_keeps[OF r t db up])

lemma sync_triggers_pages_keeps:
  assumes r: "reflp R" and t: "transp R" and db: "\<And>w w'. only_io w w' \<Longrightarrow> R w w'"
    and up: "\<And>x w. keeps R w (upsert_trigger E x w)"
  shows "keeps R w (sync_triggers_pages E n page w)"
proof (induction n arbitrary: page w)
  case 0
  then show ?case by simp
next
  case (Suc n)
  have last: "keeps R w3 (case nxt of None \<Rightarrow> Returns () w3
                                    | Some p \<Rightarrow> sync_triggers_pages E n p w3)" for nxt w3
    by (cases nxt) (simp_all add: reflpD[OF r] Suc.IH)
  show ?case
    unfolding sync_triggers_pages.simps
    by (intro keeps_and_then[OF t] keeps_lift[OF r] keeps_for_each[OF r t] keeps_on_dict[OF r]
        up next_page_keeps[OF r t db] last)
qed

lemma sync_triggers_keeps:
  assumes r: "reflp R" and t: "transp R" and db: "\<And>w w'. only_io w w' \<Longrightarrow> R w w'"
    and up: "\<And>x w. keeps R w (upsert_trigger E x w)"
  shows "keeps R w (sync_triggers E fuel w)"
  unfolding sync_triggers_def Let_def
  by (intro keeps_and_then[OF t] get_page_keeps db sync_triggers_pages_keeps[OF r t db up])

lemma sync_trigger_categories_pages_keeps:
  assumes r: "reflp R" and t: "transp R" and db: "\<And>w w'. only_io w w' \<Longrightarrow> R w w'"
    and up: "\<And>x w. keeps R w (upsert_trigger_category E x w)"
  shows "keeps R w (sync_trigger_categories_pages E n page w)"
proof (induction n arbitrary: page w)
  case 0
  then show ?case by simp
next
  case (Suc n)
  have last: "keeps R w3 (case nxt of None \<Rightarrow> Returns () w3
                                    | Some p \<Rightarrow> sync_trigger_categories_pages E n p w3)" for nxt w3
    by (cases nxt) (simp_all add: reflpD[OF r] Suc.IH)
  show ?case
    unfolding sync_trigger_categories_pages.simps
    by (intro keeps_and_then[OF t] keeps_lift[OF r] keeps_for_each[OF r t] keeps_on_dict[OF r]
        up next_page_keeps[OF r t db] last)
qed

lemma sync_trigger_categories_keeps:
  assumes r: "reflp R" and t: "transp R" and db: "\<And>w w'. only_io w w' \<Longrightarrow> R w w'"
    and up: "\<And>x w. keeps R w (upsert_trigger_category E x w)"
  shows "keeps R w (sync_trigger_categories E fuel w)"
  unfolding sync_trigger_categories_def Let_def
  by (intro keeps_and_then[OF t] get_page_keeps db sync_trigger_categories_pages_keeps[OF r t db up])

lemma sync_macros_pages_keeps:
  assumes r: "reflp R" and t: "transp R" and db: "\<And>w w'. only_io w w' \<Longrightarrow> R w w'"
    and up: "\<And>x w. keeps R w (upsert_macro E x w)"
  shows "keeps R w (sync_macros_pages E n page w)"
proof (induction n arbitrary: page w)
  case 0
  then show ?case by simp
next
  case (Suc n)
  have last: "keeps R w3 (case nxt of None \<Rightarrow> Returns () w3
                                    | Some p \<Rightarrow> sync_macros_pages E n p w3)" for nxt w3
    by (cases nxt) (simp_all add: reflpD[OF r] Suc.IH)
  show ?case
    unfolding sync_macros_pages.simps
    by (intro keeps_and_then[OF t] keeps_lift[OF r] keeps_for_each[OF r t] keeps_on_dict[OF r]
        up next_page_keeps[OF r t db] last)
qed

lemma sync_macros_keeps:
  assumes r: "reflp R" and t: "transp R" and db: "\<And>w w'. only_io w w' \<Longrightarrow> R w w'"
    and up: "\<And>x w. keeps R w (upsert_macro E x w)"
  shows "keeps R w (sync_macros E fuel w)"
  unfolding sync_macros_def Let_def
  by (intro keeps_and_then[OF t] get_page_keeps db sync_macros_pages_keeps[OF r t db up])


lemma snapshots_same_checkpoints:
  "keeps same_checkpoints w (sync_views E fuel w)"
  "keeps same_checkpoints w (sync_triggers E fuel w)"
  "keeps same_checkpoints w (sync_trigger_categories E fuel w)"
  "keeps same_checkpoints w (sync_macros E fuel w)"
  by (rule sync_views_keeps sync_triggers_keeps sync_trigger_categories_keeps sync_macros_keeps;
      (rule same_checkpoints_refl same_checkpoints_trans upsert_view_same_checkpoints
         upsert_trigger_same_checkpoints upsert_trigger_category_same_checkpoints
         upsert_macro_same_checkpoints | simp add: same_checkpoints_io))+




subsection \<open>Pruning\<close>






































lemma get_page_ok:
  assumes "server E (length (http_log w)) (u, ps, False) = Reply resp" "status_code resp = 200"
    "json_body resp = Some (JObj d)"
  shows "get_page E (JStr u) ps w = Returns d (w\<lparr>http_log := http_log w @ [(u, ps, False)]\<rparr>)"
  using assms by (simp add: get_page_def get_with_retry_def eval_nat_numeral Let_def)


lemma status_closed: "ticket_status [(''id'', JInt i), (''status'', JStr ''closed'')] = Inr ''closed''"
  by (simp add: ticket_status_def py_or_def dget_def lower_char_def)

lemma int_id_JInt: "int_id E ((''id'', JInt i) # rest) = Inr i"
  by (simp add: int_id_def dindex_def py_int_def)













subsection \<open>Materialization failures that end the run\<close>

lemma attachment_run:
  assumes srv: "server E = attachment_server att"
    and zb: "z_base E = ''https://example.zendesk.com''"
    and co: "\<not> closed_tickets_only E" and ev: "\<not> use_ticket_events_for_comments E"
    and st: "str_of E = example_str"
    and dl: "\<And>w. download_attachment E 42 1 att w = Raises e (g w)"
  shows "\<exists>w'. sync_tickets_comments_attachments E 2 empty_world = Raises e w'"
proof -
  let ?t = "[(''id'', JInt 42), (''status'', JStr ''closed'')]"
  let ?c = "[(''id'', JInt 1), (''attachments'', JArr [JObj att])]"
  let ?page = "[(''tickets'', JArr [JObj ?t]), (''end_of_stream'', JBool True)]"
  let ?cpage = "[(''comments'', JArr [JObj ?c])]"
  let ?curl = "''https://example.zendesk.com/api/v2/tickets/42/comments.json''"
  have s42: "str_of E (JInt 42) = ''42''" by (simp add: st example_str_def)
  have first: "get_page E (JStr u) ps empty_world =
               Returns ?page (empty_world\<lparr>http_log := [(u, ps, False)]\<rparr>)" for u ps
    using get_page_ok[of E empty_world u ps "response 200 None (Some (JObj ?page)) []" ?page]
    by (simp add: srv attachment_server_def json_reply_def response_def empty_world_def)
  have up: "\<exists>w1. upsert_ticket E ?t w = Returns () w1 \<and> http_log w1 = http_log w" for w
    by (simp add: upsert_ticket_eq dget_def sql_bigint_def in_bigint_def)
  have cp: "get_page E (JStr ?curl) [(''per_page'', JInt 100)] w =
            Returns ?cpage
              (w\<lparr>http_log := http_log w @ [(?curl, [(''per_page'', JInt 100)], False)]\<rparr>)"
    if "http_log w \<noteq> []" for w
    by (rule get_page_ok[where resp = "response 200 None (Some (JObj ?cpage)) []"])
       (use that in \<open>simp_all add: srv attachment_server_def json_reply_def response_def\<close>)
  have uc: "\<exists>w1. upsert_comment E 42 ?c w = Returns () w1" for w
    by (simp add: upsert_comment_eq dget_def sql_bigint_def in_bigint_def)
  have sa: "sync_attachment E ?t ?c (JObj att) w = Raises e (g w)" for w
    by (simp add: sync_attachment_def int_id_JInt py_int_def py_or_def dget_def on_dict_def dl)
  have sc: "\<exists>w1. sync_comment E ?t (JObj ?c) w = Raises e w1" for w
  proof -
    from uc[of w] obtain w1 where "upsert_comment E 42 ?c w = Returns () w1" by blast
    then show ?thesis
      by (simp add: sync_comment_def int_id_JInt on_dict_def as_dict_def py_iter_def py_or_def
          dget_def sa)
  qed
  have pages: "\<exists>w1. sync_comment_pages E (Suc n) ?t ?cpage w = Raises e w1" for w n
  proof -
    from sc[of w] obtain w1 where "sync_comment E ?t (JObj ?c) w = Raises e w1" by blast
    then show ?thesis by (simp add: py_iter_def dget_default_def)
  qed
  have tk: "\<exists>w1. sync_ticket E (Suc n) ?t w = Raises e w1" if "http_log w \<noteq> []" for w n
  proof -
    from up[of w] obtain w1 where w1: "upsert_ticket E ?t w = Returns () w1"
      and l: "http_log w1 = http_log w" by blast
    from l that have "http_log w1 \<noteq> []" by simp
    note c = cp[OF this]
    from pages obtain w2 where "sync_comment_pages E (Suc n) ?t ?cpage
        (w1\<lparr>http_log := http_log w1 @ [(?curl, [(''per_page'', JInt 100)], False)]\<rparr>) = Raises e w2"
      by blast
    then show ?thesis
      by (simp add: sync_ticket_def status_closed co ev w1 dindex_def zb s42 c
          del: sync_comment_pages.simps)
  qed
  from tk[of "empty_world\<lparr>http_log := [(u, ps, False)]\<rparr>" 1 for u ps]
  have "\<exists>w1. sync_ticket E 2 ?t (empty_world\<lparr>http_log := [(u, ps, False)]\<rparr>) = Raises e w1" for u ps
    by (simp add: eval_nat_numeral)
  then obtain w1 where "sync_ticket E 2 ?t
      (empty_world\<lparr>http_log := [(z_base E @ ''/api/v2/incremental/tickets/cursor.json'',
          ticket_initial_params E (get_cursor_val empty_world ''tickets''), False)]\<rparr>) = Raises e w1"
    by blast
  then show ?thesis
    by (simp add: sync_tickets_comments_attachments_def first eval_nat_numeral
        sync_tickets_page_def py_iter_def dget_default_def on_dict_def)
qed

lemma odd_raises:
  "download_attachment (example_config\<lparr>server := attachment_server odd_attachment\<rparr>) 42 1 odd_attachment w
     = Raises TypeError (w\<lparr>dirs := insert ''./attachments/42'' (dirs w)\<rparr>)"
  by (simp add: download_attachment_def example_config_def odd_attachment_def dget_def Let_def
      ensure_dir_def target_path_def safe_filename_def py_or_def path_join_def example_str_def)

lemma refused_raises:
  "download_attachment (example_config\<lparr>mkdir_fails := (\<lambda>p. p = ''./attachments/42''),
       server := attachment_server report_attachment\<rparr>) 42 1 report_attachment w
     = Raises OSError w"
  by (simp add: download_attachment_def example_config_def report_attachment_def dget_def Let_def
      ensure_dir_def path_join_def example_str_def)

text \<open>
  What the materializer raises before its \<^verbatim>\<open>try\<close> ends the run. A closed ticket
  has one comment with one attachment. With the file name \<^verbatim>\<open>report:final.pdf\<close> and
  a file system that refuses the ticket's directory the run of the ticket coordinator
  ends with \<^verbatim>\<open>OSError\<close>; with a declared file name that is the number 5 it ends
  with \<^verbatim>\<open>TypeError\<close>.
\<close>

theorem transfer_failure_absorbed_counterexample:
  "raised (sync_tickets_comments_attachments
            (example_config\<lparr>mkdir_fails := (\<lambda>p. p = ''./attachments/42''),
                            server := attachment_server report_attachment\<rparr>) 2 empty_world)
     = Some OSError
   \<and> raised (sync_tickets_comments_attachments
            (example_config\<lparr>server := attachment_server odd_attachment\<rparr>) 2 empty_world)
     = Some TypeError"
proof -
  have "\<exists>w'. sync_tickets_comments_attachments
            (example_config\<lparr>server := attachment_server odd_attachment\<rparr>) 2 empty_world
          = Raises TypeError w'"
    by (rule attachment_run[OF _ _ _ _ _ odd_raises]) (simp_all add: example_config_def)
  moreover have "\<exists>w'. sync_tickets_comments_attachments
            (example_config\<lparr>mkdir_fails := (\<lambda>p. p = ''./attachments/42''),
                            server := attachment_server report_attachment\<rparr>) 2 empty_world
          = Raises OSError w'"
    by (rule attachment_run[OF _ _ _ _ _ refused_raises]) (simp_all add: example_config_def)
  ultimately show ?thesis by (auto simp: raised_def)
qed


subsection \<open>The user coordinator\<close>

lemma users_for_each_ok:
  assumes "\<forall>u\<in>set us. has_key u"
  shows "\<exists>w'. for_each (on_dict (upsert_user E)) us w = Returns () w'
           \<and> sync_state w' = sync_state w \<and> http_log w' = http_log w"
  using assms
proof (induction us arbitrary: w)
  case Nil
  then show ?case by simp
next
  case (Cons u us)
  from Cons.prems obtain d k where u: "u = JObj d" and k: "sql_bigint (dget d ''id'') = Some k"
    by (cases u) (auto simp: has_key_def)
  let ?w1 = "w\<lparr>users := (users w)(k \<mapsto> user_values E d),
               raw_snapshots := (raw_snapshots w)((''users'', k) \<mapsto>
                 \<lparr>raw_updated_at = parse_dt E (dget d ''updated_at''), payload_json = d\<rparr>)\<rparr>"
  have "on_dict (upsert_user E) u w = Returns () ?w1"
    by (simp add: on_dict_def u upsert_user_eq k)
  moreover from Cons.IH[of ?w1] Cons.prems obtain w' where
    "for_each (on_dict (upsert_user E)) us ?w1 = Returns () w'"
    "sync_state w' = sync_state ?w1" "http_log w' = http_log ?w1" by auto
  ultimately show ?case by simp
qed

lemma sync_users_page_ok:
  assumes "dget_default page ''users'' (JArr []) = JArr us" "\<forall>u\<in>set us. has_key u"
  shows "\<exists>w'. sync_state w' = sync_state w \<and> http_log w' = http_log w
           \<and> sync_users_page E page w =
               (if truthy (dget page ''after_cursor'')
                then set_cursor_val E ''users'' (dget page ''after_cursor'') w'
                else Returns () w')"
proof -
  from users_for_each_ok[OF assms(2), of E w] obtain w' where
    "for_each (on_dict (upsert_user E)) us w = Returns () w'"
    "sync_state w' = sync_state w" "http_log w' = http_log w" by blast
  then show ?thesis by (auto simp: sync_users_page_def assms(1) py_iter_def Let_def)
qed

lemma users_two_pages:
  assumes nock: "sync_state w ''users'' = None"
    and r1: "server E (length (http_log w))
               (z_base E @ ''/api/v2/incremental/users/cursor.json'',
                [(''per_page'', JInt (per_page E)), (''start_time'', JInt (initial_start_time_epoch E))],
                False) = Reply resp1"
      "status_code resp1 = 200" "json_body resp1 = Some (JObj page1)"
    and p1: "dget_default page1 ''users'' (JArr []) = JArr us1" "\<forall>u\<in>set us1. has_key u"
      "dget page1 ''after_cursor'' = JStr ''C1''" "\<not> truthy (dget page1 ''end_of_stream'')"
      "dget page1 ''after_url'' = JStr u2" "u2 \<noteq> []"
    and r2: "server E (Suc (length (http_log w))) (u2, [], False) = Reply resp2"
      "status_code resp2 = 200" "json_body resp2 = Some (JObj page2)"
    and p2: "dget_default page2 ''users'' (JArr []) = JArr us2" "\<forall>u\<in>set us2. has_key u"
      "truthy (dget page2 ''end_of_stream'')"
      "if truthy (dget page2 ''after_cursor'')
       then sql_varchar E 255 (dget page2 ''after_cursor'') = Some c2 else c2 = ''C1''"
    and fuel: "2 \<le> fuel"
  shows "\<exists>w1 w'.
           sync_users_page E page1
             (w\<lparr>http_log := http_log w @
                [(z_base E @ ''/api/v2/incremental/users/cursor.json'',
                  [(''per_page'', JInt (per_page E)),
                   (''start_time'', JInt (initial_start_time_epoch E))], False)]\<rparr>) = Returns () w1
         \<and> sync_state w1 ''users'' = Some ''C1''
         \<and> sync_users E fuel w = Returns () w' \<and> sync_state w' ''users'' = Some c2"
proof -
  let ?url = "z_base E @ ''/api/v2/incremental/users/cursor.json''"
  let ?ps = "[(''per_page'', JInt (per_page E)), (''start_time'', JInt (initial_start_time_epoch E))]"
  let ?w0 = "w\<lparr>http_log := http_log w @ [(?url, ?ps, False)]\<rparr>"
  obtain n where n: "fuel = Suc (Suc n)" using fuel by (cases fuel; cases "fuel - 1") auto
  have first: "get_page E (JStr ?url) ?ps w = Returns page1 ?w0"
    by (rule get_page_ok[OF r1])
  from sync_users_page_ok[OF p1(1,2), of ?w0 E] obtain wa where
    wa: "sync_state wa = sync_state ?w0" "http_log wa = http_log ?w0"
    and pa: "sync_users_page E page1 ?w0 = set_cursor_val E ''users'' (JStr ''C1'') wa"
    by (auto simp: p1(3))
  let ?w1 = "wa\<lparr>sync_state := (sync_state wa)(''users'' \<mapsto> ''C1'')\<rparr>"
  have pg1: "sync_users_page E page1 ?w0 = Returns () ?w1"
    by (simp add: pa set_cursor_val_eq sql_varchar_def)
  define w1 where "w1 = wa\<lparr>sync_state := (sync_state wa)(''users'' \<mapsto> ''C1'')\<rparr>"
  have w1: "sync_state w1 ''users'' = Some ''C1''" "http_log w1 = http_log ?w0"
    by (simp_all add: w1_def wa)
  from pg1 have pg1': "sync_users_page E page1 ?w0 = Returns () w1" by (simp add: w1_def)
  define w2 where "w2 = w1\<lparr>http_log := http_log w1 @ [(u2, [], False)]\<rparr>"
  have w2: "sync_state w2 ''users'' = Some ''C1''" by (simp add: w2_def w1)
  have "get_page E (JStr u2) [] w1 = Returns page2 w2"
    unfolding w2_def by (rule get_page_ok[OF _ r2(2,3)]) (simp add: w1 r2(1))
  then have nx: "iter_cursor_page_next E page1 w1 = Returns (Some page2) w2"
    by (simp add: iter_cursor_page_next_def p1(5,6))
  from sync_users_page_ok[OF p2(1,2), of w2 E] obtain wb where
    wb: "sync_state wb = sync_state w2"
    and pb: "sync_users_page E page2 w2 =
               (if truthy (dget page2 ''after_cursor'')
                then set_cursor_val E ''users'' (dget page2 ''after_cursor'') wb
                else Returns () wb)"
    by auto
  obtain w' where pg2: "sync_users_page E page2 w2 = Returns () w'"
    and ck: "sync_state w' ''users'' = Some c2"
  proof (cases "truthy (dget page2 ''after_cursor'')")
    case True
    with p2(4) have "sql_varchar E 255 (dget page2 ''after_cursor'') = Some c2" by simp
    with True pb that show ?thesis by (simp add: set_cursor_val_eq)
  next
    case False
    with p2(4) have "c2 = ''C1''" by simp
    with False pb wb w2 that show ?thesis by simp
  qed
  have "sync_users_pages E (Suc (Suc n)) page1 ?w0 = Returns () w'"
    by (simp add: pg1' p1(4) nx pg2 p2(3))
  with first have "sync_users E fuel w = Returns () w'"
    by (simp add: sync_users_def get_cursor_val_def nock n)
  with pg1' w1 ck show ?thesis by auto
qed

text \<open>
  C5 (as amended). In a users run that starts without a checkpoint, a first page with
  the after_cursor \<^verbatim>\<open>"C1"\<close> and a falsy end_of_stream is processed and the
  checkpoint is \<^verbatim>\<open>"C1"\<close>; the page it links to is fetched, and with a truthy
  end_of_stream on that page the run returns. The checkpoint is then still
  \<^verbatim>\<open>"C1"\<close> when the last page carries no after_cursor, and the after_cursor of the
  last page when it carries one.
\<close>

theorem users_first_run:
  assumes "sync_state w ''users'' = None"
    and "server E (length (http_log w))
               (z_base E @ ''/api/v2/incremental/users/cursor.json'',
                [(''per_page'', JInt (per_page E)), (''start_time'', JInt (initial_start_time_epoch E))],
                False) = Reply resp1"
      "status_code resp1 = 200" "json_body resp1 = Some (JObj page1)"
    and "dget_default page1 ''users'' (JArr []) = JArr us1" "\<forall>u\<in>set us1. has_key u"
      "dget page1 ''after_cursor'' = JStr ''C1''" "\<not> truthy (dget page1 ''end_of_stream'')"
      "dget page1 ''after_url'' = JStr u2" "u2 \<noteq> []"
    and "server E (Suc (length (http_log w))) (u2, [], False) = Reply resp2"
      "status_code resp2 = 200" "json_body resp2 = Some (JObj page2)"
    and "dget_default page2 ''users'' (JArr []) = JArr us2" "\<forall>u\<in>set us2. has_key u"
      "truthy (dget page2 ''end_of_stream'')"
      "if truthy (dget page2 ''after_cursor'')
       then sql_varchar E 255 (dget page2 ''after_cursor'') = Some c2 else c2 = ''C1''"
    and "2 \<le> fuel"
  shows "\<exists>w1 w'.
           sync_users_page E page1
             (w\<lparr>http_log := http_log w @
                [(z_base E @ ''/api/v2/incremental/users/cursor.json'',
                  [(''per_page'', JInt (per_page E)),
                   (''start_time'', JInt (initial_start_time_epoch E))], False)]\<rparr>) = Returns () w1
         \<and> sync_state w1 ''users'' = Some ''C1''
         \<and> sync_users E fuel w = Returns () w' \<and> sync_state w' ''users'' = Some c2"
  using assms by (rule users_two_pages)

theorem users_first_run_witness:
  "\<exists>w'. sync_users (example_config\<lparr>server := users_server\<rparr>) 2 empty_world = Returns () w'
      \<and> sync_state w' ''users'' = Some ''C1''"
proof -
  let ?E = "example_config\<lparr>server := users_server\<rparr>"
  let ?u = "[(''id'', JInt 7), (''name'', JStr ''Ann'')]"
  let ?u2 = "''https://example.zendesk.com/api/v2/incremental/users/cursor.json?cursor=C1''"
  let ?p1 = "[(''users'', JArr [JObj ?u]), (''after_cursor'', JStr ''C1''),
              (''end_of_stream'', JBool False), (''after_url'', JStr ?u2)]"
  let ?p2 = "[(''users'', JArr []), (''end_of_stream'', JBool True)]"
  have "\<exists>w1 w'.
           sync_users_page ?E ?p1
             (empty_world\<lparr>http_log := http_log empty_world @
                [(z_base ?E @ ''/api/v2/incremental/users/cursor.json'',
                  [(''per_page'', JInt (per_page ?E)),
                   (''start_time'', JInt (initial_start_time_epoch ?E))], False)]\<rparr>) = Returns () w1
         \<and> sync_state w1 ''users'' = Some ''C1''
         \<and> sync_users ?E 2 empty_world = Returns () w' \<and> sync_state w' ''users'' = Some ''C1''"
    by (rule users_first_run[where ?resp1.0 = "response 200 None (Some (JObj ?p1)) []"
          and ?resp2.0 = "response 200 None (Some (JObj ?p2)) []" and ?us1.0 = "[JObj ?u]"
          and ?us2.0 = "[]" and ?u2.0 = ?u2 and ?page1.0 = ?p1 and ?page2.0 = ?p2])
       (simp_all add: empty_world_def users_server_def json_reply_def response_def dget_def
          dget_default_def has_key_def sql_bigint_def in_bigint_def)
  then show ?thesis by blast
qed

text \<open>
  The claim as stated fails when the last page carries an after_cursor, as the pages of
  the remote API do: the run ends with that cursor as the checkpoint.
\<close>

theorem users_first_run_counterexample:
  "raised (sync_users (example_config\<lparr>server := users_server_2\<rparr>) 2 empty_world) = None
   \<and> sync_state (the (world_of (sync_users (example_config\<lparr>server := users_server_2\<rparr>) 2 empty_world)))
        ''users'' = Some ''C2''"
proof -
  let ?E = "example_config\<lparr>server := users_server_2\<rparr>"
  let ?u2 = "''https://example.zendesk.com/api/v2/incremental/users/cursor.json?cursor=C1''"
  let ?p1 = "[(''users'', JArr []), (''after_cursor'', JStr ''C1''),
              (''end_of_stream'', JBool False), (''after_url'', JStr ?u2)]"
  let ?p2 = "[(''users'', JArr []), (''after_cursor'', JStr ''C2''), (''end_of_stream'', JBool True)]"
  have "\<exists>w1 w'.
           sync_users_page ?E ?p1
             (empty_world\<lparr>http_log := http_log empty_world @
                [(z_base ?E @ ''/api/v2/incremental/users/cursor.json'',
                  [(''per_page'', JInt (per_page ?E)),
                   (''start_time'', JInt (initial_start_time_epoch ?E))], False)]\<rparr>) = Returns () w1
         \<and> sync_state w1 ''users'' = Some ''C1''
         \<and> sync_users ?E 2 empty_world = Returns () w' \<and> sync_state w' ''users'' = Some ''C2''"
    by (rule users_two_pages[where ?resp1.0 = "response 200 None (Some (JObj ?p1)) []"
          and ?resp2.0 = "response 200 None (Some (JObj ?p2)) []" and ?us1.0 = "[]"
          and ?us2.0 = "[]" and ?u2.0 = ?u2 and ?page1.0 = ?p1 and ?page2.0 = ?p2])
       (simp_all add: empty_world_def users_server_2_def json_reply_def response_def dget_def
          dget_default_def sql_varchar_def)
  then show ?thesis by (auto simp: raised_def world_of_def)
qed


subsection \<open>Checkpoints\<close>

lemma get_page_neterror:
  assumes "server E (length (http_log w)) (u, ps, False) = NetError"
  shows "get_page E (JStr u) ps w = Raises ConnectionError (w\<lparr>http_log := http_log w @ [(u, ps, False)]\<rparr>)"
  using assms by (simp add: get_page_def get_with_retry_def eval_nat_numeral Let_def)

lemma cursor_step_written:
  assumes "(let ac = dget page key in
            if truthy ac then set_cursor_val E resource ac w else Returns () w) = Returns () w1"
    and "truthy (dget page key)"
  shows "sync_state w1 resource = sql_varchar E 255 (dget page key) \<and> sync_state w1 resource \<noteq> None"
  using assms by (auto simp: Let_def set_cursor_val_eq split: option.splits)

lemma sync_users_page_written:
  assumes "sync_users_page E page w = Returns () w1" "truthy (dget page ''after_cursor'')"
  shows "sync_state w1 ''users'' = sql_varchar E 255 (dget page ''after_cursor'')
         \<and> sync_state w1 ''users'' \<noteq> None"
proof -
  from assms(1) obtain w2 where
    "(let ac = dget page ''after_cursor'' in
      if truthy ac then set_cursor_val E ''users'' ac w2 else Returns () w2) = Returns () w1"
    by (auto simp: sync_users_page_def and_then_Returns)
  from cursor_step_written[OF this assms(2)] show ?thesis .
qed

lemma sync_tickets_page_written:
  assumes "sync_tickets_page E fuel page w = Returns () w1" "truthy (dget page ''after_cursor'')"
  shows "sync_state w1 ''tickets'' = sql_varchar E 255 (dget page ''after_cursor'')
         \<and> sync_state w1 ''tickets'' \<noteq> None"
proof -
  from assms(1) obtain w2 where
    "(let ac = dget page ''after_cursor'' in
      if truthy ac then set_cursor_val E ''tickets'' ac w2 else Returns () w2) = Returns () w1"
    by (auto simp: sync_tickets_page_def and_then_Returns)
  from cursor_step_written[OF this assms(2)] show ?thesis .
qed

lemma sync_organizations_page_written:
  assumes "sync_organizations_page E page w = Returns () w1" "truthy (dget page ''end_time'')"
  shows "sync_state w1 ''organizations'' = sql_varchar E 255 (JStr (str_of E (dget page ''end_time'')))
         \<and> sync_state w1 ''organizations'' \<noteq> None"
proof -
  from assms obtain w2 where
    "set_cursor_val E ''organizations'' (JStr (str_of E (dget page ''end_time''))) w2 = Returns () w1"
    by (auto simp: sync_organizations_page_def and_then_Returns Let_def)
  then show ?thesis by (auto simp: set_cursor_val_eq split: option.splits)
qed

lemma next_page_same_checkpoints:
  "iter_cursor_page_next E page w = Raises e w' \<Longrightarrow> sync_state w' = sync_state w"
  "iter_cursor_page_next E page w = Returns nxt w' \<Longrightarrow> sync_state w' = sync_state w"
  using next_page_keeps(1)[OF same_checkpoints_refl same_checkpoints_trans same_checkpoints_io,
      of w E page]
  by (simp_all add: same_checkpoints_def)

lemma get_page_same_checkpoints:
  "get_page E url ps w = Raises e w' \<Longrightarrow> sync_state w' = sync_state w"
  "get_page E url ps w = Returns page w' \<Longrightarrow> sync_state w' = sync_state w"
  using get_page_keeps[of same_checkpoints w E url ps, OF same_checkpoints_io]
  by (simp_all add: same_checkpoints_def)

lemma sync_ticket_events_page_same_checkpoints:
  "sync_ticket_events_page E page w = Returns () w' \<Longrightarrow> sync_state w' = sync_state w"
proof -
  assume a: "sync_ticket_events_page E page w = Returns () w'"
  have "keeps same_checkpoints w (sync_ticket_events_page E page w)"
    by (rule sync_ticket_events_page_keeps[OF same_checkpoints_refl same_checkpoints_trans])
       (simp_all add: same_checkpoints_io upsert_comment_same_checkpoints
          upsert_attachment_same_checkpoints)
  with a show ?thesis by (simp add: same_checkpoints_def)
qed

text \<open>
  C1. The user and the ticket coordinator: when the body of the loop has
  returned for a page with an after_cursor, the checkpoint of the resource is that
  cursor, and the next page is fetched from that state: if the fetch raises, the run
  ends with the exception and the checkpoint; if it returns, the loop goes on from the
  state with the checkpoint. The organization coordinator: when a page with an end_time
  is processed the checkpoint is the text of the end_time, and the run sleeps and
  fetches the next page from that state. The ticket-event coordinator does not do what
  its sibling does: processing a page writes no checkpoint; with a next_page the loop
  goes to that page with the checkpoints it started with, whether or not the page has an
  end_time, and only on the page that has no next_page is the end_time written. The four
  snapshot coordinators write no checkpoint.
\<close>

theorem checkpoint_per_page:
  "(sync_users_page E page w = Returns () w1 \<and> truthy (dget page ''after_cursor'')
      \<and> \<not> truthy (dget page ''end_of_stream'') \<longrightarrow>
      sync_state w1 ''users'' = sql_varchar E 255 (dget page ''after_cursor'')
      \<and> sync_state w1 ''users'' \<noteq> None
      \<and> (\<forall>e w2. iter_cursor_page_next E page w1 = Raises e w2 \<longrightarrow>
            sync_users_pages E (Suc n) page w = Raises e w2 \<and> sync_state w2 = sync_state w1)
      \<and> (\<forall>p w2. iter_cursor_page_next E page w1 = Returns (Some p) w2 \<longrightarrow>
            sync_users_pages E (Suc n) page w = sync_users_pages E n p w2
            \<and> sync_state w2 = sync_state w1))
   \<and> (sync_tickets_page E fuel page w = Returns () w1 \<and> truthy (dget page ''after_cursor'')
      \<and> \<not> truthy (dget page ''end_of_stream'') \<longrightarrow>
      sync_state w1 ''tickets'' = sql_varchar E 255 (dget page ''after_cursor'')
      \<and> sync_state w1 ''tickets'' \<noteq> None
      \<and> (\<forall>e w2. iter_cursor_page_next E page w1 = Raises e w2 \<longrightarrow>
            sync_tickets_pages E fuel (Suc n) page w = Raises e w2 \<and> sync_state w2 = sync_state w1)
      \<and> (\<forall>p w2. iter_cursor_page_next E page w1 = Returns (Some p) w2 \<longrightarrow>
            sync_tickets_pages E fuel (Suc n) page w = sync_tickets_pages E fuel n p w2
            \<and> sync_state w2 = sync_state w1))
   \<and> (get_page E url params w = Returns page w1 \<and> sync_organizations_page E page w1 = Returns () w2
      \<and> truthy (dget page ''end_time'') \<and> truthy (dget page ''next_page'')
      \<and> 0 \<le> org_page_delay_secs E \<longrightarrow>
      sync_state w2 ''organizations'' = sql_varchar E 255 (JStr (str_of E (dget page ''end_time'')))
      \<and> sync_state w2 ''organizations'' \<noteq> None
      \<and> sync_organizations_loop E (Suc n) url params w =
          sync_organizations_loop E n (dget page ''next_page'') []
            (w2\<lparr>slept := slept w2 @ [org_page_delay_secs E]\<rparr>)
      \<and> (\<forall>e w3. get_page E (dget page ''next_page'') []
                    (w2\<lparr>slept := slept w2 @ [org_page_delay_secs E]\<rparr>) = Raises e w3 \<longrightarrow>
            sync_organizations_loop E (Suc (Suc n)) url params w = Raises e w3
            \<and> sync_state w3 = sync_state w2))
   \<and> (get_page E url params w = Returns page w1 \<and> sync_ticket_events_page E page w1 = Returns () w2 \<longrightarrow>
      sync_state w2 = sync_state w
      \<and> (truthy (dget page ''next_page'') \<longrightarrow>
            sync_ticket_events_loop E (Suc n) url params w =
              sync_ticket_events_loop E n (dget page ''next_page'') [] w2)
      \<and> (\<not> truthy (dget page ''next_page'') \<and> truthy (dget page ''end_time'') \<longrightarrow>
            sync_ticket_events_loop E (Suc n) url params w =
              set_cursor_val E ''ticket_events'' (JStr (str_of E (dget page ''end_time''))) w2))
   \<and> keeps same_checkpoints w (sync_views E fuel w)
   \<and> keeps same_checkpoints w (sync_triggers E fuel w)
   \<and> keeps same_checkpoints w (sync_trigger_categories E fuel w)
   \<and> keeps same_checkpoints w (sync_macros E fuel w)"
proof (intro conjI impI allI snapshots_same_checkpoints; (elim conjE)?)
  assume a: "sync_users_page E page w = Returns () w1" "truthy (dget page ''after_cursor'')"
  from sync_users_page_written[OF a]
  show "sync_state w1 ''users'' = sql_varchar E 255 (dget page ''after_cursor'')"
    "sync_state w1 ''users'' \<noteq> None" by blast+
next
  fix e w2
  assume "sync_users_page E page w = Returns () w1" "\<not> truthy (dget page ''end_of_stream'')"
    "iter_cursor_page_next E page w1 = Raises e w2"
  then show "sync_users_pages E (Suc n) page w = Raises e w2" "sync_state w2 = sync_state w1"
    by (simp_all add: next_page_same_checkpoints)
next
  fix p w2
  assume "sync_users_page E page w = Returns () w1" "\<not> truthy (dget page ''end_of_stream'')"
    "iter_cursor_page_next E page w1 = Returns (Some p) w2"
  then show "sync_users_pages E (Suc n) page w = sync_users_pages E n p w2"
    "sync_state w2 = sync_state w1"
    by (simp_all add: next_page_same_checkpoints)
next
  assume a: "sync_tickets_page E fuel page w = Returns () w1" "truthy (dget page ''after_cursor'')"
  from sync_tickets_page_written[OF a]
  show "sync_state w1 ''tickets'' = sql_varchar E 255 (dget page ''after_cursor'')"
    "sync_state w1 ''tickets'' \<noteq> None" by blast+
next
  fix e w2
  assume "sync_tickets_page E fuel page w = Returns () w1" "\<not> truthy (dget page ''end_of_stream'')"
    "iter_cursor_page_next E page w1 = Raises e w2"
  then show "sync_tickets_pages E fuel (Suc n) page w = Raises e w2" "sync_state w2 = sync_state w1"
    by (simp_all add: next_page_same_checkpoints)
next
  fix p w2
  assume "sync_tickets_page E fuel page w = Returns () w1" "\<not> truthy (dget page ''end_of_stream'')"
    "iter_cursor_page_next E page w1 = Returns (Some p) w2"
  then show "sync_tickets_pages E fuel (Suc n) page w = sync_tickets_pages E fuel n p w2"
    "sync_state w2 = sync_state w1"
    by (simp_all add: next_page_same_checkpoints)
next
  assume a: "sync_organizations_page E page w1 = Returns () w2" "truthy (dget page ''end_time'')"
  from sync_organizations_page_written[OF a]
  show "sync_state w2 ''organizations'' = sql_varchar E 255 (JStr (str_of E (dget page ''end_time'')))"
    "sync_state w2 ''organizations'' \<noteq> None" by blast+
next
  assume a: "get_page E url params w = Returns page w1"
    "sync_organizations_page E page w1 = Returns () w2" "truthy (dget page ''next_page'')"
    "0 \<le> org_page_delay_secs E"
  then show "sync_organizations_loop E (Suc n) url params w =
          sync_organizations_loop E n (dget page ''next_page'') []
            (w2\<lparr>slept := slept w2 @ [org_page_delay_secs E]\<rparr>)"
    by (simp add: Let_def py_sleep_def)
next
  fix e w3
  assume a: "get_page E url params w = Returns page w1"
    "sync_organizations_page E page w1 = Returns () w2" "truthy (dget page ''next_page'')"
    "0 \<le> org_page_delay_secs E"
    and b: "get_page E (dget page ''next_page'') []
              (w2\<lparr>slept := slept w2 @ [org_page_delay_secs E]\<rparr>) = Raises e w3"
  from a b show "sync_organizations_loop E (Suc (Suc n)) url params w = Raises e w3"
    by (simp add: Let_def py_sleep_def)
  from get_page_same_checkpoints(1)[OF b] show "sync_state w3 = sync_state w2" by simp
next
  assume a: "get_page E url params w = Returns page w1"
    "sync_ticket_events_page E page w1 = Returns () w2"
  from get_page_same_checkpoints(2)[OF a(1)] sync_ticket_events_page_same_checkpoints[OF a(2)]
  show "sync_state w2 = sync_state w" by simp
next
  assume "get_page E url params w = Returns page w1"
    "sync_ticket_events_page E page w1 = Returns () w2" "truthy (dget page ''next_page'')"
  then show "sync_ticket_events_loop E (Suc n) url params w =
              sync_ticket_events_loop E n (dget page ''next_page'') [] w2"
    by (simp add: Let_def)
next
  assume "get_page E url params w = Returns page w1"
    "sync_ticket_events_page E page w1 = Returns () w2" "\<not> truthy (dget page ''next_page'')"
    "truthy (dget page ''end_time'')"
  then show "sync_ticket_events_loop E (Suc n) url params w =
              set_cursor_val E ''ticket_events'' (JStr (str_of E (dget page ''end_time''))) w2"
    by (simp add: Let_def)
qed

theorem checkpoint_per_page_witness:
  "\<exists>w2. sync_users_pages example_config 1 cursor_page empty_world = Raises ConnectionError w2
      \<and> sync_state w2 ''users'' = Some ''C1''"
proof -
  let ?u = "''https://example.zendesk.com/api/v2/incremental/users/cursor.json?cursor=C1''"
  let ?w1 = "empty_world\<lparr>sync_state := [''users'' \<mapsto> ''C1'']\<rparr>"
  let ?w2 = "?w1\<lparr>http_log := http_log ?w1 @ [(?u, [], False)]\<rparr>"
  have pg: "sync_users_page example_config cursor_page empty_world = Returns () ?w1"
    by (simp add: sync_users_page_def cursor_page_def py_iter_def dget_default_def dget_def
        set_cursor_val_eq sql_varchar_def empty_world_def)
  have ac: "truthy (dget cursor_page ''after_cursor'')"
    and eos: "\<not> truthy (dget cursor_page ''end_of_stream'')"
    and au: "dget cursor_page ''after_url'' = JStr ?u"
    by (simp_all add: cursor_page_def dget_def)
  have "get_page example_config (JStr ?u) [] ?w1 = Raises ConnectionError ?w2"
    by (rule get_page_neterror) (simp add: example_config_def)
  then have nx: "iter_cursor_page_next example_config cursor_page ?w1 = Raises ConnectionError ?w2"
    by (simp add: iter_cursor_page_next_def au)
  from checkpoint_per_page[where E = example_config and page = cursor_page and w = empty_world
      and ?w1.0 = ?w1 and n = 0, THEN conjunct1] pg ac eos
  have "sync_state ?w1 ''users'' \<noteq> None
      \<and> (\<forall>e w2. iter_cursor_page_next example_config cursor_page ?w1 = Raises e w2 \<longrightarrow>
            sync_users_pages example_config (Suc 0) cursor_page empty_world = Raises e w2
            \<and> sync_state w2 = sync_state ?w1)"
    by blast
  with nx have "sync_users_pages example_config (Suc 0) cursor_page empty_world
                  = Raises ConnectionError ?w2" by blast
  then show ?thesis by simp
qed

lemma dec_1700000100: "example_str (JInt 1700000100) = ''1700000100''"
  by (simp add: example_str_def)

text \<open>
  The ticket-event coordinator against its sibling, on the same server: the first page
  has an end_time and a next_page and the fetch of the next page fails. The run of the
  ticket-event coordinator ends with the exception after two HTTP calls without a
  checkpoint for its resource; the run of the organization coordinator ends with the
  same exception and with the end_time of the first page as its checkpoint.
\<close>

theorem checkpoint_per_page_counterexample:
  "raised (sync_ticket_events_for_comments (example_config\<lparr>server := events_server\<rparr>) 2 empty_world)
     = Some ConnectionError
   \<and> sync_state (the (world_of (sync_ticket_events_for_comments
                      (example_config\<lparr>server := events_server\<rparr>) 2 empty_world))) ''ticket_events''
     = None
   \<and> length (http_log (the (world_of (sync_ticket_events_for_comments
                      (example_config\<lparr>server := events_server\<rparr>) 2 empty_world)))) = 2
   \<and> raised (sync_organizations (example_config\<lparr>server := events_server\<rparr>) 2 empty_world)
     = Some ConnectionError
   \<and> sync_state (the (world_of (sync_organizations
                      (example_config\<lparr>server := events_server\<rparr>) 2 empty_world))) ''organizations''
     = Some ''1700000100''"
proof -
  let ?E = "example_config\<lparr>server := events_server\<rparr>"
  let ?np = "''https://example.zendesk.com/api/v2/incremental/ticket_events.json?start_time=1700000100''"
  let ?page = "[(''ticket_events'', JArr []), (''next_page'', JStr ?np), (''end_time'', JInt 1700000100)]"
  have first: "get_page ?E (JStr u) ps empty_world =
               Returns ?page (empty_world\<lparr>http_log := [(u, ps, False)]\<rparr>)" for u ps
    using get_page_ok[of ?E empty_world u ps "response 200 None (Some (JObj ?page)) []" ?page]
    by (simp add: events_server_def json_reply_def response_def empty_world_def)
  have second: "get_page ?E (JStr ?np) [] w =
                Raises ConnectionError (w\<lparr>http_log := http_log w @ [(?np, [], False)]\<rparr>)"
    if "http_log w \<noteq> []" for w
    by (rule get_page_neterror) (use that in \<open>simp add: events_server_def\<close>)
  have nc: "get_cursor_val empty_world r = JNull" for r
    by (simp add: get_cursor_val_def empty_world_def)
  have ev: "\<exists>w'. sync_ticket_events_for_comments ?E 2 empty_world = Raises ConnectionError w'
            \<and> sync_state w' ''ticket_events'' = None \<and> length (http_log w') = 2"
    by (simp add: sync_ticket_events_for_comments_def nc eval_nat_numeral first
        sync_ticket_events_page_def py_iter_def dget_default_def dget_def second)
       (simp add: empty_world_def)
  have so: "str_of example_config (JInt 1700000100) = ''1700000100''"
    and sk: "\<not> skip_organizations example_config"
    and dl: "org_page_delay_secs example_config = 3 / 2"
    by (simp_all add: example_config_def dec_1700000100)
  have org: "\<exists>w'. sync_organizations ?E 2 empty_world = Raises ConnectionError w'
            \<and> sync_state w' ''organizations'' = Some ''1700000100''"
    by (simp add: sync_organizations_def sk nc numeral_2_eq_2 first
        sync_organizations_page_def py_iter_def dget_default_def dget_def second so dl
        set_cursor_val_eq sql_varchar_def py_sleep_def Let_def)
  from ev org show ?thesis by (auto simp: raised_def world_of_def)
qed


end
